(* ===== verification/Prelude.thy ===== *)
theory Prelude
  imports Main "HOL-Library.Sublist"
begin

text \<open>
  Shared vocabulary of the development. The script \<open>src/bitwarden-to-pass.py\<close> is
  Python: a raised exception is the left value of a sum (\<open>'e + 'a\<close>), a statement
  that changes the world is a function from a state to a result and the new state
  (\<open>('s, 'e, 'a) exc\<close>), and the exception propagates with every effect done before
  it kept. This theory holds the two binds, the Python string primitives the script
  calls (\<open>str(n)\<close> of an \<open>int\<close>, \<open>str.join\<close>, \<open>str.split(sep)[0]\<close>,
  \<open>str.endswith\<close>, \<open>str.removesuffix\<close>, \<open>str.lower\<close>, the UTF-8 byte length) and
  the generic lemmas on them, collected in \<open>py_simps\<close>.
  Characters are code points 0--255 (the Latin-1 block of Unicode): the \<open>char\<close>
  of HOL is a byte, read here as the code point of that number.
\<close>

named_theorems py_simps "evaluation rules of the modelled Python primitives"

section \<open>Exceptions as values\<close>

definition sbind :: "'e + 'a \<Rightarrow> ('a \<Rightarrow> 'e + 'b) \<Rightarrow> 'e + 'b" where
  "sbind m f = (case m of Inl e \<Rightarrow> Inl e | Inr a \<Rightarrow> f a)"

type_synonym ('s, 'e, 'a) exc = "'s \<Rightarrow> ('e + 'a) \<times> 's"

definition ereturn :: "'a \<Rightarrow> ('s, 'e, 'a) exc" where
  "ereturn a s = (Inr a, s)"

definition eraise :: "'e \<Rightarrow> ('s, 'e, 'a) exc" where
  "eraise e s = (Inl e, s)"

definition elift :: "'e + 'a \<Rightarrow> ('s, 'e, 'a) exc" where
  "elift m s = (m, s)"

definition ebind :: "('s, 'e, 'a) exc \<Rightarrow> ('a \<Rightarrow> ('s, 'e, 'b) exc) \<Rightarrow> ('s, 'e, 'b) exc" where
  "ebind m f s = (case m s of (Inl e, s') \<Rightarrow> (Inl e, s') | (Inr a, s') \<Rightarrow> f a s')"

text \<open>A statement list run for each element of a list, as a Python \<open>for\<close> loop.\<close>

fun eforeach :: "('a \<Rightarrow> ('s, 'e, unit) exc) \<Rightarrow> 'a list \<Rightarrow> ('s, 'e, unit) exc" where
  "eforeach f [] = ereturn ()"
| "eforeach f (x # xs) = ebind (f x) (\<lambda>_. eforeach f xs)"

section \<open>Python string primitives\<close>

definition digit_char :: "nat \<Rightarrow> char" where
  "digit_char d = char_of (48 + d)"

text \<open>\<open>str(n)\<close> for a non-negative Python \<open>int\<close>: its decimal digits.\<close>

fun nat_str :: "nat \<Rightarrow> string" where
  "nat_str n = (if n < 10 then [digit_char n] else nat_str (n div 10) @ [digit_char (n mod 10)])"

declare nat_str.simps [simp del]

definition int_str :: "int \<Rightarrow> string" where
  "int_str i = (if i < 0 then CHR ''-'' # nat_str (nat (- i)) else nat_str (nat i))"

text \<open>Reading decimal digits back, the inverse that \<open>int(s)\<close> computes on digit strings.\<close>

definition read_nat :: "string \<Rightarrow> nat" where
  "read_nat s = foldl (\<lambda>acc c. 10 * acc + (of_char c - 48)) 0 s"

definition is_digit :: "char \<Rightarrow> bool" where
  "is_digit c \<longleftrightarrow> 48 \<le> (of_char c :: nat) \<and> (of_char c :: nat) < 58"

text \<open>\<open>sep.join(xs)\<close>.\<close>

fun py_join :: "string \<Rightarrow> string list \<Rightarrow> string" where
  "py_join sep [] = []"
| "py_join sep [x] = x"
| "py_join sep (x # y # zs) = x @ sep @ py_join sep (y # zs)"

text \<open>\<open>s.split(c)[0]\<close> for a one-character separator: \<open>split\<close> never returns an
  empty list, so index 0 always exists and is the text before the first separator.\<close>

definition split_head :: "char \<Rightarrow> string \<Rightarrow> string" where
  "split_head c s = takeWhile (\<lambda>x. x \<noteq> c) s"

definition ends_with :: "string \<Rightarrow> string \<Rightarrow> bool" where
  "ends_with s suf \<longleftrightarrow> suffix suf s"

definition remove_suffix :: "string \<Rightarrow> string \<Rightarrow> string" where
  "remove_suffix s suf = (if suf \<noteq> [] \<and> suffix suf s then take (length s - length suf) s else s)"

text \<open>\<open>str.lower\<close> on the code points 0--255: A--Z and the Latin-1 capitals
  U+00C0--U+00DE except the multiplication sign U+00D7 move up by 32; every other
  code point of the block is its own lower case.\<close>

definition py_lower_char :: "char \<Rightarrow> char" where
  "py_lower_char c =
     (let n = (of_char c :: nat)
      in if (65 \<le> n \<and> n \<le> 90) \<or> (192 \<le> n \<and> n \<le> 222 \<and> n \<noteq> 215) then char_of (n + 32) else c)"

definition py_lower :: "string \<Rightarrow> string" where
  "py_lower s = map py_lower_char s"

text \<open>\<open>len(s.encode('utf8'))\<close>: one byte below U+0080, two for the rest of the block.\<close>

definition utf8_len :: "string \<Rightarrow> nat" where
  "utf8_len s = sum_list (map (\<lambda>c. if (of_char c :: nat) < 128 then 1 else 2) s)"

section \<open>Lemmas\<close>

lemma sbind_simps [simp, py_simps]:
  "sbind (Inl e) f = Inl e" "sbind (Inr a) f = f a"
  by (simp_all add: sbind_def)

lemma sbind_assoc [simp]: "sbind (sbind m f) g = sbind m (\<lambda>x. sbind (f x) g)"
  by (cases m) simp_all

lemma sbind_Inr_right [simp]: "sbind m Inr = m"
  by (cases m) simp_all

lemma sbind_cong: "(\<And>x. m = Inr x \<Longrightarrow> f x = g x) \<Longrightarrow> sbind m f = sbind m g"
  by (cases m) simp_all

lemma sbind_Inr_iff: "sbind m f = Inr b \<longleftrightarrow> (\<exists>a. m = Inr a \<and> f a = Inr b)"
  by (cases m) simp_all

lemma ebind_simps [py_simps]:
  "ebind (ereturn a) f = f a"
  "ebind (eraise e) f = eraise e"
  "ebind (elift (Inr a)) f = f a"
  "ebind (elift (Inl e)) f = eraise e"
  by (simp_all add: fun_eq_iff ebind_def ereturn_def eraise_def elift_def)

lemma ebind_apply [py_simps]:
  "ebind m f s = (case m s of (Inl e, s') \<Rightarrow> (Inl e, s') | (Inr a, s') \<Rightarrow> f a s')"
  by (simp add: ebind_def)

lemma exc_apply [simp, py_simps]:
  "ereturn a s = (Inr a, s)" "eraise e s = (Inl e, s)" "elift m s = (m, s)"
  by (simp_all add: ereturn_def eraise_def elift_def)

lemma ebind_Inr:
  "ebind m f s = (Inr b, s'') \<longleftrightarrow> (\<exists>a s'. m s = (Inr a, s') \<and> f a s' = (Inr b, s''))"
  by (auto simp: ebind_def split: prod.splits sum.splits)

lemma eforeach_append:
  "eforeach f (xs @ ys) = ebind (eforeach f xs) (\<lambda>_. eforeach f ys)"
  by (induction xs) (auto simp: fun_eq_iff ebind_def split: prod.splits sum.splits)

subsection \<open>Decimal digits\<close>

lemma of_char_digit_char [simp]: "d < 10 \<Longrightarrow> (of_char (digit_char d) :: nat) = 48 + d"
  by (simp add: digit_char_def)

lemma is_digit_digit_char [simp]: "d < 10 \<Longrightarrow> is_digit (digit_char d)"
  by (simp add: is_digit_def)

lemma nat_str_digits: "\<forall>c \<in> set (nat_str n). is_digit c"
  by (induction n rule: nat_str.induct) (subst nat_str.simps, auto)

lemma nat_str_nonempty [simp]: "nat_str n \<noteq> []"
  by (subst nat_str.simps) simp

lemma read_nat_snoc: "read_nat (xs @ [c]) = 10 * read_nat xs + (of_char c - 48)"
  by (simp add: read_nat_def)

lemma read_nat_nat_str [simp]: "read_nat (nat_str n) = n"
proof (induction n rule: nat_str.induct)
  case (1 n)
  show ?case
  proof (cases "n < 10")
    case True
    then show ?thesis by (subst nat_str.simps) (simp add: read_nat_def)
  next
    case False
    then have "read_nat (nat_str n) = 10 * read_nat (nat_str (n div 10)) + n mod 10"
      by (subst nat_str.simps) (simp add: read_nat_snoc)
    with "1" False show ?thesis by simp
  qed
qed

lemma nat_str_inj: "nat_str a = nat_str b \<longleftrightarrow> a = b"
  by (metis read_nat_nat_str)

text \<open>Two digit strings followed by the same non-digit split the same way: what
  makes \<open>str(i) + '] '\<close> a prefix that determines \<open>i\<close>.\<close>

lemma digits_prefix_eq:
  assumes "\<forall>c \<in> set xs. is_digit c" "\<forall>c \<in> set ys. is_digit c" "\<not> is_digit d"
    and "xs @ d # s = ys @ d # t"
  shows "xs = ys \<and> s = t"
  using assms
proof (induction xs arbitrary: ys)
  case Nil
  then show ?case by (cases ys) auto
next
  case (Cons x xs)
  then show ?case by (cases ys) auto
qed

lemma nat_str_prefix_eq:
  "\<not> is_digit d \<Longrightarrow> nat_str a @ d # s = nat_str b @ d # t \<longleftrightarrow> a = b \<and> s = t"
  using digits_prefix_eq [OF nat_str_digits nat_str_digits] nat_str_inj by blast

lemma map_enumerate: "map (\<lambda>x. f (fst x)) (enumerate n xs) = map f [n..<n + length xs]"
  by (induction xs arbitrary: n) (simp_all del: upt_Suc add: upt_conv_Cons)

subsection \<open>Joining lines\<close>

lemma py_join_Cons: "xs \<noteq> [] \<Longrightarrow> py_join sep (x # xs) = x @ sep @ py_join sep xs"
  by (cases xs) simp_all

lemma py_join_append_single:
  "py_join sep (xs @ [y]) = (if xs = [] then y else py_join sep xs @ sep @ y)"
  by (induction sep xs rule: py_join.induct) simp_all

lemma split_head_no_sep: "c \<notin> set (split_head c s)"
  by (auto simp: split_head_def dest: set_takeWhileD)

lemma remove_suffix_append [simp]:
  "suf \<noteq> [] \<Longrightarrow> remove_suffix (s @ suf) suf = s"
  by (simp add: remove_suffix_def suffix_def)

lemma ends_with_append [simp]: "ends_with (s @ suf) suf"
  by (simp add: ends_with_def suffix_def)

lemma ebind_frame:
  assumes "g (snd (m s)) = g s"
    and "\<And>a s'. m s = (Inr a, s') \<Longrightarrow> g (snd (f a s')) = g s'"
  shows "g (snd (ebind m f s)) = g s"
  using assms by (auto simp: ebind_def split: prod.splits sum.splits)

lemma eforeach_frame:
  "(\<And>x s. x \<in> set xs \<Longrightarrow> g (snd (f x s)) = g s) \<Longrightarrow> g (snd (eforeach f xs s)) = g s"
proof (induction xs arbitrary: s)
  case Nil
  then show ?case by simp
next
  case (Cons x xs)
  have IH: "g (snd (eforeach f xs s')) = g s'" for s'
    by (rule Cons.IH) (rule Cons.prems, simp)
  show ?case
    by (simp only: eforeach.simps, rule ebind_frame) (simp_all add: Cons.prems IH)
qed

lemma ebind_rel:
  assumes "R s (snd (m s))"
    and "\<And>a s'. m s = (Inr a, s') \<Longrightarrow> R s' (snd (f a s'))"
    and "\<And>x y z. R x y \<Longrightarrow> R y z \<Longrightarrow> R x z"
  shows "R s (snd (ebind m f s))"
  using assms by (auto simp: ebind_def split: prod.splits sum.splits)

lemma eforeach_rel:
  assumes "\<And>x s. x \<in> set xs \<Longrightarrow> R s (snd (f x s))"
    and "\<And>s. R s s"
    and "\<And>x y z. R x y \<Longrightarrow> R y z \<Longrightarrow> R x z"
  shows "R s (snd (eforeach f xs s))"
  using assms(1)
proof (induction xs arbitrary: s)
  case Nil
  then show ?case using assms(2) by simp
next
  case (Cons x xs)
  have IH: "R s' (snd (eforeach f xs s'))" for s'
    by (rule Cons.IH) (rule Cons.prems, simp)
  show ?case
    by (simp only: eforeach.simps, rule ebind_rel) (simp_all add: Cons.prems IH assms(3))
qed

lemma fold_map_upd_add:
  "fold (\<lambda>(k, v) m. m(f k \<mapsto> v)) xs m = m ++ fold (\<lambda>(k, v) m. m(f k \<mapsto> v)) xs Map.empty"
proof (induction xs arbitrary: m)
  case Nil
  then show ?case by simp
next
  case (Cons x xs)
  obtain k v where x: "x = (k, v)" by (cases x)
  let ?F = "\<lambda>(k, v) m. m(f k \<mapsto> v)"
  let ?E = "Map.empty(f k \<mapsto> v)"
  have "fold ?F (x # xs) m = fold ?F xs (m(f k \<mapsto> v))" by (simp only: x fold_simps prod.case)
  also have "\<dots> = m(f k \<mapsto> v) ++ fold ?F xs Map.empty" by (rule Cons.IH)
  also have "\<dots> = m ++ (?E ++ fold ?F xs Map.empty)"
    by (simp only: map_add_assoc map_add_upd map_add_empty)
  also have "\<dots> = m ++ fold ?F xs ?E" by (simp only: Cons.IH [of ?E])
  also have "\<dots> = m ++ fold ?F (x # xs) Map.empty" by (simp only: x fold_simps prod.case)
  finally show ?case .
qed

text \<open>Storing the same keyed values twice is storing them once.\<close>

lemma fold_map_upd_twice:
  "fold (\<lambda>(k, v) m. m(f k \<mapsto> v)) xs (fold (\<lambda>(k, v) m. m(f k \<mapsto> v)) xs m) =
     fold (\<lambda>(k, v) m. m(f k \<mapsto> v)) xs m"
proof -
  let ?g = "fold (\<lambda>(k, v) m. m(f k \<mapsto> v)) xs Map.empty"
  have gg: "?g ++ ?g = ?g" by (auto simp: map_add_def fun_eq_iff split: option.splits)
  show ?thesis by (subst (1 2 3) fold_map_upd_add) (simp only: map_add_assoc [symmetric] gg)
qed

end
