(* ===== verification/PyData.thy ===== *)
theory PyData
  imports Prelude
begin

text \<open>
  The Python values the script handles. \<open>json.loads\<close> turns the output of
  \<open>bw list items\<close> into \<open>None\<close>, booleans, integers, strings, lists and dicts;
  \<open>json\<close> is that value, a dict being the association list of its keys in insertion
  order (keys distinct, as \<open>json.loads\<close> builds it). JSON numbers with a fraction are
  not modelled (the Bitwarden export carries integers only). The theory gives the
  exceptions the script can raise, the Python operations it applies to these values
  (\<open>v[k]\<close>, \<open>d.get(k, default)\<close>, \<open>len\<close>, iteration, \<open>str\<close> and \<open>repr\<close> as
  \<open>str.format\<close> uses them) and the insertion-ordered \<open>dict\<close> of the formatter
  with its refinement to a map.
\<close>

datatype json =
    JNull
  | JBool bool
  | JInt int
  | JStr string
  | JList "json list"
  | JObj "(string \<times> json) list"

datatype py_error =
    KeyError json
  | IndexError
  | TypeError string
  | AttributeError string
  | Exception string
  | FileNotFoundError string
  | IsADirectoryError string
  | NotADirectoryError string

type_synonym 'a py = "py_error + 'a"

fun py_type_name :: "json \<Rightarrow> string" where
  "py_type_name JNull = ''NoneType''"
| "py_type_name (JBool _) = ''bool''"
| "py_type_name (JInt _) = ''int''"
| "py_type_name (JStr _) = ''str''"
| "py_type_name (JList _) = ''list''"
| "py_type_name (JObj _) = ''dict''"

section \<open>Subscription, get, len and iteration\<close>

text \<open>An integer index as Python reads it: \<open>bool\<close> is a subclass of \<open>int\<close>.\<close>

fun py_index_of :: "json \<Rightarrow> int option" where
  "py_index_of (JInt i) = Some i"
| "py_index_of (JBool b) = Some (if b then 1 else 0)"
| "py_index_of _ = None"

definition py_seq_index :: "'a list \<Rightarrow> int \<Rightarrow> 'a py" where
  "py_seq_index xs i =
     (let pos = (if 0 \<le> i then i else i + int (length xs))
      in if pos < 0 \<or> int (length xs) \<le> pos then Inl IndexError else Inr (xs ! nat pos))"

text \<open>\<open>obj[key]\<close>: a dict looks the key up (a JSON dict has string keys only, so
  any other hashable key is missing; a list or dict key is unhashable); a list or a
  string is indexed by an integer; \<open>None\<close>, booleans and integers are not
  subscriptable.\<close>

fun py_getitem :: "json \<Rightarrow> json \<Rightarrow> json py" where
  "py_getitem (JObj kvs) key =
     (case key of
        JStr k \<Rightarrow> (case map_of kvs k of Some v \<Rightarrow> Inr v | None \<Rightarrow> Inl (KeyError key))
      | JList _ \<Rightarrow> Inl (TypeError ''list'')
      | JObj _ \<Rightarrow> Inl (TypeError ''dict'')
      | _ \<Rightarrow> Inl (KeyError key))"
| "py_getitem (JList xs) key =
     (case py_index_of key of
        Some i \<Rightarrow> py_seq_index xs i
      | None \<Rightarrow> Inl (TypeError (py_type_name key)))"
| "py_getitem (JStr s) key =
     (case py_index_of key of
        Some i \<Rightarrow> sbind (py_seq_index s i) (\<lambda>c. Inr (JStr [c]))
      | None \<Rightarrow> Inl (TypeError (py_type_name key)))"
| "py_getitem v key = Inl (TypeError (py_type_name v))"

abbreviation getkey :: "json \<Rightarrow> string \<Rightarrow> json py" where
  "getkey v k \<equiv> py_getitem v (JStr k)"

text \<open>\<open>d.get(k, default)\<close>: only dicts have the method.\<close>

fun py_get :: "json \<Rightarrow> string \<Rightarrow> json \<Rightarrow> json py" where
  "py_get (JObj kvs) k dflt = Inr (case map_of kvs k of Some v \<Rightarrow> v | None \<Rightarrow> dflt)"
| "py_get v k dflt = Inl (AttributeError (py_type_name v))"

fun py_len :: "json \<Rightarrow> nat py" where
  "py_len (JStr s) = Inr (length s)"
| "py_len (JList xs) = Inr (length xs)"
| "py_len (JObj kvs) = Inr (length kvs)"
| "py_len v = Inl (TypeError (py_type_name v))"

text \<open>\<open>for x in v\<close>: the characters of a string, the elements of a list, the keys of
  a dict.\<close>

fun py_iter :: "json \<Rightarrow> json list py" where
  "py_iter (JStr s) = Inr (map (\<lambda>c. JStr [c]) s)"
| "py_iter (JList xs) = Inr xs"
| "py_iter (JObj kvs) = Inr (map (\<lambda>kv. JStr (fst kv)) kvs)"
| "py_iter v = Inl (TypeError (py_type_name v))"

text \<open>A list comprehension whose element expression may raise.\<close>

fun py_map :: "('a \<Rightarrow> 'b py) \<Rightarrow> 'a list \<Rightarrow> 'b list py" where
  "py_map f [] = Inr []"
| "py_map f (x # xs) = sbind (f x) (\<lambda>y. sbind (py_map f xs) (\<lambda>ys. Inr (y # ys)))"

section \<open>str and repr\<close>

definition hex_digit :: "nat \<Rightarrow> char" where
  "hex_digit d = (if d < 10 then char_of (48 + d) else char_of (87 + d))"

text \<open>How \<open>repr\<close> writes one character of a string quoted by \<open>q\<close>: the quote and
  the backslash escaped, tab, newline and carriage return by name, the other
  non-printable code points of the block (C0, DEL, C1, no-break space, soft hyphen)
  as \<open>\x\<close> and two lower-case hex digits.\<close>

definition repr_char :: "char \<Rightarrow> char \<Rightarrow> string" where
  "repr_char q c =
     (let n = (of_char c :: nat) in
      if c = q \<or> c = CHR 0x5C then [CHR 0x5C, c]
      else if n = 9 then [CHR 0x5C, CHR ''t'']
      else if n = 10 then [CHR 0x5C, CHR ''n'']
      else if n = 13 then [CHR 0x5C, CHR ''r'']
      else if n < 32 \<or> n = 127 \<or> (128 \<le> n \<and> n \<le> 160) \<or> n = 173
        then [CHR 0x5C, CHR ''x'', hex_digit (n div 16), hex_digit (n mod 16)]
      else [c])"

text \<open>\<open>repr(s)\<close>: single quotes, unless the string holds a single quote and no
  double quote.\<close>

definition repr_str :: "string \<Rightarrow> string" where
  "repr_str s =
     (let q = (if CHR 0x27 \<in> set s \<and> CHR 0x22 \<notin> set s then CHR 0x22 else CHR 0x27)
      in q # concat (map (repr_char q) s) @ [q])"

fun py_repr :: "json \<Rightarrow> string" where
  "py_repr JNull = ''None''"
| "py_repr (JBool b) = (if b then ''True'' else ''False'')"
| "py_repr (JInt i) = int_str i"
| "py_repr (JStr s) = repr_str s"
| "py_repr (JList xs) = ''['' @ py_join '', '' (map py_repr xs) @ '']''"
| "py_repr (JObj kvs) =
     ''{'' @ py_join '', '' (map (\<lambda>kv. repr_str (fst kv) @ '': '' @ py_repr (snd kv)) kvs) @ ''}''"

text \<open>\<open>'{}'.format(v)\<close>, that is \<open>str(v)\<close>: a string is itself, anything else its repr.\<close>

fun py_str :: "json \<Rightarrow> string" where
  "py_str (JStr s) = s"
| "py_str v = py_repr v"

section \<open>The insertion-ordered dict\<close>

text \<open>The formatter's \<open>d = {}\<close>: an association list in insertion order.
  \<open>d[k] = v\<close> replaces the value of a present key in place and appends a new one;
  \<open>d.update(e)\<close> sets the pairs of \<open>e\<close> in \<open>e\<close>'s order.\<close>

type_synonym pydict = "(string \<times> json) list"

definition pydict_set :: "pydict \<Rightarrow> string \<Rightarrow> json \<Rightarrow> pydict" where
  "pydict_set d k v =
     (if k \<in> set (map fst d) then map (\<lambda>kv. if fst kv = k then (k, v) else kv) d
      else d @ [(k, v)])"

definition pydict_update :: "pydict \<Rightarrow> pydict \<Rightarrow> pydict" where
  "pydict_update d e = fold (\<lambda>kv acc. pydict_set acc (fst kv) (snd kv)) e d"

section \<open>Lemmas\<close>

lemma py_getitem_obj_str [simp, py_simps]:
  "py_getitem (JObj kvs) (JStr k) =
     (case map_of kvs k of Some v \<Rightarrow> Inr v | None \<Rightarrow> Inl (KeyError (JStr k)))"
  by simp

lemma pydict_set_fresh [simp]: "k \<notin> set (map fst d) \<Longrightarrow> pydict_set d k v = d @ [(k, v)]"
  by (simp add: pydict_set_def)

lemma pydict_set_map_fst:
  "map fst (map (\<lambda>kv. if fst kv = k then (k, v) else kv) d) = map fst d"
  by (induction d) auto

lemma pydict_set_keys: "set (map fst (pydict_set d k v)) = insert k (set (map fst d))"
proof (cases "k \<in> set (map fst d)")
  case True
  then show ?thesis by (simp only: pydict_set_def if_True pydict_set_map_fst) blast
next
  case False
  then show ?thesis by simp
qed

lemma pydict_set_distinct:
  "distinct (map fst d) \<Longrightarrow> distinct (map fst (pydict_set d k v))"
  by (simp add: pydict_set_def pydict_set_map_fst del: map_map)

lemma map_of_pydict_set: "map_of (pydict_set d k v) = (map_of d)(k \<mapsto> v)"
proof (cases "k \<in> set (map fst d)")
  case True
  have "map_of (map (\<lambda>kv. if fst kv = k then (k, v) else kv) d) =
        (if k \<in> set (map fst d) then (map_of d)(k \<mapsto> v) else map_of d)"
    by (induction d) (auto simp: fun_eq_iff)
  with True show ?thesis by (simp add: pydict_set_def)
next
  case False
  then have "map_of d k = None" by (simp add: map_of_eq_None_iff)
  with False show ?thesis
    by (auto simp: map_of_append fun_eq_iff map_add_def split: option.splits)
qed

lemma pydict_update_fresh:
  "distinct (map fst (d @ e)) \<Longrightarrow> pydict_update d e = d @ e"
proof (induction e arbitrary: d rule: rev_induct)
  case Nil
  then show ?case by (simp add: pydict_update_def)
next
  case (snoc kv e)
  then have "pydict_update d e = d @ e" by simp
  moreover from snoc.prems have "fst kv \<notin> set (map fst (d @ e))" by simp
  ultimately show ?case by (simp add: pydict_update_def)
qed

lemma py_map_Inr_keys:
  assumes "\<And>x r. f x = Inr r \<Longrightarrow> fst r = key x" and "py_map f xs = Inr e"
  shows "map fst e = map key xs"
  using assms(2)
proof (induction xs arbitrary: e)
  case Nil
  then show ?case by simp
next
  case (Cons x xs)
  then show ?case by (fastforce simp: sbind_Inr_iff dest: assms(1))
qed

lemma py_map_Inr_all:
  "py_map f xs = Inr ys \<Longrightarrow> (\<And>x r. f x = Inr r \<Longrightarrow> Q r) \<Longrightarrow> \<forall>y \<in> set ys. Q y"
  by (induction xs arbitrary: ys) (auto simp: sbind_Inr_iff)

lemma py_map_ConsE:
  assumes "py_map f (x # xs) = Inr ys"
  obtains y ys' where "ys = y # ys'" "f x = Inr y" "py_map f xs = Inr ys'"
  using assms by (auto simp: sbind_Inr_iff)

lemma py_map_mem:
  "py_map f xs = Inr ys \<Longrightarrow> x \<in> set xs \<Longrightarrow> f x = Inr y \<Longrightarrow> y \<in> set ys"
  by (induction xs arbitrary: ys) (auto simp: sbind_Inr_iff)

end
