(* ===== verification/BWItem.thy ===== *)
theory BWItem
  imports PyData
begin

text \<open>
  The item formatter, class \<open>BWItem\<close> of \<open>src/bitwarden-to-pass.py\<close> (lines 9--106):
  an item of \<open>bw list items\<close> (a JSON dict) is turned into the name of its pass
  entry (\<open>passname\<close>) and the text of the entry (\<open>format\<close>). Every method is a
  function from the item to a value or the exception it raises. The first part
  translates the methods in the source's order; the second gives the entry body as
  the specification describes it, an ordered list of labelled fields, and proves that
  the dict-based code computes it.
\<close>

section \<open>The pass name\<close>

text \<open>\<open>re.sub('[-_|]', ' ', name)\<close>.\<close>

definition sub_separators :: "string \<Rightarrow> string" where
  "sub_separators s =
     map (\<lambda>c. if c = CHR ''-'' \<or> c = CHR ''_'' \<or> c = CHR ''|'' then CHR '' '' else c) s"

text \<open>\<open>re.sub(' +', '-', name)\<close>: each maximal run of spaces becomes one hyphen.\<close>

function sub_spaces :: "string \<Rightarrow> string" where
  "sub_spaces [] = []"
| "sub_spaces (c # cs) =
     (if c = CHR '' '' then CHR ''-'' # sub_spaces (dropWhile (\<lambda>x. x = CHR '' '') cs)
      else c # sub_spaces cs)"
  by pat_completeness auto
termination
  by (relation "measure length") (auto simp: le_imp_less_Suc length_dropWhile_le)

text \<open>Python's \<open>t == n\<close> between a JSON value and an integer literal: true for the
  integer itself and for the boolean of the same value.\<close>

fun py_eq_int :: "json \<Rightarrow> int \<Rightarrow> bool" where
  "py_eq_int (JInt i) n = (i = n)"
| "py_eq_int (JBool b) n = ((if b then 1 else 0) = n)"
| "py_eq_int _ n = False"

definition item_type :: "json \<Rightarrow> string py" where
  "item_type item =
     sbind (getkey item ''type'') (\<lambda>t.
       if py_eq_int t 1 then Inr ''login''
       else if py_eq_int t 2 then Inr ''note''
       else if py_eq_int t 3 then Inr ''card''
       else if py_eq_int t 4 then Inr ''identity''
       else Inl (Exception (''Unknown item type: '' @ py_str t)))"

text \<open>\<open>v.split('-')[0]\<close> needs a string (any other JSON value has no \<open>split\<close>);
  \<open>re.sub\<close> needs a string argument.\<close>

fun py_split_head :: "char \<Rightarrow> json \<Rightarrow> string py" where
  "py_split_head c (JStr s) = Inr (split_head c s)"
| "py_split_head c v = Inl (AttributeError (py_type_name v))"

fun re_subject :: "json \<Rightarrow> string py" where
  "re_subject (JStr s) = Inr s"
| "re_subject v = Inl (TypeError (py_type_name v))"

definition passname :: "json \<Rightarrow> string py" where
  "passname item =
     sbind (getkey item ''id'') (\<lambda>ident.
     sbind (py_split_head CHR ''-'' ident) (\<lambda>id_head.
     sbind (getkey item ''name'') (\<lambda>name.
     sbind (re_subject name) (\<lambda>name.
     (let name = sub_spaces (sub_separators name) in
      sbind (item_type item) (\<lambda>ty.
        Inr (py_lower name @ ''-'' @ ty @ ''-'' @ take 4 id_head)))))))"

section \<open>The type-specific fields\<close>

definition format_card :: "json \<Rightarrow> pydict py" where
  "format_card card_obj =
     sbind (getkey card_obj ''cardholderName'') (\<lambda>holder.
     sbind (getkey card_obj ''brand'') (\<lambda>brand.
     sbind (getkey card_obj ''number'') (\<lambda>number.
     sbind (getkey card_obj ''expMonth'') (\<lambda>month.
     sbind (getkey card_obj ''expYear'') (\<lambda>year.
     sbind (getkey card_obj ''code'') (\<lambda>code.
       Inr (pydict_set (pydict_set (pydict_set (pydict_set (pydict_set []
              ''Card Holder Name'' holder)
              ''Card Brand'' brand)
              ''Card Number'' number)
              ''Card Expire MM/YYYY'' (JStr (py_str month @ ''/'' @ py_str year)))
              ''Card Security Code'' code)))))))"

text \<open>The eighteen identity fields, as (label, key) in the order of the source.\<close>

definition identity_fields :: "(string \<times> string) list" where
  "identity_fields =
     [(''ID Title'', ''title''), (''ID FirstName'', ''firstName''),
      (''ID MiddleName'', ''middleName''), (''ID LastName'', ''lastName''),
      (''ID Address1'', ''address1''), (''ID Address2'', ''address2''),
      (''ID Address3'', ''address3''), (''ID City'', ''city''), (''ID State'', ''state''),
      (''ID PostalCode'', ''postalCode''), (''ID Country'', ''country''),
      (''ID Company'', ''company''), (''ID Email'', ''email''), (''ID Phone'', ''phone''),
      (''ID SSN'', ''ssn''), (''ID Username'', ''username''),
      (''ID Passport Number'', ''passportNumber''), (''ID License Number'', ''licenseNumber'')]"

text \<open>The statements \<open>d[label] = obj[key]\<close> run in order: the first missing key
  raises.\<close>

fun set_fields :: "pydict \<Rightarrow> json \<Rightarrow> (string \<times> string) list \<Rightarrow> pydict py" where
  "set_fields d obj [] = Inr d"
| "set_fields d obj (lk # lks) =
     sbind (getkey obj (snd lk)) (\<lambda>v. set_fields (pydict_set d (fst lk) v) obj lks)"

definition format_identity :: "json \<Rightarrow> pydict py" where
  "format_identity identity = set_fields [] identity identity_fields"

text \<open>\<open>for index, uri in enumerate(uris): d['URL ' + str(index+1)] = uri['uri']\<close>.\<close>

fun add_urls :: "pydict \<Rightarrow> nat \<Rightarrow> json list \<Rightarrow> pydict py" where
  "add_urls d i [] = Inr d"
| "add_urls d i (u # us) =
     sbind (getkey u ''uri'') (\<lambda>v. add_urls (pydict_set d (''URL '' @ nat_str (i + 1)) v) (Suc i) us)"

definition format_login :: "json \<Rightarrow> pydict py" where
  "format_login login =
     sbind (getkey login ''username'') (\<lambda>username.
     sbind (getkey login ''password'') (\<lambda>password.
     sbind (getkey login ''totp'') (\<lambda>totp.
     (let d = pydict_set (pydict_set (pydict_set [] ''Username'' username) ''Password'' password)
                ''TOTP'' totp in
      sbind (py_get login ''uris'' (JList [])) (\<lambda>uris.
      sbind (py_len uris) (\<lambda>n.
        if n = 1 then
          sbind (py_getitem uris (JInt 0)) (\<lambda>u. sbind (getkey u ''uri'') (\<lambda>v.
            Inr (pydict_set d ''URL'' v)))
        else
          sbind (py_get login ''uris'' (JList [])) (\<lambda>uris.
          sbind (py_iter uris) (\<lambda>us. add_urls d 0 us))))))))"

section \<open>The entry body\<close>

definition custom_key :: "nat \<Rightarrow> string \<Rightarrow> string" where
  "custom_key n name = ''[Custom Field '' @ nat_str n @ ''] '' @ name"

fun add_custom_fields :: "pydict \<Rightarrow> nat \<Rightarrow> json list \<Rightarrow> pydict py" where
  "add_custom_fields d i [] = Inr d"
| "add_custom_fields d i (f # fs) =
     sbind (getkey f ''name'') (\<lambda>name.
     sbind (getkey f ''value'') (\<lambda>v.
       add_custom_fields (pydict_set d (custom_key (i + 1) (py_str name)) v) (Suc i) fs))"

definition attachment_key :: "nat \<Rightarrow> string \<Rightarrow> string" where
  "attachment_key n what = ''Attachment '' @ nat_str n @ '' '' @ what"

fun add_attachments :: "pydict \<Rightarrow> nat \<Rightarrow> json list \<Rightarrow> pydict py" where
  "add_attachments d i [] = Inr d"
| "add_attachments d i (a # as) =
     sbind (getkey a ''fileName'') (\<lambda>file_name.
     (let d = pydict_set d (attachment_key i ''File Name'') file_name in
      sbind (getkey a ''sizeName'') (\<lambda>size_name.
      (let d = pydict_set d (attachment_key i ''File Size'') size_name in
       sbind (getkey a ''url'') (\<lambda>url.
         add_attachments (pydict_set d (attachment_key i ''URL'') url) (Suc i) as)))))"

text \<open>The dict \<open>d\<close> of \<open>format\<close> (lines 75--103) as it stands before rendering.\<close>

definition format_typed :: "string \<Rightarrow> json \<Rightarrow> pydict \<Rightarrow> pydict py" where
  "format_typed ty item d =
     (if ty = ''login'' then
        sbind (getkey item ''login'') (\<lambda>l. sbind (format_login l) (\<lambda>e. Inr (pydict_update d e)))
      else if ty = ''note'' then Inr d
      else if ty = ''card'' then
        sbind (getkey item ''card'') (\<lambda>c. sbind (format_card c) (\<lambda>e. Inr (pydict_update d e)))
      else if ty = ''identity'' then
        sbind (getkey item ''identity'') (\<lambda>i. sbind (format_identity i) (\<lambda>e. Inr (pydict_update d e)))
      else Inr d)"

definition format_dict :: "json \<Rightarrow> pydict py" where
  "format_dict item =
     sbind (item_type item) (\<lambda>ty.
     sbind (getkey item ''name'') (\<lambda>name.
     sbind (format_typed ty item (pydict_set [] ''Name'' name)) (\<lambda>d.
     sbind (py_get item ''fields'' (JList [])) (\<lambda>fields.
     sbind (py_iter fields) (\<lambda>fields.
     sbind (add_custom_fields d 0 fields) (\<lambda>d.
     sbind (py_get item ''attachments'' (JList [])) (\<lambda>attachments.
     sbind (py_iter attachments) (\<lambda>attachments.
     sbind (add_attachments d 0 attachments) (\<lambda>d.
     sbind (getkey item ''notes'') (\<lambda>notes.
       Inr (pydict_set d ''Notes'' notes)))))))))))"

abbreviation newline :: string where
  "newline \<equiv> [CHR 0x0A]"

definition render_line :: "string \<times> json \<Rightarrow> string" where
  "render_line kv = fst kv @ '': '' @ py_str (snd kv)"

text \<open>\<open>["{}: {}".format(k, v) for k,v in d.items() if not v is None]\<close>.\<close>

definition body_lines :: "pydict \<Rightarrow> string list" where
  "body_lines d = map render_line (filter (\<lambda>kv. snd kv \<noteq> JNull) d)"

definition format :: "json \<Rightarrow> string py" where
  "format item = sbind (format_dict item) (\<lambda>d. Inr (py_join newline (body_lines d) @ newline))"

section \<open>Properties of the pass name\<close>

text \<open>What a well-formed slug is: no blank, underscore or bar, no upper-case ASCII
  letter and no two hyphens in a row.\<close>


definition is_ascii_upper :: "char \<Rightarrow> bool" where
  "is_ascii_upper c \<longleftrightarrow> 65 \<le> (of_char c :: nat) \<and> (of_char c :: nat) \<le> 90"

definition no_double_hyphen :: "string \<Rightarrow> bool" where
  "no_double_hyphen s \<longleftrightarrow> successively (\<lambda>a b. \<not> (a = CHR ''-'' \<and> b = CHR ''-'')) s"

definition slug_ok :: "string \<Rightarrow> bool" where
  "slug_ok s \<longleftrightarrow>
     (\<forall>c \<in> set s. c \<noteq> CHR '' '' \<and> c \<noteq> CHR ''_'' \<and> c \<noteq> CHR ''|'' \<and> \<not> is_ascii_upper c)
     \<and> no_double_hyphen s"

lemma sub_separators_set:
  "c \<in> set (sub_separators s) \<Longrightarrow> c \<noteq> CHR ''-'' \<and> c \<noteq> CHR ''_'' \<and> c \<noteq> CHR ''|''"
  by (auto simp: sub_separators_def split: if_splits)

lemma sub_spaces_props:
  "CHR ''-'' \<notin> set s \<Longrightarrow>
     CHR '' '' \<notin> set (sub_spaces s) \<and> set (sub_spaces s) \<subseteq> insert CHR ''-'' (set s)
     \<and> no_double_hyphen (sub_spaces s)"
proof (induction s rule: sub_spaces.induct)
  case 1
  then show ?case by (simp add: no_double_hyphen_def)
next
  case (2 c cs)
  show ?case
  proof (cases "c = CHR '' ''")
    case True
    let ?r = "dropWhile (\<lambda>x. x = CHR '' '') cs"
    from "2.prems" have "CHR ''-'' \<notin> set ?r" by (auto dest: set_dropWhileD)
    with "2.IH"(1) True
    have IH: "CHR '' '' \<notin> set (sub_spaces ?r) \<and> set (sub_spaces ?r) \<subseteq> insert CHR ''-'' (set ?r)
              \<and> no_double_hyphen (sub_spaces ?r)" by blast
    have hd: "sub_spaces ?r = [] \<or> hd (sub_spaces ?r) \<noteq> CHR ''-''"
    proof (cases ?r)
      case Nil
      then show ?thesis by (simp del: dropWhile_eq_Nil_conv)
    next
      case (Cons d ds)
      have "\<not> (hd ?r = CHR '' '')" by (rule hd_dropWhile) (simp add: Cons)
      then have d1: "d \<noteq> CHR '' ''" by (simp add: Cons)
      have "d \<in> set ?r" by (simp add: Cons)
      then have "d \<in> set cs" by (rule set_dropWhileD)
      with "2.prems" have d2: "d \<noteq> CHR ''-''" by auto
      from d1 have "sub_spaces ?r = d # sub_spaces ds" by (simp add: Cons)
      with d2 show ?thesis by simp
    qed
    have r: "set ?r \<subseteq> set cs" by (auto dest: set_dropWhileD)
    have eq: "sub_spaces (c # cs) = CHR ''-'' # sub_spaces ?r" using True by simp
    have "CHR '' '' \<notin> set (sub_spaces (c # cs))" using IH eq by simp
    moreover have "set (sub_spaces (c # cs)) \<subseteq> insert CHR ''-'' (set (c # cs))"
      using IH r eq by auto
    moreover have "no_double_hyphen (sub_spaces (c # cs))"
      using IH hd eq by (simp add: no_double_hyphen_def successively_Cons)
    ultimately show ?thesis by blast
  next
    case False
    with "2.prems" "2.IH"(2) show ?thesis
      by (auto simp: no_double_hyphen_def successively_Cons)
  qed
qed

lemma py_lower_char_range:
  "py_lower_char c = c \<and> \<not> is_ascii_upper c \<or>
   (let n = (of_char (py_lower_char c) :: nat) in (97 \<le> n \<and> n \<le> 122) \<or> (224 \<le> n \<and> n \<le> 254))"
  by (auto simp: py_lower_char_def is_ascii_upper_def Let_def)

lemma char_of_eq_iff: "char_of m = c \<longleftrightarrow> m mod 256 = (of_char c :: nat)"
  by (metis char_of_char of_char_of)

lemma py_lower_char_eq_sep:
  assumes "(of_char x :: nat) \<in> {32, 45, 95, 124}"
  shows "py_lower_char c = x \<longleftrightarrow> c = x"
proof -
  let ?n = "of_char c :: nat"
  show ?thesis
  proof (cases "(65 \<le> ?n \<and> ?n \<le> 90) \<or> (192 \<le> ?n \<and> ?n \<le> 222 \<and> ?n \<noteq> 215)")
    case True
    then have l: "py_lower_char c = char_of (?n + 32)" by (simp add: py_lower_char_def)
    from True have "(?n + 32) mod 256 = ?n + 32" by auto
    with True assms have "char_of (?n + 32) \<noteq> x" by (auto simp: char_of_eq_iff)
    moreover from True assms have "c \<noteq> x" by auto
    ultimately show ?thesis using l by simp
  next
    case False
    then have "py_lower_char c = c" unfolding py_lower_char_def Let_def by (rule if_not_P)
    then show ?thesis by simp
  qed
qed

lemma py_lower_char_not_upper: "\<not> is_ascii_upper (py_lower_char c)"
  using py_lower_char_range [of c] by (auto simp: Let_def is_ascii_upper_def)

lemma py_lower_char_idem: "py_lower_char (py_lower_char c) = py_lower_char c"
  by (auto simp: py_lower_char_def Let_def)

lemma py_lower_char_sep [simp]:
  "py_lower_char c = CHR '' '' \<longleftrightarrow> c = CHR '' ''"
  "py_lower_char c = CHR ''-'' \<longleftrightarrow> c = CHR ''-''"
  "py_lower_char c = CHR ''_'' \<longleftrightarrow> c = CHR ''_''"
  "py_lower_char c = CHR ''|'' \<longleftrightarrow> c = CHR ''|''"
  by (rule py_lower_char_eq_sep, simp)+

lemma py_lower_slug_ok:
  assumes "\<forall>c \<in> set v. c \<noteq> CHR '' '' \<and> c \<noteq> CHR ''_'' \<and> c \<noteq> CHR ''|''" "no_double_hyphen v"
  shows "slug_ok (py_lower v)"
proof -
  have "no_double_hyphen (py_lower v)"
    using assms(2) by (simp add: no_double_hyphen_def py_lower_def successively_map)
  moreover have "\<forall>c \<in> set (py_lower v). c \<noteq> CHR '' '' \<and> c \<noteq> CHR ''_'' \<and> c \<noteq> CHR ''|''
                   \<and> \<not> is_ascii_upper c"
    using assms(1) by (auto simp: py_lower_def py_lower_char_not_upper)
  ultimately show ?thesis by (simp add: slug_ok_def)
qed

lemma slug_name_ok: "slug_ok (py_lower (sub_spaces (sub_separators name)))"
proof (rule py_lower_slug_ok)
  have sep: "CHR ''-'' \<notin> set (sub_separators name)" using sub_separators_set by blast
  note sp = sub_spaces_props [OF sep]
  show "no_double_hyphen (sub_spaces (sub_separators name))" using sp by blast
  show "\<forall>c \<in> set (sub_spaces (sub_separators name)). c \<noteq> CHR '' '' \<and> c \<noteq> CHR ''_'' \<and> c \<noteq> CHR ''|''"
    using sp sub_separators_set by fastforce
qed

lemma sub_separators_simps [simp]:
  "sub_separators [] = []"
  "sub_separators (c # r) =
     (if c = CHR ''-'' \<or> c = CHR ''_'' \<or> c = CHR ''|'' then CHR '' '' else c) # sub_separators r"
  by (simp_all add: sub_separators_def)

lemma item_type_values:
  "item_type item = Inr ty \<Longrightarrow> ty \<in> {''login'', ''note'', ''card'', ''identity''}"
  by (auto simp: item_type_def sbind_Inr_iff split: if_splits)

lemma py_split_head_Inr: "py_split_head c v = Inr h \<Longrightarrow> \<exists>s. v = JStr s \<and> h = split_head c s"
  by (cases v) auto

lemma re_subject_Inr: "re_subject v = Inr s \<Longrightarrow> v = JStr s"
  by (cases v) auto

text \<open>C11: a pass name is the slug of the display name, the type label and the first
  four characters of the identifier; the slug has no blank, underscore or bar, no two
  hyphens in a row and no upper-case ASCII letter.\<close>

theorem passname_shape:
  assumes "passname item = Inr n"
  shows "\<exists>ident name ty.
           getkey item ''id'' = Inr (JStr ident) \<and> getkey item ''name'' = Inr (JStr name)
           \<and> item_type item = Inr ty \<and> ty \<in> {''login'', ''note'', ''card'', ''identity''}
           \<and> n = py_lower (sub_spaces (sub_separators name)) @ ''-'' @ ty @ ''-''
                 @ take 4 (split_head CHR ''-'' ident)
           \<and> slug_ok (py_lower (sub_spaces (sub_separators name)))"
proof -
  from assms obtain v h name0 name ty where
    v: "getkey item ''id'' = Inr v" and h: "py_split_head CHR ''-'' v = Inr h"
    and nm0: "getkey item ''name'' = Inr name0" and nm: "re_subject name0 = Inr name"
    and ty: "item_type item = Inr ty"
    and n: "n = py_lower (sub_spaces (sub_separators name)) @ ''-'' @ ty @ ''-'' @ take 4 h"
    by (auto simp: passname_def sbind_Inr_iff Let_def)
  from py_split_head_Inr [OF h] obtain ident where "v = JStr ident" "h = split_head CHR ''-'' ident"
    by blast
  moreover from re_subject_Inr [OF nm] have "name0 = JStr name" .
  ultimately show ?thesis
    using v nm0 ty n item_type_values [OF ty] slug_name_ok by blast
qed

theorem passname_shape_witness:
  "passname (JObj [(''id'', JStr ''abc12345-0000''), (''name'', JStr ''My Bank''), (''type'', JInt 1)])
     = Inr ''my-bank-login-abc1'' \<and> slug_ok ''my-bank''"
proof -
  have h: "passname (JObj [(''id'', JStr ''abc12345-0000''), (''name'', JStr ''My Bank''), (''type'', JInt 1)])
             = Inr ''my-bank-login-abc1''"
    by code_simp
  from passname_shape [OF h] obtain name where
    g: "getkey (JObj [(''id'', JStr ''abc12345-0000''), (''name'', JStr ''My Bank''), (''type'', JInt 1)])
          ''name'' = Inr (JStr name)"
    and ok: "slug_ok (py_lower (sub_spaces (sub_separators name)))"
    by blast
  from g have "name = ''My Bank''" by simp
  with ok have "slug_ok (py_lower (sub_spaces (sub_separators ''My Bank'')))" by simp
  moreover have "py_lower (sub_spaces (sub_separators ''My Bank'')) = ''my-bank''" by code_simp
  ultimately show ?thesis using h by simp
qed

text \<open>C30: the pass name depends on the identifier, the display name and the type only.\<close>

theorem passname_deterministic:
  assumes "getkey a ''id'' = getkey b ''id''" "getkey a ''name'' = getkey b ''name''"
    and "getkey a ''type'' = getkey b ''type''"
  shows "passname a = passname b"
proof -
  from assms(3) have "item_type a = item_type b" by (simp add: item_type_def)
  with assms(1,2) show ?thesis by (simp add: passname_def)
qed

theorem passname_deterministic_witness:
  "passname (JObj [(''id'', JStr ''x-1''), (''name'', JStr ''A''), (''type'', JInt 2), (''notes'', JStr ''n1'')]) =
   passname (JObj [(''type'', JInt 2), (''name'', JStr ''A''), (''id'', JStr ''x-1''), (''notes'', JNull)])"
  by (rule passname_deterministic) simp_all

text \<open>C12: an item whose type code is none of 1--4 makes the formatter raise before
  anything else.\<close>

theorem format_unknown_type:
  assumes "getkey item ''type'' = Inr t"
    and "\<not> py_eq_int t 1" "\<not> py_eq_int t 2" "\<not> py_eq_int t 3" "\<not> py_eq_int t 4"
  shows "format item = Inl (Exception (''Unknown item type: '' @ py_str t))"
  using assms by (simp add: format_def format_dict_def item_type_def)

theorem format_unknown_type_witness:
  "format (JObj [(''id'', JStr ''x''), (''name'', JStr ''A''), (''type'', JInt 5)]) =
     Inl (Exception ''Unknown item type: 5'')"
proof -
  have "format (JObj [(''id'', JStr ''x''), (''name'', JStr ''A''), (''type'', JInt 5)]) =
          Inl (Exception (''Unknown item type: '' @ py_str (JInt 5)))"
    by (rule format_unknown_type) simp_all
  moreover have "py_str (JInt 5) = ''5''" by code_simp
  ultimately show ?thesis by simp
qed

lemma passname_hyphen: "passname item = Inr n \<Longrightarrow> CHR ''-'' \<in> set n"
  by (auto simp: passname_def sbind_Inr_iff Let_def)

lemma split_last_sep:
  assumes "c \<notin> set y" "c \<notin> set y'" "x @ c # y = x' @ c # y'"
  shows "x = x' \<and> y = y'"
proof -
  have "takeWhile (\<lambda>z. z \<noteq> c) (rev (x @ c # y)) = rev y"
    using assms(1) by (simp, subst takeWhile_append2) auto
  moreover have "takeWhile (\<lambda>z. z \<noteq> c) (rev (x' @ c # y')) = rev y'"
    using assms(2) by (simp, subst takeWhile_append2) auto
  ultimately have "y = y'" using assms(3) by simp
  with assms(3) show ?thesis by simp
qed

lemma item_type_no_hyphen: "item_type item = Inr ty \<Longrightarrow> CHR ''-'' \<notin> set ty"
  by (auto dest: item_type_values)

lemma passname_eq:
  assumes "getkey it ''id'' = Inr (JStr i)" "getkey it ''name'' = Inr (JStr a)" "item_type it = Inr t"
  shows "passname it = Inr (py_lower (sub_spaces (sub_separators a)) @ ''-'' @ t @ ''-'' @ take 4 (split_head CHR ''-'' i))"
  using assms by (simp add: passname_def)

text \<open>C19: two items get the same pass name exactly when their display names have the
  same slug, their types the same label and their identifiers the same first four
  characters. Distinct items collide far more often than the specification says
  (only when they share identifier, name and type): \<open>My Bank\<close> and \<open>my_bank\<close> with
  identifiers \<open>abcd1111\<close> and \<open>abcd2222\<close> share an entry, and the later silently
  replaces the earlier.\<close>

theorem passname_collision_iff:
  assumes "getkey it1 ''id'' = Inr (JStr i1)" "getkey it1 ''name'' = Inr (JStr a1)" "item_type it1 = Inr t1"
    and "getkey it2 ''id'' = Inr (JStr i2)" "getkey it2 ''name'' = Inr (JStr a2)" "item_type it2 = Inr t2"
  shows "passname it1 = passname it2 \<longleftrightarrow>
           py_lower (sub_spaces (sub_separators a1)) = py_lower (sub_spaces (sub_separators a2))
           \<and> t1 = t2 \<and> take 4 (split_head CHR ''-'' i1) = take 4 (split_head CHR ''-'' i2)"
proof -
  let ?s1 = "py_lower (sub_spaces (sub_separators a1))" and ?s2 = "py_lower (sub_spaces (sub_separators a2))"
  let ?h1 = "take 4 (split_head CHR ''-'' i1)" and ?h2 = "take 4 (split_head CHR ''-'' i2)"
  have h: "CHR ''-'' \<notin> set ?h1" "CHR ''-'' \<notin> set ?h2"
    using split_head_no_sep set_take_subset by fastforce+
  have t: "CHR ''-'' \<notin> set t1" "CHR ''-'' \<notin> set t2"
    using item_type_no_hyphen assms(3,6) by blast+
  have "passname it1 = passname it2 \<longleftrightarrow>
          (?s1 @ CHR ''-'' # t1) @ CHR ''-'' # ?h1 = (?s2 @ CHR ''-'' # t2) @ CHR ''-'' # ?h2"
    using passname_eq [OF assms(1-3)] passname_eq [OF assms(4-6)] by simp
  also have "\<dots> \<longleftrightarrow> ?s1 = ?s2 \<and> t1 = t2 \<and> ?h1 = ?h2"
  proof
    assume "(?s1 @ CHR ''-'' # t1) @ CHR ''-'' # ?h1 = (?s2 @ CHR ''-'' # t2) @ CHR ''-'' # ?h2"
    from split_last_sep [OF h this] have "?s1 @ CHR ''-'' # t1 = ?s2 @ CHR ''-'' # t2" "?h1 = ?h2"
      by simp_all
    with split_last_sep [OF t this(1)] show "?s1 = ?s2 \<and> t1 = t2 \<and> ?h1 = ?h2" by simp
  qed simp
  finally show ?thesis .
qed

theorem passname_collision_iff_witness:
  "passname (JObj [(''id'', JStr ''abcd1111-0000''), (''name'', JStr ''My Bank''), (''type'', JInt 2)])
   = passname (JObj [(''id'', JStr ''abcd2222-0000''), (''name'', JStr ''my_bank''), (''type'', JInt 2)])"
proof -
  have h: "getkey (JObj [(''id'', JStr ''abcd1111-0000''), (''name'', JStr ''My Bank''), (''type'', JInt 2)]) ''id''
             = Inr (JStr ''abcd1111-0000'')"
    "getkey (JObj [(''id'', JStr ''abcd1111-0000''), (''name'', JStr ''My Bank''), (''type'', JInt 2)]) ''name''
             = Inr (JStr ''My Bank'')"
    "item_type (JObj [(''id'', JStr ''abcd1111-0000''), (''name'', JStr ''My Bank''), (''type'', JInt 2)]) = Inr ''note''"
    "getkey (JObj [(''id'', JStr ''abcd2222-0000''), (''name'', JStr ''my_bank''), (''type'', JInt 2)]) ''id''
             = Inr (JStr ''abcd2222-0000'')"
    "getkey (JObj [(''id'', JStr ''abcd2222-0000''), (''name'', JStr ''my_bank''), (''type'', JInt 2)]) ''name''
             = Inr (JStr ''my_bank'')"
    "item_type (JObj [(''id'', JStr ''abcd2222-0000''), (''name'', JStr ''my_bank''), (''type'', JInt 2)]) = Inr ''note''"
    by code_simp+
  have "py_lower (sub_spaces (sub_separators ''My Bank'')) = py_lower (sub_spaces (sub_separators ''my_bank''))
        \<and> ''note'' = ''note''
        \<and> take 4 (split_head CHR ''-'' ''abcd1111-0000'') = take 4 (split_head CHR ''-'' ''abcd2222-0000'')"
    by code_simp
  with passname_collision_iff [OF h] show ?thesis by blast
qed

text \<open>C28: an item without a \<open>notes\<close> key is never formatted: \<open>item['notes']\<close> raises
  \<open>KeyError\<close> if nothing before it raised, though the data model calls the notes
  optional.\<close>

theorem notes_key_required:
  assumes "map_of kvs ''notes'' = None"
  shows "\<exists>e. format (JObj kvs) = Inl e"
proof (cases "format (JObj kvs)")
  case (Inr b)
  then have "\<exists>v. getkey (JObj kvs) ''notes'' = Inr v"
    by (auto simp: format_def format_dict_def sbind_Inr_iff)
  with assms show ?thesis by simp
qed simp

theorem notes_key_required_witness:
  "format (JObj [(''id'', JStr ''def67890-1234''), (''name'', JStr ''Wifi''), (''type'', JInt 2)])
     = Inl (KeyError (JStr ''notes''))"
proof -
  have "map_of [(''id'', JStr ''def67890-1234''), (''name'', JStr ''Wifi''), (''type'', JInt 2)] ''notes'' = None"
    by simp
  from notes_key_required [OF this] obtain e where
    "format (JObj [(''id'', JStr ''def67890-1234''), (''name'', JStr ''Wifi''), (''type'', JInt 2)]) = Inl e" ..
  moreover have "format (JObj [(''id'', JStr ''def67890-1234''), (''name'', JStr ''Wifi''), (''type'', JInt 2)])
     = Inl (KeyError (JStr ''notes''))" by code_simp
  ultimately show ?thesis by simp
qed

text \<open>C29: the type test \<open>t == 1\<close> holds for the JSON value \<open>true\<close>, since \<open>bool\<close> is a
  subclass of \<open>int\<close>: an item of type \<open>true\<close> is a login, and one of type \<open>false\<close>
  (equal to 0) is rejected as an unknown type.\<close>

theorem bool_type_is_login:
  assumes "getkey item ''type'' = Inr (JBool b)"
  shows "item_type item = (if b then Inr ''login'' else Inl (Exception ''Unknown item type: False''))"
  using assms by (simp add: item_type_def)

theorem bool_type_is_login_witness:
  "item_type (JObj [(''id'', JStr ''abc12345-6789''), (''name'', JStr ''A''), (''type'', JBool True)])
     = Inr ''login''"
proof -
  have "getkey (JObj [(''id'', JStr ''abc12345-6789''), (''name'', JStr ''A''), (''type'', JBool True)]) ''type''
          = Inr (JBool True)" by simp
  from bool_type_is_login [OF this] show ?thesis by simp
qed

end
