(* ===== verification/OSModel.thy ===== *)
theory OSModel
  imports PyData
begin

text \<open>
  The part of the operating system the script reaches through Python's \<open>os\<close>
  module and \<open>print\<close>: a file system of regular files and directories addressed by
  absolute paths, and the standard output. It is the environment of the program, not code of the
  repository; its operations follow the Python library's documented behaviour:
  \<^item> a path string is read as its list of components, \<open>''\<close> and \<open>.\<close> dropped and
    \<open>..\<close> going up one level (what the kernel does when every directory on the way
    exists; symbolic links are not modelled);
  \<^item> a directory exists when it is the root, lies on the way to a directory of
    \<open>dirs\<close>, or lies above a file (so a state listing only files is consistent);
    removing a file keeps its parent directory;
  \<^item> \<open>os.path.join(a, b)\<close> drops \<open>a\<close> when \<open>b\<close> is absolute;
  \<^item> \<open>os.remove\<close> deletes a file and raises on a directory or a missing path;
  \<^item> \<open>os.scandir\<close> lists the names directly inside a directory;
  \<^item> \<open>print(s)\<close> appends one line to the standard output.
  The state is an extensible record, so the components that add their own state
  (the Bitwarden client) reuse every operation and lemma here.
\<close>

type_synonym path = "string list"

record os_state =
  files :: "(path \<times> string) list"
  dirs :: "path list"
  stdout :: "string list"

section \<open>Paths\<close>

text \<open>\<open>s.split(c)\<close>: the pieces between separators, empty ones included.\<close>

fun split_on :: "char \<Rightarrow> string \<Rightarrow> string list" where
  "split_on c [] = [[]]"
| "split_on c (x # xs) =
     (if x = c then [] # split_on c xs
      else (case split_on c xs of p # ps \<Rightarrow> (x # p) # ps | [] \<Rightarrow> [[x]]))"

definition path_step :: "string \<Rightarrow> path \<Rightarrow> path" where
  "path_step part p =
     (if part = [] \<or> part = ''.'' then p
      else if part = ''..'' then butlast p
      else p @ [part])"

definition parse_path :: "string \<Rightarrow> path" where
  "parse_path s = fold path_step (split_on CHR ''/'' s) []"

definition os_path_join :: "string \<Rightarrow> string \<Rightarrow> string" where
  "os_path_join a b =
     (if b \<noteq> [] \<and> hd b = CHR ''/'' then b
      else if a = [] \<or> last a = CHR ''/'' then a @ b
      else a @ ''/'' @ b)"

section \<open>Files\<close>

definition is_file :: "'s os_state_scheme \<Rightarrow> path \<Rightarrow> bool" where
  "is_file st p \<longleftrightarrow> p \<in> set (map fst (files st))"

definition is_dir :: "'s os_state_scheme \<Rightarrow> path \<Rightarrow> bool" where
  "is_dir st p \<longleftrightarrow>
     p = [] \<or> (\<exists>d \<in> set (dirs st). prefix p d) \<or> (\<exists>q \<in> set (map fst (files st)). strict_prefix p q)"

text \<open>A regular file in place of one of the directories above \<open>p\<close>.\<close>

definition has_file_above :: "'s os_state_scheme \<Rightarrow> path \<Rightarrow> bool" where
  "has_file_above st p \<longleftrightarrow> (\<exists>q \<in> set (map fst (files st)). strict_prefix q p)"

definition fs_delete :: "path \<Rightarrow> (path \<times> string) list \<Rightarrow> (path \<times> string) list" where
  "fs_delete p fs = filter (\<lambda>f. fst f \<noteq> p) fs"

definition fs_write :: "path \<Rightarrow> string \<Rightarrow> (path \<times> string) list \<Rightarrow> (path \<times> string) list" where
  "fs_write p c fs = fs_delete p fs @ [(p, c)]"

text \<open>The empty string names no file: \<open>os.path.exists('')\<close> is false, and
  \<open>os.remove('')\<close> and \<open>os.scandir('')\<close> raise \<open>FileNotFoundError\<close>. A path that
  goes through a regular file raises \<open>NotADirectoryError\<close>.\<close>

definition os_path_exists :: "'s os_state_scheme \<Rightarrow> string \<Rightarrow> bool" where
  "os_path_exists st s \<longleftrightarrow> s \<noteq> [] \<and> (is_file st (parse_path s) \<or> is_dir st (parse_path s))"

definition os_remove :: "string \<Rightarrow> ('s os_state_scheme, py_error, unit) exc" where
  "os_remove s st =
     (let p = parse_path s in
      if s = [] then (Inl (FileNotFoundError s), st)
      else if has_file_above st p then (Inl (NotADirectoryError s), st)
      else if is_file st p
      then (Inr (), st\<lparr>files := fs_delete p (files st), dirs := List.insert (butlast p) (dirs st)\<rparr>)
      else if is_dir st p then (Inl (IsADirectoryError s), st)
      else (Inl (FileNotFoundError s), st))"

text \<open>The names directly inside a directory, each once.\<close>

definition dir_entries :: "'s os_state_scheme \<Rightarrow> path \<Rightarrow> string list" where
  "dir_entries st p =
     remdups (map (\<lambda>q. q ! length p) (filter (strict_prefix p) (map fst (files st) @ dirs st)))"

definition os_scandir :: "string \<Rightarrow> ('s os_state_scheme, py_error, string list) exc" where
  "os_scandir s st =
     (let p = parse_path s in
      if s = [] then (Inl (FileNotFoundError s), st)
      else if has_file_above st p then (Inl (NotADirectoryError s), st)
      else if is_dir st p then (Inr (dir_entries st p), st)
      else if is_file st p then (Inl (NotADirectoryError s), st)
      else (Inl (FileNotFoundError s), st))"

definition print_line :: "string \<Rightarrow> ('s os_state_scheme, py_error, unit) exc" where
  "print_line s st = (Inr (), st\<lparr>stdout := stdout st @ [s]\<rparr>)"

text \<open>A well-formed tree: no path is both a file and a directory (so no file lies
  above another, none at the root or above an existing directory), and each file is
  listed once.\<close>

definition fs_wf :: "'s os_state_scheme \<Rightarrow> bool" where
  "fs_wf st \<longleftrightarrow> distinct (map fst (files st)) \<and> (\<forall>p \<in> set (map fst (files st)). \<not> is_dir st p)"

section \<open>Lemmas\<close>

lemma split_on_nonempty: "split_on c s \<noteq> []"
  by (induction s) (auto split: list.splits)

lemma split_on_append_sep:
  "split_on c (xs @ c # ys) = split_on c xs @ split_on c ys"
proof (induction xs)
  case Nil
  then show ?case by simp
next
  case (Cons x xs)
  obtain p ps where "split_on c xs = p # ps"
    using split_on_nonempty by (cases "split_on c xs") auto
  with Cons show ?case by simp
qed

lemma parse_path_append_sep:
  "parse_path (xs @ CHR ''/'' # ys) = fold path_step (split_on CHR ''/'' ys) (parse_path xs)"
  by (simp add: parse_path_def split_on_append_sep)

lemma map_of_fs_delete [simp]: "map_of (fs_delete p fs) = (map_of fs)(p := None)"
  by (induction fs) (auto simp: fs_delete_def fun_eq_iff)

lemma map_of_fs_write [simp]: "map_of (fs_write p c fs) = (map_of fs)(p \<mapsto> c)"
  by (auto simp: fs_write_def map_of_append fun_eq_iff map_add_def split: option.splits)

lemma is_file_map_of: "is_file st p \<longleftrightarrow> map_of (files st) p \<noteq> None"
  by (simp add: is_file_def map_of_eq_None_iff)

lemma os_remove_files:
  "os_remove s st = (Inr (), st') \<Longrightarrow>
     map_of (files st') = (map_of (files st))(parse_path s := None) \<and> stdout st' = stdout st"
  by (auto simp: os_remove_def Let_def split: if_splits)

lemma print_line_files [simp]: "files (snd (print_line s st)) = files st"
  by (simp add: print_line_def)

lemma eforeach_print_line:
  "eforeach print_line ls st = (Inr (), st\<lparr>stdout := stdout st @ ls\<rparr>)"
  by (induction ls arbitrary: st) (simp_all add: ebind_def print_line_def)

lemma eforeach_print_map:
  "eforeach (\<lambda>x. print_line (f x)) xs st = (Inr (), st\<lparr>stdout := stdout st @ map f xs\<rparr>)"
  by (induction xs arbitrary: st) (simp_all add: ebind_def print_line_def)

lemma stdout_prefix_trans:
  "prefix (stdout x) (stdout y) \<Longrightarrow> prefix (stdout y) (stdout z) \<Longrightarrow> prefix (stdout x) (stdout z)"
  by (rule prefix_order.trans)

lemma print_line_stdout [simp]: "stdout (snd (print_line s st)) = stdout st @ [s]"
  by (simp add: print_line_def)

lemma ebind_print_prefix:
  "stdout (snd (m st)) = stdout st \<Longrightarrow>
     prefix (stdout st) (stdout (snd (ebind m (\<lambda>_. print_line s) st)))"
  by (cases "m st") (auto simp: ebind_def print_line_def split: sum.splits)

lemma is_dir_dom:
  "is_dir st p \<longleftrightarrow>
     p = [] \<or> (\<exists>d \<in> set (dirs st). prefix p d) \<or> (\<exists>q \<in> dom (map_of (files st)). strict_prefix p q)"
  by (simp add: is_dir_def dom_map_of_conv_image_fst)

lemma has_file_above_dom:
  "has_file_above st p \<longleftrightarrow> (\<exists>q \<in> dom (map_of (files st)). strict_prefix q p)"
  by (simp add: has_file_above_def dom_map_of_conv_image_fst)

lemma butlast_strict_prefix: "p \<noteq> [] \<Longrightarrow> strict_prefix (butlast p) p"
  by (cases p rule: rev_cases) (auto simp: strict_prefix_def)

lemma not_prefix_butlast: "p \<noteq> [] \<Longrightarrow> \<not> prefix p (butlast p)"
  using butlast_strict_prefix [of p] prefix_order.antisym by (auto simp: strict_prefix_def)

lemma strict_prefix_same_length: "\<not> strict_prefix (d @ [a]) (d @ [x])"
  by (auto simp: strict_prefix_def prefix_def)

lemma is_dir_prefix: "is_dir st d \<Longrightarrow> prefix q d \<Longrightarrow> is_dir st q"
  by (auto simp: is_dir_def intro: prefix_order.trans prefix_order.le_less_trans)

lemma is_dir_above_file: "is_file st p \<Longrightarrow> strict_prefix q p \<Longrightarrow> is_dir st q"
  by (auto simp: is_dir_def is_file_def)

lemma is_dir_remove:
  "is_dir (st\<lparr>files := fs_delete p (files st), dirs := List.insert (butlast p) (dirs st)\<rparr>) q \<Longrightarrow>
     is_dir st q \<or> prefix q (butlast p)"
  by (auto simp: is_dir_def fs_delete_def) (metis fst_conv)

lemma is_dir_write:
  "is_dir (st\<lparr>files := fs_write p c (files st)\<rparr>) q \<Longrightarrow> is_dir st q \<or> strict_prefix q p"
  by (auto simp: is_dir_def fs_write_def fs_delete_def) (metis fst_conv)

lemma fs_wf_stdout [simp]: "fs_wf (st\<lparr>stdout := out\<rparr>) = fs_wf st"
  by (simp add: fs_wf_def is_dir_def)

lemma print_line_wf [simp]: "fs_wf (snd (print_line s st)) = fs_wf st"
  by (simp add: print_line_def)

lemma wf_rel_trans:
  "(fs_wf x \<longrightarrow> fs_wf y) \<Longrightarrow> (fs_wf y \<longrightarrow> fs_wf z) \<Longrightarrow> fs_wf x \<longrightarrow> fs_wf z"
  by blast

lemma wf_file_not_dir: "fs_wf st \<Longrightarrow> is_file st p \<Longrightarrow> \<not> is_dir st p"
  unfolding fs_wf_def is_file_def by blast

lemma wf_dir_no_file_above:
  assumes "fs_wf st" "is_dir st d"
  shows "\<not> has_file_above st (d @ [x])"
proof
  assume "has_file_above st (d @ [x])"
  then obtain q where q: "q \<in> set (map fst (files st))" "strict_prefix q (d @ [x])"
    by (auto simp: has_file_above_def)
  then have "prefix q d" by (auto simp: strict_prefix_def prefix_def append_eq_append_conv2 Cons_eq_append_conv)
  with assms(2) have "is_dir st q" by (rule is_dir_prefix)
  with wf_file_not_dir [OF assms(1), of q] q(1) show False by (simp add: is_file_def)
qed

lemma wf_dir_not_below_file: "fs_wf st \<Longrightarrow> is_dir st d \<Longrightarrow> \<not> has_file_above st d"
proof
  assume wf: "fs_wf st" and d: "is_dir st d" and "has_file_above st d"
  then obtain q where q: "q \<in> set (map fst (files st))" "strict_prefix q d"
    by (auto simp: has_file_above_def)
  from is_dir_prefix [OF d] q(2) have "is_dir st q" by (simp add: strict_prefix_def)
  with wf_file_not_dir [OF wf, of q] q(1) show False by (simp add: is_file_def)
qed

lemma os_remove_wf:
  assumes "fs_wf st"
  shows "fs_wf (snd (os_remove s st))"
proof (cases "is_file st (parse_path s)")
  case True
  let ?p = "parse_path s"
  let ?st = "st\<lparr>files := fs_delete ?p (files st), dirs := List.insert (butlast ?p) (dirs st)\<rparr>"
  have ne: "?p \<noteq> []" using assms True by (auto simp: fs_wf_def is_file_def is_dir_def)
  have "\<not> is_dir ?st q" if q: "q \<in> set (map fst (files ?st))" for q
  proof
    assume "is_dir ?st q"
    then consider "is_dir st q" | "prefix q (butlast ?p)" by (blast dest: is_dir_remove)
    then show False
    proof cases
      case 1
      with q assms show False by (auto simp: fs_wf_def fs_delete_def)
    next
      case 2
      then have "strict_prefix q ?p"
        using butlast_strict_prefix [OF ne] by (rule prefix_order.le_less_trans)
      with True have "is_dir st q" by (rule is_dir_above_file)
      with q assms show False by (auto simp: fs_wf_def fs_delete_def)
    qed
  qed
  moreover have "distinct (map fst (files ?st))"
    using assms by (simp add: fs_wf_def fs_delete_def distinct_map_filter)
  ultimately show ?thesis using True assms by (simp add: os_remove_def fs_wf_def Let_def)
qed (use assms in \<open>auto simp: os_remove_def Let_def\<close>)

lemma fs_wf_write:
  assumes wf: "fs_wf st" and nd: "\<not> is_dir st p" and na: "\<not> has_file_above st p"
  shows "fs_wf (st\<lparr>files := fs_write p c (files st)\<rparr>)"
proof -
  let ?st = "st\<lparr>files := fs_write p c (files st)\<rparr>"
  have "\<not> is_dir ?st q" if q: "q \<in> set (map fst (files ?st))" for q
  proof
    assume "is_dir ?st q"
    then consider "is_dir st q" | "strict_prefix q p" by (blast dest: is_dir_write)
    then show False
    proof cases
      case 1
      with q wf nd show False by (auto simp: fs_wf_def fs_write_def fs_delete_def)
    next
      case 2
      with q na show False by (auto simp: has_file_above_def fs_write_def fs_delete_def)
    qed
  qed
  moreover have "distinct (map fst (files ?st))"
    using wf by (auto simp: fs_wf_def fs_write_def fs_delete_def distinct_map_filter)
  ultimately show ?thesis by (simp add: fs_wf_def)
qed

lemma ebind_print_files:
  "ebind m (\<lambda>_. print_line x) s = (r, s') \<Longrightarrow> files s' = files (snd (m s))"
  by (auto simp: ebind_def print_line_def split: prod.splits sum.splits)

lemma prefix_snoc_iff: "prefix (D @ [x]) q \<longleftrightarrow> strict_prefix D q \<and> q ! length D = x"
proof
  assume "prefix (D @ [x]) q"
  then obtain zs where "q = D @ x # zs" by (auto simp: prefix_def)
  then show "strict_prefix D q \<and> q ! length D = x" by (simp add: strict_prefix_def)
next
  assume a: "strict_prefix D q \<and> q ! length D = x"
  then obtain ys where q: "q = D @ ys" and "ys \<noteq> []"
    by (auto simp: strict_prefix_def prefix_def)
  then obtain zs where "ys = x # zs" using a by (cases ys) auto
  with q show "prefix (D @ [x]) q" by simp
qed

text \<open>\<open>os.scandir\<close> lists a name exactly when something exists at that name inside the
  directory.\<close>

lemma dir_entries_mem:
  "x \<in> set (dir_entries st D) \<longleftrightarrow> is_file st (D @ [x]) \<or> is_dir st (D @ [x])"
proof -
  have "x \<in> set (dir_entries st D) \<longleftrightarrow>
          (\<exists>q \<in> set (map fst (files st)) \<union> set (dirs st). prefix (D @ [x]) q)"
    by (auto simp: dir_entries_def prefix_snoc_iff)
  also have "\<dots> \<longleftrightarrow> is_file st (D @ [x]) \<or> is_dir st (D @ [x])"
    by (auto simp: is_file_def is_dir_def strict_prefix_def)
  finally show ?thesis .
qed

end
