(* ===== verification/Cli.thy ===== *)
theory Cli
  imports OSModel
begin

text \<open>
  Class \<open>Cli\<close> of \<open>src/bitwarden-to-pass.py\<close> (lines 108--115): \<open>run\<close> and
  \<open>run_pipe\<close> print the command line when \<open>log_output\<close> is set, then start the
  process and return what it printed. The process is a parameter \<open>proc\<close>: the
  external tool's effect on the state, given the command line (and, for
  \<open>run_pipe\<close>, the text on its standard input). The clients \<open>BWCli\<close> and
  \<open>PassCli\<close> instantiate it with what \<open>bw\<close> and \<open>pass\<close> do. Exit codes are never
  read by the script, so the model has none.
\<close>

text \<open>\<open>if log_output: print('>', " ".join(command))\<close>.\<close>

definition cli_log :: "string list \<Rightarrow> ('s os_state_scheme, py_error, unit) exc" where
  "cli_log command = print_line (''> '' @ py_join '' '' command)"

definition cli_run ::
  "(string list \<Rightarrow> ('s os_state_scheme, py_error, 'a) exc) \<Rightarrow> string list \<Rightarrow> bool
     \<Rightarrow> ('s os_state_scheme, py_error, 'a) exc" where
  "cli_run proc command log_output =
     ebind (if log_output then cli_log command else ereturn ()) (\<lambda>_. proc command)"

definition cli_run_pipe ::
  "(string list \<Rightarrow> string \<Rightarrow> ('s os_state_scheme, py_error, 'a) exc) \<Rightarrow> string list \<Rightarrow> string
     \<Rightarrow> bool \<Rightarrow> ('s os_state_scheme, py_error, 'a) exc" where
  "cli_run_pipe proc command input log_output =
     ebind (if log_output then cli_log command else ereturn ()) (\<lambda>_. proc command input)"

section \<open>Lemmas\<close>

definition log_state :: "string list \<Rightarrow> bool \<Rightarrow> 's os_state_scheme \<Rightarrow> 's os_state_scheme" where
  "log_state command log_output st =
     (if log_output then st\<lparr>stdout := stdout st @ [''> '' @ py_join '' '' command]\<rparr> else st)"

lemma log_state_frame [simp]:
  "files (log_state command b st) = files st" "dirs (log_state command b st) = dirs st"
  "os_state.more (log_state command b st) = os_state.more st"
  by (simp_all add: log_state_def)

lemma log_state_quiet [simp]: "log_state command False st = st"
  by (simp add: log_state_def)

lemma cli_log_eq: "cli_log command st = (Inr (), log_state command True st)"
  by (simp add: cli_log_def print_line_def log_state_def)

lemma cli_run_eq:
  "cli_run proc command log_output st = proc command (log_state command log_output st)"
  by (simp add: cli_run_def ebind_def cli_log_eq ereturn_def log_state_def)

lemma cli_run_pipe_eq:
  "cli_run_pipe proc command input log_output st =
     proc command input (log_state command log_output st)"
  by (simp add: cli_run_pipe_def ebind_def cli_log_eq ereturn_def log_state_def)

end
