(* ===== verification/BWCli.thy ===== *)
theory BWCli
  imports Cli
begin

text \<open>
  The process runner \<open>Cli\<close> and the source store client \<open>BWCli\<close> of
  \<open>src/bitwarden-to-pass.py\<close> (lines 108--130). The program's whole state is
  \<open>world\<close>: the file system and standard output of \<open>os_state\<close>, the process
  environment and home directory \<open>PassCli()\<close> reads, and what the \<open>bw\<close> tool
  answers. \<open>bw\<close> is outside the repository; it is an oracle: the \<open>n\<close>-th run of
  \<open>bw unlock --raw\<close> prints \<open>bw_unlock_out w n\<close> (the user typing a password or
  not), and \<open>bw list items\<close> prints the item list, given here already parsed by
  \<open>json.loads\<close>. \<open>Cli.run\<close> prints the command line and returns the output; exit
  codes are never read. \<open>unlock\<close> repeats the command until the output is not empty,
  with no bound: it is a \<^theory_text>\<open>partial_function\<close> into \<open>option\<close>, \<open>None\<close> meaning
  that the loop never ends, and the lemmas say exactly when it returns and what.
\<close>

record world = os_state +
  environ :: "string \<Rightarrow> string option"
  home_dir :: string
  bw_unlock_out :: "nat \<Rightarrow> string"
  bw_unlock_calls :: nat
  bw_items :: json

definition unlock_cmd :: "string list" where
  "unlock_cmd = [''bw'', ''unlock'', ''--raw'']"

text \<open>One pass of the loop body: run \<open>bw unlock --raw\<close> and read its output.\<close>

definition unlock_attempt :: "world \<Rightarrow> string \<times> world" where
  "unlock_attempt w =
     (let w' = snd (cli_log unlock_cmd w)
      in (bw_unlock_out w (bw_unlock_calls w), w'\<lparr>bw_unlock_calls := Suc (bw_unlock_calls w)\<rparr>))"

partial_function (option) unlock :: "world \<Rightarrow> (string \<times> world) option" where
  "unlock w =
     (case unlock_attempt w of
        (session, w') \<Rightarrow> if 0 < length session then Some (session, w') else unlock w')"

declare unlock.simps [code]

definition bw_sync_proc :: "string list \<Rightarrow> (world, py_error, unit) exc" where
  "bw_sync_proc command = ereturn ()"

definition bw_list_proc :: "string list \<Rightarrow> (world, py_error, json) exc" where
  "bw_list_proc command w = (Inr (bw_items w), w)"

definition bw_sync :: "string \<Rightarrow> (world, py_error, unit) exc" where
  "bw_sync session = cli_run bw_sync_proc [''bw'', ''--session'', session, ''sync''] True"

definition list_items :: "string \<Rightarrow> (world, py_error, json) exc" where
  "list_items session = cli_run bw_list_proc [''bw'', ''--session'', session, ''list'', ''items''] True"

section \<open>Lemmas\<close>

definition unlock_line :: string where
  "unlock_line = ''> '' @ py_join '' '' unlock_cmd"

lemma unlock_attempt_eq:
  "unlock_attempt w =
     (bw_unlock_out w (bw_unlock_calls w),
      w\<lparr>stdout := stdout w @ [unlock_line], bw_unlock_calls := Suc (bw_unlock_calls w)\<rparr>)"
  by (simp add: unlock_attempt_def cli_log_def print_line_def unlock_line_def)

text \<open>C15: \<open>unlock\<close> returns the first non-empty answer of \<open>bw unlock --raw\<close>: after
  \<open>d\<close> empty answers it returns answer \<open>d\<close>, having logged the command \<open>d + 1\<close> times.\<close>

lemma unlock_after:
  assumes "\<forall>i < d. bw_unlock_out w (bw_unlock_calls w + i) = []"
    and "bw_unlock_out w (bw_unlock_calls w + d) \<noteq> []"
  shows "unlock w =
     Some (bw_unlock_out w (bw_unlock_calls w + d),
           w\<lparr>stdout := stdout w @ replicate (Suc d) unlock_line,
             bw_unlock_calls := bw_unlock_calls w + Suc d\<rparr>)"
  using assms
proof (induction d arbitrary: w)
  case 0
  then show ?case by (subst unlock.simps) (simp add: unlock_attempt_eq)
next
  case (Suc d)
  let ?w' = "w\<lparr>stdout := stdout w @ [unlock_line], bw_unlock_calls := Suc (bw_unlock_calls w)\<rparr>"
  from Suc.prems(1) have first: "bw_unlock_out w (bw_unlock_calls w) = []" by auto
  have "\<forall>i < d. bw_unlock_out ?w' (bw_unlock_calls ?w' + i) = []"
    using Suc.prems(1) by auto
  moreover have "bw_unlock_out ?w' (bw_unlock_calls ?w' + d) \<noteq> []"
    using Suc.prems(2) by simp
  ultimately have "unlock ?w' =
     Some (bw_unlock_out ?w' (bw_unlock_calls ?w' + d),
           ?w'\<lparr>stdout := stdout ?w' @ replicate (Suc d) unlock_line,
             bw_unlock_calls := bw_unlock_calls ?w' + Suc d\<rparr>)"
    by (rule Suc.IH)
  with first show ?case
    by (subst unlock.simps) (simp add: unlock_attempt_eq replicate_append_same)
qed

lemma unlock_Some_answer:
  assumes "unlock w = Some r"
  shows "\<exists>n \<ge> bw_unlock_calls w. bw_unlock_out w n \<noteq> [] \<and> fst r = bw_unlock_out w n"
proof (rule unlock.raw_induct [where P = "\<lambda>w r. \<exists>n \<ge> bw_unlock_calls w.
            bw_unlock_out w n \<noteq> [] \<and> fst r = bw_unlock_out w n", OF _ assms])
  fix f :: "world \<Rightarrow> (string \<times> world) option" and w0 :: world and r0
  assume IH: "\<And>x y. f x = Some y \<Longrightarrow>
                \<exists>n \<ge> bw_unlock_calls x. bw_unlock_out x n \<noteq> [] \<and> fst y = bw_unlock_out x n"
    and step: "(case unlock_attempt w0 of (session, w') \<Rightarrow>
                  if 0 < length session then Some (session, w') else f w') = Some r0"
  show "\<exists>n \<ge> bw_unlock_calls w0. bw_unlock_out w0 n \<noteq> [] \<and> fst r0 = bw_unlock_out w0 n"
  proof (cases "bw_unlock_out w0 (bw_unlock_calls w0) = []")
    case True
    with step have "f (w0\<lparr>stdout := stdout w0 @ [unlock_line],
                      bw_unlock_calls := Suc (bw_unlock_calls w0)\<rparr>) = Some r0"
      by (simp add: unlock_attempt_eq)
    from IH [OF this] show ?thesis by (auto intro: Suc_leD)
  next
    case False
    with step show ?thesis by (auto simp: unlock_attempt_eq)
  qed
qed

lemma world_os_updates [simp]:
  "environ (stdout_update f w) = environ w" "home_dir (stdout_update f w) = home_dir w"
  "bw_unlock_out (stdout_update f w) = bw_unlock_out w"
  "bw_unlock_calls (stdout_update f w) = bw_unlock_calls w"
  "bw_items (stdout_update f w) = bw_items w"
  "environ (files_update g w) = environ w" "home_dir (files_update g w) = home_dir w"
  "bw_unlock_out (files_update g w) = bw_unlock_out w"
  "bw_unlock_calls (files_update g w) = bw_unlock_calls w"
  "bw_items (files_update g w) = bw_items w"
  "files (bw_unlock_calls_update h w) = files w" "stdout (bw_unlock_calls_update h w) = stdout w"
  "dirs (bw_unlock_calls_update h w) = dirs w"
  "environ (dirs_update k w) = environ w" "home_dir (dirs_update k w) = home_dir w"
  "bw_unlock_out (dirs_update k w) = bw_unlock_out w"
  "bw_unlock_calls (dirs_update k w) = bw_unlock_calls w"
  "bw_items (dirs_update k w) = bw_items w"
  by (cases w; simp)+

lemma unlock_state:
  assumes "unlock w = Some r"
  shows "snd r = w\<lparr>stdout := stdout (snd r), bw_unlock_calls := bw_unlock_calls (snd r)\<rparr>"
proof (rule unlock.raw_induct [where P = "\<lambda>w r.
          snd r = w\<lparr>stdout := stdout (snd r), bw_unlock_calls := bw_unlock_calls (snd r)\<rparr>", OF _ assms])
  fix f :: "world \<Rightarrow> (string \<times> world) option" and w0 :: world and r0
  assume IH: "\<And>x y. f x = Some y \<Longrightarrow>
                snd y = x\<lparr>stdout := stdout (snd y), bw_unlock_calls := bw_unlock_calls (snd y)\<rparr>"
    and step: "(case unlock_attempt w0 of (session, w') \<Rightarrow>
                  if 0 < length session then Some (session, w') else f w') = Some r0"
  show "snd r0 = w0\<lparr>stdout := stdout (snd r0), bw_unlock_calls := bw_unlock_calls (snd r0)\<rparr>"
  proof (cases "bw_unlock_out w0 (bw_unlock_calls w0) = []")
    case True
    with step have "f (w0\<lparr>stdout := stdout w0 @ [unlock_line],
                      bw_unlock_calls := Suc (bw_unlock_calls w0)\<rparr>) = Some r0"
      by (simp add: unlock_attempt_eq)
    from IH [OF this] show ?thesis by simp
  next
    case False
    with step show ?thesis by (auto simp: unlock_attempt_eq)
  qed
qed

lemma unlock_stdout:
  assumes "unlock w = Some r"
  shows "\<exists>d. stdout (snd r) = stdout w @ replicate (Suc d) unlock_line"
proof (rule unlock.raw_induct [where P = "\<lambda>w r. \<exists>d. stdout (snd r) = stdout w @ replicate (Suc d) unlock_line",
       OF _ assms])
  fix f :: "world \<Rightarrow> (string \<times> world) option" and w0 :: world and r0
  assume IH: "\<And>x y. f x = Some y \<Longrightarrow> \<exists>d. stdout (snd y) = stdout x @ replicate (Suc d) unlock_line"
    and step: "(case unlock_attempt w0 of (session, w') \<Rightarrow>
                  if 0 < length session then Some (session, w') else f w') = Some r0"
  show "\<exists>d. stdout (snd r0) = stdout w0 @ replicate (Suc d) unlock_line"
  proof (cases "bw_unlock_out w0 (bw_unlock_calls w0) = []")
    case True
    with step have "f (w0\<lparr>stdout := stdout w0 @ [unlock_line],
                      bw_unlock_calls := Suc (bw_unlock_calls w0)\<rparr>) = Some r0"
      by (simp add: unlock_attempt_eq)
    from IH [OF this] obtain d where "stdout (snd r0) = stdout w0 @ [unlock_line] @ replicate (Suc d) unlock_line"
      by auto
    then have "stdout (snd r0) = stdout w0 @ replicate (Suc (Suc d)) unlock_line" by simp
    then show ?thesis ..
  next
    case False
    with step have "stdout (snd r0) = stdout w0 @ replicate (Suc 0) unlock_line"
      by (auto simp: unlock_attempt_eq)
    then show ?thesis ..
  qed
qed

lemma unlock_terminates:
  "bw_unlock_calls w \<le> n \<Longrightarrow> bw_unlock_out w n \<noteq> [] \<Longrightarrow> unlock w \<noteq> None"
proof (induction "n - bw_unlock_calls w" arbitrary: w)
  case 0
  then have "bw_unlock_calls w = n" by simp
  with 0 show ?case by (subst unlock.simps) (simp add: unlock_attempt_eq)
next
  case (Suc k)
  show ?case
  proof (cases "bw_unlock_out w (bw_unlock_calls w) = []")
    case True
    let ?w' = "w\<lparr>stdout := stdout w @ [unlock_line], bw_unlock_calls := Suc (bw_unlock_calls w)\<rparr>"
    from True Suc.prems have "bw_unlock_calls w \<noteq> n" by auto
    with Suc.hyps(2) Suc.prems have "unlock ?w' \<noteq> None" by (intro Suc.hyps(1)) auto
    with True show ?thesis by (subst unlock.simps) (simp add: unlock_attempt_eq)
  next
    case False
    then show ?thesis by (subst unlock.simps) (simp add: unlock_attempt_eq)
  qed
qed

lemma more_world: "os_state.more x = os_state.more y \<Longrightarrow> environ x = environ y \<and> home_dir x = home_dir y \<and> bw_items x = bw_items y"
  by (cases x; cases y) simp

theorem unlock_after_witness:
  "unlock \<lparr>files = [], dirs = [], stdout = [], environ = \<lambda>_. None, home_dir = [],
        bw_unlock_out = \<lambda>n. if n = 0 then [] else ''T'', bw_unlock_calls = 0, bw_items = JNull\<rparr> =
       Some (''T'', \<lparr>files = [], dirs = [], stdout = [unlock_line, unlock_line], environ = \<lambda>_. None,
        home_dir = [], bw_unlock_out = \<lambda>n. if n = 0 then [] else ''T'', bw_unlock_calls = 2,
        bw_items = JNull\<rparr>)"
proof -
  let ?w = "\<lparr>files = [], dirs = [], stdout = [], environ = \<lambda>_. None, home_dir = [],
        bw_unlock_out = \<lambda>n. if n = 0 then [] else ''T'', bw_unlock_calls = 0, bw_items = JNull\<rparr> :: world"
  have h1: "\<forall>i < 1. bw_unlock_out ?w (bw_unlock_calls ?w + i) = []" by simp
  have h2: "bw_unlock_out ?w (bw_unlock_calls ?w + 1) \<noteq> []" by simp
  from unlock_after [OF h1 h2] show ?thesis by (simp add: numeral_2_eq_2)
qed

end
