(* ===== verification/Orchestrator.thy ===== *)
theory Orchestrator
  imports BWItem PassCli BWCli
begin

text \<open>
  The run of the script, \<open>main\<close> of \<open>src/bitwarden-to-pass.py\<close> (lines 154--194):
  print a banner, build the two clients, unlock (possibly forever), sync, list the
  items, snapshot the names already in the store, then for each item in list order
  compute its name and body, remove an existing entry of that name, insert the body
  and log the byte count; finally warn about the entries of the snapshot that no item
  produced. It is a composition of the components' operations in the exception
  monad of the prelude over \<open>world\<close>; \<open>main\<close> is \<open>None\<close> exactly when the unlock loop
  never returns. The lemmas give the effect of one item and of the whole loop on the
  files (\<open>sync_loop_files\<close>), on the output (\<open>sync_loop_log\<close>, the report lines
  \<open>inserted_line\<close>), the loop's progress under the invariant \<open>entries_clear\<close>
  (\<open>sync_loop_completes\<close>), and the content of the final warning.
\<close>

definition banner :: "string list" where
  "banner =
     [replicate 60 CHR ''*'',
      ''Note: To ensure a full refresh, logout and login again with:'',
      CHR 0x09 # ''bw logout'',
      CHR 0x09 # ''bw login'',
      replicate 60 CHR ''*'']"

text \<open>The body of the \<open>for bw_item in bw_items\<close> loop (lines 175--184).\<close>

definition sync_item :: "pass_cli \<Rightarrow> json \<Rightarrow> ('s os_state_scheme, py_error, unit) exc" where
  "sync_item pc item =
     ebind (elift (passname item)) (\<lambda>name.
     ebind (elift (format item)) (\<lambda>content.
     ebind (\<lambda>st. if pass_exists pc name st
                 then ebind (remove_force pc name)
                        (\<lambda>_. print_line (''Removed existing pass entry '' @ name)) st
                 else ereturn () st) (\<lambda>_.
     ebind (pass_insert pc name content) (\<lambda>insert_response.
       print_line (''Inserted '' @ nat_str (utf8_len content) @ '' bytes into '' @ name)))))"

text \<open>Lines 186--192: the names of the snapshot no item produced, and the warning.\<close>

definition ignored_entries :: "string list \<Rightarrow> string list \<Rightarrow> string list" where
  "ignored_entries existing synced = filter (\<lambda>entry. entry \<notin> set synced) existing"

definition warn_ignored :: "string list \<Rightarrow> ('s os_state_scheme, py_error, unit) exc" where
  "warn_ignored ignored =
     (if 0 < length ignored then
        ebind (print_line ''WARNING: Ignored the following password entries. Possibly deleted from bitwarden?'')
          (\<lambda>_. eforeach (\<lambda>entry. print_line (CHR 0x09 # entry)) ignored)
      else ereturn ())"

text \<open>Lines 166--192, from the printed message after a successful unlock on.\<close>

definition after_unlock :: "pass_cli \<Rightarrow> string \<Rightarrow> (world, py_error, unit) exc" where
  "after_unlock pc session =
     ebind (print_line ''Syncing bitwarden passwords'') (\<lambda>_.
     ebind (bw_sync session) (\<lambda>_.
     ebind (print_line ''Listing bitwarden items'') (\<lambda>_.
     ebind (list_items session) (\<lambda>items.
     ebind (list_pass_names pc) (\<lambda>existing_pass_entries.
     ebind (elift (py_iter items)) (\<lambda>bw_items.
     ebind (eforeach (sync_item pc) bw_items) (\<lambda>_.
     ebind (elift (py_map passname bw_items)) (\<lambda>synced_pass_entries.
       warn_ignored (ignored_entries existing_pass_entries synced_pass_entries)))))))))"

definition main :: "world \<Rightarrow> ((py_error + unit) \<times> world) option" where
  "main w0 =
     (let w1 = snd (eforeach print_line banner w0);
          passcli = pass_cli_init (environ w1) (home_dir w1);
          w2 = snd (print_line ''Unlocking bitwarden'' w1)
      in case unlock w2 of
           None \<Rightarrow> None
         | Some (session, w3) \<Rightarrow> Some (after_unlock passcli session w3))"

definition sync_lines :: "string \<Rightarrow> string list" where
  "sync_lines session =
     [''Syncing bitwarden passwords'', ''> bw --session '' @ session @ '' sync'',
      ''Listing bitwarden items'', ''> bw --session '' @ session @ '' list items'']"

text \<open>The files an item may touch: the entry of its name, when the name is not
  absolute (an absolute name makes \<open>os.path.join\<close> address a file outside the store).\<close>

definition item_safe_for :: "pass_cli \<Rightarrow> path \<Rightarrow> json \<Rightarrow> bool" where
  "item_safe_for pc p item =
     (case passname item of
        Inl e \<Rightarrow> True
      | Inr n \<Rightarrow> (n = [] \<or> hd n \<noteq> CHR ''/'') \<and> p \<noteq> pass_tool_path (pass_directory pc) n)"

definition warning_lines :: "string list \<Rightarrow> string list" where
  "warning_lines orphans =
     (if orphans = [] then []
      else ''WARNING: Ignored the following password entries. Possibly deleted from bitwarden?''
             # map (\<lambda>e. CHR 0x09 # e) orphans)"

text \<open>An entry path is clear when it is no directory and no regular file lies above it:
  then \<open>os.remove\<close> of it succeeds whenever \<open>os.path.exists\<close> holds. Every step of
  the loop keeps the entry paths of the store clear.\<close>

definition entry_clear :: "'s os_state_scheme \<Rightarrow> path \<Rightarrow> bool" where
  "entry_clear st p \<longleftrightarrow> \<not> is_dir st p \<and> \<not> has_file_above st p"

definition entries_clear :: "pass_cli \<Rightarrow> 's os_state_scheme \<Rightarrow> 's os_state_scheme \<Rightarrow> bool" where
  "entries_clear pc x y \<longleftrightarrow>
     (\<forall>e. entry_clear x (parse_path (pass_directory pc) @ [e]) \<longrightarrow>
          entry_clear y (parse_path (pass_directory pc) @ [e]))"

text \<open>The report line of one item, and the lines of the loop that are such
  reports.\<close>

definition inserted_line :: "string \<times> string \<Rightarrow> string" where
  "inserted_line nc = ''Inserted '' @ nat_str (utf8_len (snd nc)) @ '' bytes into '' @ fst nc"

definition is_report :: "string \<Rightarrow> bool" where
  "is_report l \<longleftrightarrow> prefix ''Inserted '' l"

text \<open>What one item prints: the removal line when its entry file was there, then
  its report line.\<close>

definition item_log :: "pass_cli \<Rightarrow> 's os_state_scheme \<Rightarrow> string \<times> string \<Rightarrow> string list" where
  "item_log pc st nc =
     (if is_file st (entry_path pc (fst nc)) then [''Removed existing pass entry '' @ fst nc] else [])
     @ [inserted_line nc]"

section \<open>Lemmas\<close>

lemma main_eq:
  "main w =
     (case unlock (w\<lparr>stdout := stdout w @ banner @ [''Unlocking bitwarden'']\<rparr>) of
        None \<Rightarrow> None
      | Some (session, w3) \<Rightarrow> Some (after_unlock (pass_cli_init (environ w) (home_dir w)) session w3))"
  by (simp add: main_def eforeach_print_line print_line_def Let_def split: option.split)

lemma after_unlock_eq:
  "after_unlock pc session w =
     ebind (list_pass_names pc) (\<lambda>existing.
     ebind (elift (py_iter (bw_items w))) (\<lambda>items.
     ebind (eforeach (sync_item pc) items) (\<lambda>_.
     ebind (elift (py_map passname items)) (\<lambda>synced.
       warn_ignored (ignored_entries existing synced)))))
     (w\<lparr>stdout := stdout w @ sync_lines session\<rparr>)"
  by (simp add: after_unlock_def ebind_def print_line_def bw_sync_def list_items_def cli_run_eq log_state_def bw_sync_proc_def bw_list_proc_def cli_log_def
      sync_lines_def split: prod.split sum.split)


lemma sync_item_frame:
  assumes "item_safe_for pc p item"
  shows "map_of (files (snd (sync_item pc item st))) p = map_of (files st) p"
proof (cases "passname item")
  case (Inl e)
  then show ?thesis by (simp add: sync_item_def ebind_simps)
next
  case (Inr n)
  with assms have abs: "n = [] \<or> hd n \<noteq> CHR ''/''"
    and tool: "p \<noteq> pass_tool_path (pass_directory pc) n"
    by (simp_all add: item_safe_for_def)
  from tool get_file_path_tool_path [OF abs] have rm: "p \<noteq> parse_path (get_file_path pc n)"
    by simp
  show ?thesis
  proof (cases "format item")
    case (Inl e)
    with Inr show ?thesis by (simp add: sync_item_def ebind_simps)
  next
    case (Inr c)
    show ?thesis
      unfolding sync_item_def using \<open>passname item = Inr n\<close> Inr
      apply (simp add: ebind_simps)
      apply (rule ebind_frame)
       apply (auto intro!: ebind_frame simp: remove_force_frame [OF rm] pass_insert_frame [OF tool])
      done
  qed
qed

lemma warn_ignored_files [simp]: "files (snd (warn_ignored ignored st)) = files st"
  unfolding warn_ignored_def
  by (auto intro!: ebind_frame eforeach_frame)

lemma warn_ignored_eq:
  "warn_ignored l st = (Inr (), st\<lparr>stdout := stdout st @ warning_lines l\<rparr>)"
  by (simp add: warn_ignored_def warning_lines_def ebind_def print_line_def eforeach_print_map)

lemma sync_item_stdout: "prefix (stdout st) (stdout (snd (sync_item pc item st)))"
proof (cases "passname item")
  case (Inl e)
  then show ?thesis by (simp add: sync_item_def ebind_simps)
next
  case (Inr n)
  show ?thesis
  proof (cases "format item")
    case (Inl e)
    with Inr show ?thesis by (simp add: sync_item_def ebind_simps)
  next
    case (Inr c)
    show ?thesis
      unfolding sync_item_def using \<open>passname item = Inr n\<close> Inr
      apply (simp add: ebind_simps)
      apply (rule ebind_rel [where R = "\<lambda>x y. prefix (stdout x) (stdout y)"])
        apply (simp add: ebind_print_prefix)
       apply (simp add: ebind_print_prefix)
      apply (erule (1) stdout_prefix_trans)
      done
  qed
qed


lemma sync_item_wf: "fs_wf st \<Longrightarrow> fs_wf (snd (sync_item pc item st))"
proof -
  let ?R = "\<lambda>x y. fs_wf x \<longrightarrow> fs_wf y"
  have rm: "?R st (snd (ebind (remove_force pc n) (\<lambda>_. print_line m) st))" for st n m
    by (rule ebind_rel [where R = ?R]) (auto simp: remove_force_def os_remove_wf)
  have ins: "?R st (snd (ebind (pass_insert pc n c) (\<lambda>_. print_line m) st))" for st n c m
    by (rule ebind_rel [where R = ?R]) (auto simp: pass_insert_wf)
  have "?R st (snd (sync_item pc item st))"
  proof (cases "passname item")
    case (Inr n)
    show ?thesis
    proof (cases "format item")
      case (Inr c)
      show ?thesis
        unfolding sync_item_def using \<open>passname item = Inr n\<close> Inr
        apply (simp add: ebind_simps)
        apply (rule ebind_rel [where R = ?R])
          apply (simp add: rm)
         apply (simp add: ins)
        apply (erule (1) wf_rel_trans)
        done
    qed (simp add: sync_item_def ebind_simps \<open>passname item = Inr n\<close>)
  qed (simp add: sync_item_def ebind_simps)
  then show "fs_wf st \<Longrightarrow> ?thesis" by blast
qed


lemma sync_item_write:
  assumes r: "sync_item pc it st = (Inr (), st')"
    and pn: "passname it = Inr n" and fm: "format it = Inr c"
    and wf: "fs_wf st" and above: "\<not> has_file_above st (entry_path pc n)"
    and flat: "CHR ''/'' \<notin> set n" and ns: "\<not> sneaky_path n"
  shows "map_of (files st') = (map_of (files st))(entry_path pc n \<mapsto> c)"
proof -
  let ?p = "entry_path pc n"
  have tool: "pass_tool_path (pass_directory pc) n = ?p" using flat by (rule pass_tool_path_flat)
  have "n = [] \<or> hd n \<noteq> CHR ''/''" using flat by (cases n) auto
  from get_file_path_tool_path [OF this] tool have gp: "parse_path (get_file_path pc n) = ?p"
    by simp
  from r pn fm obtain u st1 where
    s1: "(if pass_exists pc n st
          then ebind (remove_force pc n) (\<lambda>_. print_line (''Removed existing pass entry '' @ n)) st
          else ereturn () st) = (Inr u, st1)"
    and s2: "ebind (pass_insert pc n c) (\<lambda>_.
               print_line (''Inserted '' @ nat_str (utf8_len c) @ '' bytes into '' @ n)) st1 = (Inr (), st')"
    by (auto simp: sync_item_def ebind_simps ebind_Inr)
  from s2 have f2: "files st' = files (snd (pass_insert pc n c st1))" by (rule ebind_print_files)
  have st1: "map_of (files st1) = (map_of (files st))(?p := None) \<and> \<not> is_dir st1 ?p
             \<and> \<not> has_file_above st1 ?p"
  proof (cases "pass_exists pc n st")
    case True
    then have ex: "is_file st ?p \<or> is_dir st ?p" by (simp add: pass_exists_def os_path_exists_def gp)
    from True s1 have "ebind (remove_force pc n) (\<lambda>_. print_line (''Removed existing pass entry '' @ n)) st
                        = (Inr u, st1)" by simp
    then obtain st0 where rm: "remove_force pc n st = (Inr (), st0)"
      and st1: "st1 = st0\<lparr>stdout := stdout st0 @ [''Removed existing pass entry '' @ n]\<rparr>"
      by (auto simp: ebind_Inr print_line_def)
    from rm have fl: "is_file st ?p"
      by (auto simp: remove_force_def os_remove_def gp Let_def split: if_splits)
    from rm have st0: "st0 = st\<lparr>files := fs_delete ?p (files st),
                               dirs := List.insert (butlast ?p) (dirs st)\<rparr>"
      by (auto simp: remove_force_def os_remove_def gp Let_def split: if_splits)
    have "\<not> is_dir st ?p" by (rule wf_file_not_dir [OF wf fl])
    moreover have "\<not> prefix ?p (butlast ?p)" by (simp add: not_prefix_butlast)
    ultimately have "\<not> is_dir st0 ?p" unfolding st0 by (blast dest: is_dir_remove)
    moreover have "\<not> has_file_above st0 ?p"
      using above unfolding st0 by (auto simp: has_file_above_def fs_delete_def)
    ultimately show ?thesis
      by (simp add: st1 st0 is_dir_def has_file_above_def)
  next
    case False
    with s1 have "st1 = st" by simp
    moreover from False have "\<not> is_file st ?p" "\<not> is_dir st ?p"
      by (simp_all add: pass_exists_def os_path_exists_def gp)
    ultimately show ?thesis using above by (simp add: is_file_map_of fun_upd_idem)
  qed
  then have "map_of (files (snd (pass_insert pc n c st1))) = (map_of (files st1))(?p \<mapsto> c)"
    using pass_insert_writes [OF ns, of st1 pc c] tool by simp
  with f2 st1 show ?thesis by simp
qed


lemma sync_item_more: "os_state.more (snd (sync_item pc it st)) = os_state.more st"
proof -
  let ?R = "\<lambda>x y. os_state.more y = os_state.more x"
  have rm: "?R st (snd (ebind (remove_force pc n) (\<lambda>_. print_line m) st))" for st n m
    by (rule ebind_rel [where R = ?R]) (auto simp: remove_force_def os_remove_def Let_def print_line_def)
  have ins: "?R st (snd (ebind (pass_insert pc n c) (\<lambda>_. print_line m) st))" for st n c m
    by (rule ebind_rel [where R = ?R]) (auto simp: pass_insert_def cli_run_pipe_eq pass_insert_tool_def Let_def print_line_def)
  show ?thesis
  proof (cases "passname it")
    case (Inr n)
    show ?thesis
    proof (cases "format it")
      case (Inr c)
      show ?thesis
        unfolding sync_item_def using \<open>passname it = Inr n\<close> Inr
        apply (simp add: ebind_simps)
        apply (rule ebind_rel [where R = ?R])
          apply (simp add: rm)
         apply (simp add: ins)
        apply simp
        done
    qed (simp add: sync_item_def ebind_simps \<open>passname it = Inr n\<close>)
  qed (simp add: sync_item_def ebind_simps)
qed
lemma main_Some_cases:
  assumes "main w = Some (r, w')"
  obtains session w3 where
    "unlock (w\<lparr>stdout := stdout w @ banner @ [''Unlocking bitwarden'']\<rparr>) = Some (session, w3)"
    "after_unlock (pass_cli_init (environ w) (home_dir w)) session w3 = (r, w')"
    "files w3 = files w" "dirs w3 = dirs w" "bw_items w3 = bw_items w"
    "environ w3 = environ w" "home_dir w3 = home_dir w"
proof -
  let ?w2 = "w\<lparr>stdout := stdout w @ banner @ [''Unlocking bitwarden'']\<rparr>"
  from assms obtain session w3 where u: "unlock ?w2 = Some (session, w3)"
    and a: "after_unlock (pass_cli_init (environ w) (home_dir w)) session w3 = (r, w')"
    by (auto simp: main_eq split: option.splits)
  from unlock_state [OF u]
  have e: "w3 = ?w2\<lparr>stdout := stdout w3, bw_unlock_calls := bw_unlock_calls w3\<rparr>" by simp
  have "files w3 = files w" "dirs w3 = dirs w" "bw_items w3 = bw_items w"
    "environ w3 = environ w" "home_dir w3 = home_dir w"
    by (subst e, simp)+
  with u a that show ?thesis by blast
qed

lemma after_unlock_rel:
  assumes refl: "\<And>s. R s s" and trans: "\<And>x y z. R x y \<Longrightarrow> R y z \<Longrightarrow> R x z"
    and sync: "\<And>items it st. py_iter (bw_items w) = Inr items \<Longrightarrow> it \<in> set items \<Longrightarrow>
                 R st (snd (sync_item pc it st))"
    and warn: "\<And>l st. R st (snd (warn_ignored l st))"
  shows "R (w\<lparr>stdout := stdout w @ sync_lines session\<rparr>) (snd (after_unlock pc session w))"
proof -
  have rest: "R st (snd (ebind (elift (py_iter (bw_items w))) (\<lambda>items.
          ebind (eforeach (sync_item pc) items) (\<lambda>_.
          ebind (elift (py_map passname items)) (\<lambda>synced.
            warn_ignored (ignored_entries ex synced)))) st))" for ex st
  proof (cases "py_iter (bw_items w)")
    case (Inr items)
    have tail: "R s' (snd (ebind (elift (py_map passname items))
                  (\<lambda>synced. warn_ignored (ignored_entries ex synced)) s'))" for s'
      by (cases "py_map passname items") (simp_all add: ebind_simps refl warn)
    show ?thesis
      unfolding Inr ebind_simps
      by (rule ebind_rel [where R = R], rule eforeach_rel [where R = R])
         (auto simp: tail refl intro: sync [OF Inr] trans)
  qed (simp add: ebind_simps refl)
  show ?thesis
    unfolding after_unlock_eq
    by (rule ebind_rel [where R = R]) (auto simp: rest refl intro: trans)
qed

lemma after_unlock_more: "os_state.more (snd (after_unlock pc session w)) = os_state.more w"
  using after_unlock_rel [where R = "\<lambda>x y. os_state.more y = os_state.more x"
      and w = w and pc = pc and session = session]
  by (simp add: sync_item_more warn_ignored_eq)

lemma after_unlock_wf: "fs_wf w \<Longrightarrow> fs_wf (snd (after_unlock pc session w))"
  using after_unlock_rel [where R = "\<lambda>x y. fs_wf x \<longrightarrow> fs_wf y"
      and w = w and pc = pc and session = session]
  by (simp add: sync_item_wf warn_ignored_eq)

lemma after_unlock_frame:
  assumes "\<forall>items. py_iter (bw_items w) = Inr items \<longrightarrow> (\<forall>it \<in> set items. item_safe_for pc p it)"
  shows "map_of (files (snd (after_unlock pc session w))) p = map_of (files w) p"
  using after_unlock_rel [where R = "\<lambda>x y. map_of (files y) p = map_of (files x) p"
      and w = w and pc = pc and session = session] assms
  by (auto simp: sync_item_frame)

lemma after_unlock_stdout:
  "prefix (stdout w @ sync_lines session) (stdout (snd (after_unlock pc session w)))"
  using after_unlock_rel [where R = "\<lambda>x y. prefix (stdout x) (stdout y)"
      and w = w and pc = pc and session = session]
  by (auto simp: sync_item_stdout warn_ignored_eq intro: prefix_order.trans)

lemma sync_loop_files:
  assumes "eforeach (sync_item pc) items st = (Inr (), st')"
    and "fs_wf st" and "\<forall>x. \<not> has_file_above st (parse_path (pass_directory pc) @ [x])"
    and "py_map passname items = Inr names" and "py_map format items = Inr bodies"
    and "\<forall>n \<in> set names. CHR ''/'' \<notin> set n"
  shows "map_of (files st') =
           fold (\<lambda>(n, c) m. m(entry_path pc n \<mapsto> c)) (zip names bodies) (map_of (files st))"
  using assms
proof (induction items arbitrary: st names bodies)
  case Nil
  then show ?case by simp
next
  case (Cons it its)
  obtain n ns where nm: "names = n # ns" "passname it = Inr n" "py_map passname its = Inr ns"
    using py_map_ConsE [OF Cons.prems(4)] by metis
  obtain c cs where bd: "bodies = c # cs" "format it = Inr c" "py_map format its = Inr cs"
    using py_map_ConsE [OF Cons.prems(5)] by metis
  from Cons.prems(1) obtain st1 where s1: "sync_item pc it st = (Inr (), st1)"
    and rest: "eforeach (sync_item pc) its st1 = (Inr (), st')"
    by (auto simp: ebind_Inr)
  have flat: "CHR ''/'' \<notin> set n" using Cons.prems(6) nm(1) by simp
  have m1: "map_of (files st1) = (map_of (files st))(entry_path pc n \<mapsto> c)"
    by (rule sync_item_write [OF s1 nm(2) bd(2) Cons.prems(2) _ flat
          flat_not_sneaky [OF flat passname_hyphen [OF nm(2)]]])
       (use Cons.prems(3) in \<open>simp add: entry_path_def\<close>)
  have wf1: "fs_wf st1" using sync_item_wf [OF Cons.prems(2), of pc it] s1 by simp
  have above1: "\<forall>x. \<not> has_file_above st1 (parse_path (pass_directory pc) @ [x])"
    using Cons.prems(3) m1
    by (auto simp: has_file_above_dom entry_path_def strict_prefix_same_length)
  from Cons.IH [OF rest wf1 above1 nm(3) bd(3)] Cons.prems(6) nm(1) m1 bd(1)
  show ?case by simp
qed

lemma after_unlock_store:
  assumes a: "after_unlock pc session w = (Inr (), w')" and wf: "fs_wf w"
    and "py_iter (bw_items w) = Inr items"
    and "py_map passname items = Inr names" and "py_map format items = Inr bodies"
    and "\<forall>n \<in> set names. CHR ''/'' \<notin> set n"
  shows "map_of (files w') =
           fold (\<lambda>(n, c) m. m(entry_path pc n \<mapsto> c)) (zip names bodies) (map_of (files w))"
proof -
  let ?w4 = "w\<lparr>stdout := stdout w @ sync_lines session\<rparr>"
  from a assms(3,4) obtain ex s4 s5 where l4: "list_pass_names pc ?w4 = (Inr ex, s4)"
    and lp4: "eforeach (sync_item pc) items s4 = (Inr (), s5)" and fw: "files w' = files s5"
    by (auto simp: after_unlock_eq ebind_Inr ebind_simps warn_ignored_eq)
  from l4 have "s4 = ?w4" by (rule list_pass_names_state)
  with l4 lp4 have lst: "fst (list_pass_names pc ?w4) = Inr ex"
    and lp: "eforeach (sync_item pc) items ?w4 = (Inr (), s5)" by simp_all
  have wf4: "fs_wf ?w4" using wf by simp
  have "\<forall>x. \<not> has_file_above ?w4 (parse_path (pass_directory pc) @ [x])"
    using wf_dir_no_file_above [OF wf4 list_pass_names_is_dir [OF lst]] by blast
  from sync_loop_files [OF lp wf4 this assms(4,5,6)] fw show ?thesis by simp
qed

lemma entries_clear_trans:
  "entries_clear pc x y \<Longrightarrow> entries_clear pc y z \<Longrightarrow> entries_clear pc x z"
  by (simp add: entries_clear_def)

lemma entries_clear_print [simp]: "entries_clear pc st (snd (print_line l st))"
  by (simp add: entries_clear_def entry_clear_def print_line_def is_dir_def has_file_above_def)

lemma entry_clear_remove:
  assumes "entry_clear st (D @ [e])"
  shows "entry_clear (st\<lparr>files := fs_delete (D @ [x]) (files st), dirs := List.insert D (dirs st)\<rparr>) (D @ [e])"
proof -
  have "\<not> is_dir (st\<lparr>files := fs_delete (D @ [x]) (files st), dirs := List.insert D (dirs st)\<rparr>) (D @ [e])"
  proof
    assume "is_dir (st\<lparr>files := fs_delete (D @ [x]) (files st), dirs := List.insert D (dirs st)\<rparr>) (D @ [e])"
    from is_dir_remove [where st = st and p = "D @ [x]" and q = "D @ [e]"] this assms
    have "prefix (D @ [e]) D" by (simp add: entry_clear_def)
    then show False by (auto dest: prefix_length_le)
  qed
  moreover have "\<not> has_file_above (st\<lparr>files := fs_delete (D @ [x]) (files st), dirs := List.insert D (dirs st)\<rparr>) (D @ [e])"
    using assms by (auto simp: entry_clear_def has_file_above_def fs_delete_def)
  ultimately show ?thesis by (simp add: entry_clear_def)
qed

lemma entry_clear_write:
  assumes "entry_clear st (D @ [e])"
  shows "entry_clear (st\<lparr>files := fs_write (D @ [x]) c (files st)\<rparr>) (D @ [e])"
  using assms is_dir_write [where st = st and p = "D @ [x]" and q = "D @ [e]"]
  by (auto simp: entry_clear_def has_file_above_def fs_write_def fs_delete_def strict_prefix_same_length)

lemma remove_force_entries:
  assumes "CHR ''/'' \<notin> set n"
  shows "entries_clear pc st (snd (remove_force pc n st))"
proof -
  have p: "parse_path (get_file_path pc n) = parse_path (pass_directory pc) @ [n @ ''.gpg'']"
    using flat_get_file_path [OF assms] by (simp add: entry_path_def)
  then show ?thesis
    by (auto simp: entries_clear_def remove_force_def os_remove_def Let_def entry_clear_remove)
qed

lemma pass_insert_entries:
  assumes "CHR ''/'' \<notin> set n"
  shows "entries_clear pc st (snd (pass_insert pc n c st))"
  using pass_tool_path_flat [OF assms]
  by (auto simp: entries_clear_def pass_insert_def cli_run_pipe_eq pass_insert_tool_def Let_def
      entry_path_def entry_clear_write)

lemma pass_insert_returns: "\<exists>r. fst (pass_insert pc n c st) = Inr r"
  by (simp add: pass_insert_def cli_run_pipe_eq pass_insert_tool_def Let_def)

text \<open>One iteration on an item that converts, with a flat name and a clear entry path:
  it finishes, and keeps the entry paths clear.\<close>

lemma sync_item_completes:
  assumes pn: "passname it = Inr n" and fm: "format it = Inr c" and flat: "CHR ''/'' \<notin> set n"
    and nd: "entry_clear st (entry_path pc n)"
  shows "fst (sync_item pc it st) = Inr () \<and> entries_clear pc st (snd (sync_item pc it st))"
proof -
  have p: "parse_path (get_file_path pc n) = entry_path pc n" using flat by (rule flat_get_file_path)
  let ?rm = "\<lambda>st. if pass_exists pc n st
                 then ebind (remove_force pc n)
                        (\<lambda>_. print_line (''Removed existing pass entry '' @ n)) st
                 else ereturn () st"
  let ?ins = "ebind (pass_insert pc n c)
                (\<lambda>_. print_line (''Inserted '' @ nat_str (utf8_len c) @ '' bytes into '' @ n))"
  have eq: "sync_item pc it = ebind ?rm (\<lambda>_. ?ins)"
    by (simp add: sync_item_def pn fm ebind_simps)
  have rm: "fst (?rm st) = Inr ()"
    using nd p by (auto simp: entry_clear_def pass_exists_def os_path_exists_def remove_force_def
        os_remove_def Let_def ebind_def print_line_def ereturn_def)
  have ins: "fst (?ins s) = Inr ()" for s
    using pass_insert_returns [of pc n c s]
    by (auto simp: ebind_def print_line_def split: prod.split sum.split)
  obtain s1 where "?rm st = (Inr (), s1)" using rm by (cases "?rm st") auto
  then have "sync_item pc it st = ?ins s1" by (simp add: eq ebind_def)
  with ins have "fst (sync_item pc it st) = Inr ()" by simp
  moreover have "entries_clear pc st (snd (sync_item pc it st))"
    unfolding eq
  proof (rule ebind_rel [where R = "entries_clear pc"])
    show "entries_clear pc st (snd (?rm st))"
    proof (cases "pass_exists pc n st")
      case True
      have "entries_clear pc st (snd (ebind (remove_force pc n)
              (\<lambda>_. print_line (''Removed existing pass entry '' @ n)) st))"
        by (rule ebind_rel [where R = "entries_clear pc"])
           (auto simp: remove_force_entries [OF flat] elim: entries_clear_trans)
      with True show ?thesis by simp
    qed (simp add: ereturn_def entries_clear_def)
    show "entries_clear pc s' (snd (?ins s'))" for s'
      by (rule ebind_rel [where R = "entries_clear pc"])
         (auto simp: pass_insert_entries [OF flat] elim: entries_clear_trans)
  qed (rule entries_clear_trans)
  ultimately show ?thesis ..
qed

lemma sync_loop_completes:
  assumes "\<And>it. it \<in> set items \<Longrightarrow> \<exists>n c. passname it = Inr n \<and> format it = Inr c
             \<and> CHR ''/'' \<notin> set n \<and> entry_clear st (entry_path pc n)"
  shows "fst (eforeach (sync_item pc) items st) = Inr ()"
  using assms
proof (induction items arbitrary: st)
  case Nil
  then show ?case by (simp add: ereturn_def)
next
  case (Cons it items)
  from Cons.prems [of it] obtain n c where pn: "passname it = Inr n" and fm: "format it = Inr c"
    and flat: "CHR ''/'' \<notin> set n" and nd: "entry_clear st (entry_path pc n)" by auto
  obtain st1 where s1: "sync_item pc it st = (Inr (), st1)" and keep: "entries_clear pc st st1"
    using sync_item_completes [OF pn fm flat nd] by (cases "sync_item pc it st") auto
  have "fst (eforeach (sync_item pc) items st1) = Inr ()"
  proof (rule Cons.IH)
    fix it' assume "it' \<in> set items"
    with Cons.prems [of it'] keep show "\<exists>n c. passname it' = Inr n \<and> format it' = Inr c
             \<and> CHR ''/'' \<notin> set n \<and> entry_clear st1 (entry_path pc n)"
      by (auto simp: entries_clear_def entry_path_def)
  qed
  with s1 show ?case by (simp add: ebind_def split: prod.split sum.split)
qed

lemma is_report_inserted [simp]: "is_report (inserted_line nc)"
  by (simp add: is_report_def inserted_line_def)

lemma sync_item_out:
  assumes "sync_item pc item st = (Inr (), st')" "passname item = Inr n" "format item = Inr c"
  shows "stdout st' = stdout st @ (if pass_exists pc n st then [''Removed existing pass entry '' @ n] else [])
                      @ [inserted_line (n, c)]
         \<and> (pass_exists pc n st \<longrightarrow> is_file st (parse_path (get_file_path pc n)))"
proof -
  from assms obtain s1 where s1: "(if pass_exists pc n st
        then ebind (remove_force pc n) (\<lambda>_. print_line (''Removed existing pass entry '' @ n)) st
        else ereturn () st) = (Inr (), s1)"
    and s2: "ebind (pass_insert pc n c)
        (\<lambda>_. print_line (''Inserted '' @ nat_str (utf8_len c) @ '' bytes into '' @ n)) s1 = (Inr (), st')"
    by (auto simp: sync_item_def ebind_Inr ebind_simps)
  have rm: "stdout s1 = stdout st @ (if pass_exists pc n st then [''Removed existing pass entry '' @ n] else [])
            \<and> (pass_exists pc n st \<longrightarrow> is_file st (parse_path (get_file_path pc n)))"
  proof (cases "pass_exists pc n st")
    case True
    with s1 obtain s0 where r: "remove_force pc n st = (Inr (), s0)"
      and "s1 = snd (print_line (''Removed existing pass entry '' @ n) s0)"
      by (auto simp: ebind_Inr print_line_def)
    moreover from r have "is_file st (parse_path (get_file_path pc n))"
      by (auto simp: remove_force_def os_remove_def Let_def split: if_splits)
    ultimately show ?thesis using True remove_force_stdout [of pc n st] by simp
  next
    case False
    with s1 show ?thesis by (simp add: ereturn_def)
  qed
  moreover from s2 obtain r s3 where "pass_insert pc n c s1 = (Inr r, s3)"
    and "st' = snd (print_line (inserted_line (n, c)) s3)"
    by (auto simp: ebind_Inr print_line_def inserted_line_def)
  then have "stdout st' = stdout s1 @ [inserted_line (n, c)]"
    using pass_insert_stdout [of pc n c s1] by simp
  ultimately show ?thesis by simp
qed

lemma sync_item_log:
  assumes "sync_item pc item st = (Inr (), st')" "passname item = Inr n" "format item = Inr c"
  shows "\<exists>rm. stdout st' = stdout st @ rm @ [inserted_line (n, c)] \<and> filter is_report rm = []"
  using sync_item_out [OF assms] by (auto simp: is_report_def)

lemma entry_path_inj: "entry_path pc m = entry_path pc n \<longleftrightarrow> m = n"
  by (simp add: entry_path_def)

text \<open>An item of a flat name leaves the entry of every other name as it was.\<close>

lemma sync_item_other_entry:
  assumes "passname it = Inr n" "CHR ''/'' \<notin> set n" "m \<noteq> n"
  shows "map_of (files (snd (sync_item pc it st))) (entry_path pc m) = map_of (files st) (entry_path pc m)"
proof (rule sync_item_frame)
  from assms(2) have "n = [] \<or> hd n \<noteq> CHR ''/''" by (cases n) auto
  with assms show "item_safe_for pc (entry_path pc m) it"
    by (simp add: item_safe_for_def pass_tool_path_flat entry_path_inj)
qed

lemma sync_loop_log:
  assumes "eforeach (sync_item pc) items st = (Inr (), st')"
    and "py_map passname items = Inr names" and "py_map format items = Inr bodies"
  shows "\<exists>out. stdout st' = stdout st @ out \<and> filter is_report out = map inserted_line (zip names bodies)"
  using assms
proof (induction items arbitrary: st names bodies)
  case Nil
  then show ?case by simp
next
  case (Cons it items)
  from Cons.prems(2) obtain n ns where n: "names = n # ns" "passname it = Inr n"
    "py_map passname items = Inr ns" by (rule py_map_ConsE)
  from Cons.prems(3) obtain c cs where c: "bodies = c # cs" "format it = Inr c"
    "py_map format items = Inr cs" by (rule py_map_ConsE)
  from Cons.prems(1) obtain s1 where s1: "sync_item pc it st = (Inr (), s1)"
    and rest: "eforeach (sync_item pc) items s1 = (Inr (), st')"
    by (auto simp: ebind_Inr)
  from sync_item_log [OF s1 n(2) c(2)] obtain rm where
    "stdout s1 = stdout st @ rm @ [inserted_line (n, c)]" "filter is_report rm = []" by blast
  moreover from Cons.IH [OF rest n(3) c(3)] obtain out where
    "stdout st' = stdout s1 @ out" "filter is_report out = map inserted_line (zip ns cs)" by blast
  ultimately show ?case using n(1) c(1)
    by (intro exI [of _ "rm @ [inserted_line (n, c)] @ out"])
       simp
qed

lemma sync_loop_out:
  assumes "eforeach (sync_item pc) items st = (Inr (), st')"
    and "py_map passname items = Inr names" and "py_map format items = Inr bodies"
    and "distinct names" and "\<forall>n \<in> set names. CHR ''/'' \<notin> set n"
  shows "stdout st' = stdout st @ concat (map (item_log pc st) (zip names bodies))"
  using assms
proof (induction items arbitrary: st names bodies)
  case Nil
  then show ?case by simp
next
  case (Cons it items)
  from Cons.prems(2) obtain n ns where n: "names = n # ns" "passname it = Inr n"
    "py_map passname items = Inr ns" by (rule py_map_ConsE)
  from Cons.prems(3) obtain c cs where c: "bodies = c # cs" "format it = Inr c"
    "py_map format items = Inr cs" by (rule py_map_ConsE)
  from Cons.prems(1) obtain s1 where s1: "sync_item pc it st = (Inr (), s1)"
    and rest: "eforeach (sync_item pc) items s1 = (Inr (), st')"
    by (auto simp: ebind_Inr)
  have flat: "CHR ''/'' \<notin> set n" using Cons.prems(5) n(1) by simp
  have p: "parse_path (get_file_path pc n) = entry_path pc n" using flat by (rule flat_get_file_path)
  from sync_item_out [OF s1 n(2) c(2)] p
  have first: "stdout s1 = stdout st @ item_log pc st (n, c)"
    by (auto simp: item_log_def pass_exists_def os_path_exists_def)
  have same: "item_log pc s1 nc = item_log pc st nc" if "nc \<in> set (zip ns cs)" for nc
  proof -
    from that have "fst nc \<in> set ns" using set_zip_leftD [of "fst nc" "snd nc" ns cs] by simp
    with Cons.prems(4) n(1) have "fst nc \<noteq> n" by auto
    from sync_item_other_entry [OF n(2) flat this, of pc st] s1
    show ?thesis by (simp add: item_log_def is_file_map_of)
  qed
  from Cons.IH [OF rest n(3) c(3)] Cons.prems(4,5) n(1)
  have "stdout st' = stdout s1 @ concat (map (item_log pc s1) (zip ns cs))" by simp
  also have "map (item_log pc s1) (zip ns cs) = map (item_log pc st) (zip ns cs)"
    using same by simp
  finally show ?case using first n(1) c(1) by simp
qed

end
