(* ===== verification/EntryBody.thy ===== *)
theory EntryBody
  imports BWItem
begin

text \<open>
  The entry body as the specification describes it (section 3, ``Entry Body''): an
  ordered list of labelled fields, the name, the type-specific fields, the custom
  fields numbered from 1, the attachment fields, the notes. The reference builds that
  list by concatenation and by maps over \<open>enumerate\<close>; the code of \<open>BWItem.format\<close>
  builds it by assignments into one \<open>dict\<close>, where a repeated label would overwrite
  an earlier field in place. The main lemma, \<open>format_dict_refines\<close>, says the two agree
  on every item, errors included: no label is ever written twice. Its proof rests on
  the labels being pairwise distinct, which needs the decimal rendering of indices to
  be injective and followed by a non-digit.
\<close>

section \<open>Reference\<close>

definition url_key :: "nat \<Rightarrow> string" where
  "url_key n = ''URL '' @ nat_str n"

definition url_entry :: "nat \<times> json \<Rightarrow> (string \<times> json) py" where
  "url_entry iu = sbind (getkey (snd iu) ''uri'') (\<lambda>v. Inr (url_key (fst iu + 1), v))"

definition url_entries :: "json list \<Rightarrow> pydict py" where
  "url_entries us = py_map url_entry (enumerate 0 us)"

definition login_entries :: "json \<Rightarrow> pydict py" where
  "login_entries login =
     sbind (getkey login ''username'') (\<lambda>username.
     sbind (getkey login ''password'') (\<lambda>password.
     sbind (getkey login ''totp'') (\<lambda>totp.
     sbind (py_get login ''uris'' (JList [])) (\<lambda>uris.
     sbind (py_len uris) (\<lambda>n.
     sbind (if n = 1 then
              sbind (py_getitem uris (JInt 0)) (\<lambda>u. sbind (getkey u ''uri'') (\<lambda>v. Inr [(''URL'', v)]))
            else sbind (py_iter uris) url_entries) (\<lambda>urls.
       Inr ([(''Username'', username), (''Password'', password), (''TOTP'', totp)] @ urls)))))))"

definition card_entries :: "json \<Rightarrow> pydict py" where
  "card_entries c =
     sbind (getkey c ''cardholderName'') (\<lambda>holder.
     sbind (getkey c ''brand'') (\<lambda>brand.
     sbind (getkey c ''number'') (\<lambda>number.
     sbind (getkey c ''expMonth'') (\<lambda>month.
     sbind (getkey c ''expYear'') (\<lambda>year.
     sbind (getkey c ''code'') (\<lambda>code.
       Inr [(''Card Holder Name'', holder), (''Card Brand'', brand), (''Card Number'', number),
            (''Card Expire MM/YYYY'', JStr (py_str month @ ''/'' @ py_str year)),
            (''Card Security Code'', code)]))))))"

definition field_entry :: "json \<Rightarrow> string \<times> string \<Rightarrow> (string \<times> json) py" where
  "field_entry obj lk = sbind (getkey obj (snd lk)) (\<lambda>v. Inr (fst lk, v))"

definition identity_entries :: "json \<Rightarrow> pydict py" where
  "identity_entries obj = py_map (field_entry obj) identity_fields"

definition typed_entries :: "string \<Rightarrow> json \<Rightarrow> pydict py" where
  "typed_entries ty item =
     (if ty = ''login'' then sbind (getkey item ''login'') login_entries
      else if ty = ''card'' then sbind (getkey item ''card'') card_entries
      else if ty = ''identity'' then sbind (getkey item ''identity'') identity_entries
      else Inr [])"

definition custom_entry :: "nat \<times> json \<Rightarrow> (string \<times> json) py" where
  "custom_entry jf =
     sbind (getkey (snd jf) ''name'') (\<lambda>name. sbind (getkey (snd jf) ''value'') (\<lambda>v.
       Inr (custom_key (fst jf + 1) (py_str name), v)))"

definition custom_entries :: "json list \<Rightarrow> pydict py" where
  "custom_entries fs = py_map custom_entry (enumerate 0 fs)"

definition attachment_group :: "nat \<times> json \<Rightarrow> pydict py" where
  "attachment_group ia =
     sbind (getkey (snd ia) ''fileName'') (\<lambda>fname.
     sbind (getkey (snd ia) ''sizeName'') (\<lambda>size.
     sbind (getkey (snd ia) ''url'') (\<lambda>url.
       Inr [(attachment_key (fst ia) ''File Name'', fname),
            (attachment_key (fst ia) ''File Size'', size),
            (attachment_key (fst ia) ''URL'', url)])))"

definition attachment_entries :: "json list \<Rightarrow> pydict py" where
  "attachment_entries atts =
     sbind (py_map attachment_group (enumerate 0 atts)) (\<lambda>groups. Inr (concat groups))"

definition format_entries :: "json \<Rightarrow> pydict py" where
  "format_entries item =
     sbind (item_type item) (\<lambda>ty.
     sbind (getkey item ''name'') (\<lambda>name.
     sbind (typed_entries ty item) (\<lambda>typed.
     sbind (py_get item ''fields'' (JList [])) (\<lambda>fields.
     sbind (py_iter fields) (\<lambda>fields.
     sbind (custom_entries fields) (\<lambda>customs.
     sbind (py_get item ''attachments'' (JList [])) (\<lambda>atts.
     sbind (py_iter atts) (\<lambda>atts.
     sbind (attachment_entries atts) (\<lambda>attachments.
     sbind (getkey item ''notes'') (\<lambda>notes.
       Inr ([(''Name'', name)] @ typed @ customs @ attachments @ [(''Notes'', notes)])))))))))))"

text \<open>The labels of the type-specific fields never start with the first letter of a
  custom field, an attachment field or the name and notes fields.\<close>

definition typed_label :: "string \<Rightarrow> bool" where
  "typed_label k \<longleftrightarrow> k \<noteq> [] \<and> hd k \<noteq> CHR ''['' \<and> hd k \<noteq> CHR ''A'' \<and> hd k \<noteq> CHR ''N''"

section \<open>The code computes the reference\<close>


lemma not_digit_sep [simp]: "\<not> is_digit CHR '']''" "\<not> is_digit CHR '' ''"
  by (simp_all add: is_digit_def)

lemma custom_key_eq: "custom_key m a = custom_key n b \<longleftrightarrow> m = n \<and> a = b"
  by (simp add: custom_key_def nat_str_prefix_eq)

lemma attachment_key_eq: "attachment_key m x = attachment_key n y \<longleftrightarrow> m = n \<and> x = y"
  by (simp add: attachment_key_def nat_str_prefix_eq)

lemma url_key_eq: "url_key m = url_key n \<longleftrightarrow> m = n"
  by (simp add: url_key_def nat_str_inj)

lemma add_custom_fields_append:
  assumes "\<forall>k \<in> set (map fst d). \<forall>m s. k = custom_key m s \<longrightarrow> m \<le> i"
  shows "add_custom_fields d i fs = sbind (py_map custom_entry (enumerate i fs)) (\<lambda>e. Inr (d @ e))"
  using assms
proof (induction fs arbitrary: d i)
  case Nil
  then show ?case by simp
next
  case (Cons f fs)
  show ?case
  proof (cases "getkey f ''name''")
    case (Inl e)
    then show ?thesis by (simp add: custom_entry_def)
  next
    case (Inr name)
    show ?thesis
    proof (cases "getkey f ''value''")
      case (Inl e)
      with Inr show ?thesis by (simp add: custom_entry_def)
    next
      case (Inr v)
      let ?k = "custom_key (i + 1) (py_str name)"
      have fresh: "?k \<notin> set (map fst d)" using Cons.prems by force
      have "\<forall>k \<in> set (map fst (d @ [(?k, v)])). \<forall>m s. k = custom_key m s \<longrightarrow> m \<le> Suc i"
        using Cons.prems by (auto simp: custom_key_eq)
      note IH = Cons.IH [OF this]
      from IH fresh \<open>getkey f ''name'' = Inr name\<close> Inr show ?thesis
        by (simp add: custom_entry_def)
    qed
  qed
qed

lemma add_attachments_append:
  assumes "\<forall>k \<in> set (map fst d). \<forall>m s. k = attachment_key m s \<longrightarrow> m < i"
  shows "add_attachments d i atts =
           sbind (py_map attachment_group (enumerate i atts)) (\<lambda>gs. Inr (d @ concat gs))"
  using assms
proof (induction atts arbitrary: d i)
  case Nil
  then show ?case by simp
next
  case (Cons a atts)
  show ?case
  proof (cases "getkey a ''fileName''")
    case (Inl e)
    then show ?thesis by (simp add: attachment_group_def)
  next
    case (Inr fname)
    show ?thesis
    proof (cases "getkey a ''sizeName''")
      case (Inl e)
      with Inr show ?thesis by (simp add: attachment_group_def)
    next
      case (Inr size)
      show ?thesis
      proof (cases "getkey a ''url''")
        case (Inl e)
        with \<open>getkey a ''fileName'' = Inr fname\<close> Inr show ?thesis
          by (simp add: attachment_group_def)
      next
        case (Inr url)
        let ?g = "[(attachment_key i ''File Name'', fname), (attachment_key i ''File Size'', size),
                   (attachment_key i ''URL'', url)]"
        have fresh: "attachment_key i s \<notin> set (map fst d)" for s
          using Cons.prems by force
        have "\<forall>k \<in> set (map fst (d @ ?g)). \<forall>m s. k = attachment_key m s \<longrightarrow> m < Suc i"
          using Cons.prems by (auto simp: attachment_key_eq)
        note IH = Cons.IH [OF this]
        from IH fresh \<open>getkey a ''fileName'' = Inr fname\<close> \<open>getkey a ''sizeName'' = Inr size\<close> Inr
        show ?thesis
          by (simp add: attachment_group_def attachment_key_eq)
      qed
    qed
  qed
qed

lemma add_urls_append:
  assumes "\<forall>k \<in> set (map fst d). \<forall>m. k = url_key m \<longrightarrow> m \<le> i"
  shows "add_urls d i us = sbind (py_map url_entry (enumerate i us)) (\<lambda>e. Inr (d @ e))"
  using assms
proof (induction us arbitrary: d i)
  case Nil
  then show ?case by simp
next
  case (Cons u us)
  show ?case
  proof (cases "getkey u ''uri''")
    case (Inl e)
    then show ?thesis by (simp add: url_entry_def)
  next
    case (Inr v)
    have fresh: "url_key (i + 1) \<notin> set (map fst d)" using Cons.prems by force
    have "\<forall>k \<in> set (map fst (d @ [(url_key (i + 1), v)])). \<forall>m. k = url_key m \<longrightarrow> m \<le> Suc i"
      using Cons.prems by (auto simp: url_key_eq)
    note IH = Cons.IH [OF this]
    from IH fresh Inr show ?thesis
      by (simp add: url_entry_def url_key_def)
  qed
qed

lemma set_fields_append:
  assumes "distinct (map fst lks)" "set (map fst lks) \<inter> set (map fst d) = {}"
  shows "set_fields d obj lks = sbind (py_map (field_entry obj) lks) (\<lambda>e. Inr (d @ e))"
  using assms
proof (induction lks arbitrary: d)
  case Nil
  then show ?case by simp
next
  case (Cons lk lks)
  show ?case
  proof (cases "getkey obj (snd lk)")
    case (Inl e)
    then show ?thesis by (simp add: field_entry_def)
  next
    case (Inr v)
    from Cons.prems have "fst lk \<notin> set (map fst d)" by auto
    moreover from Cons.prems have "set (map fst lks) \<inter> set (map fst (d @ [(fst lk, v)])) = {}"
      by auto
    ultimately show ?thesis
      using Cons.IH [of "d @ [(fst lk, v)]"] Cons.prems(1) Inr by (simp add: field_entry_def)
  qed
qed

lemma url_entries_keys:
  "url_entries us = Inr e \<Longrightarrow> map fst e = map (\<lambda>i. url_key (Suc i)) [0..<length us]"
  using py_map_Inr_keys [of url_entry "\<lambda>x. url_key (Suc (fst x))"]
  by (auto simp: url_entries_def url_entry_def sbind_Inr_iff
      map_enumerate [of "\<lambda>i. url_key (Suc i)"])

lemma url_entries_distinct: "url_entries us = Inr e \<Longrightarrow> distinct (map fst e)"
  by (auto simp: url_entries_keys distinct_map inj_on_def url_key_eq)

lemma url_key_not_login [simp]:
  "url_key n \<noteq> ''Username''" "url_key n \<noteq> ''Password''" "url_key n \<noteq> ''TOTP''"
  "url_key n \<noteq> ''URL''"
  "''Username'' \<noteq> url_key n" "''Password'' \<noteq> url_key n" "''TOTP'' \<noteq> url_key n"
  by (simp_all add: url_key_def)

lemma format_login_refines: "format_login l = login_entries l"
proof -
  have d0: "pydict_set (pydict_set (pydict_set [] ''Username'' u) ''Password'' p) ''TOTP'' t =
            [(''Username'', u), (''Password'', p), (''TOTP'', t)]" for u p t
    by simp
  have urls: "add_urls [(''Username'', u), (''Password'', p), (''TOTP'', t)] 0 us =
              sbind (url_entries us) (\<lambda>e. Inr ([(''Username'', u), (''Password'', p), (''TOTP'', t)] @ e))"
    for u p t us
    by (subst add_urls_append) (auto simp: url_entries_def)
  show ?thesis
    unfolding format_login_def login_entries_def d0
    by (auto simp: Let_def urls intro!: sbind_cong)
qed

lemma format_card_refines: "format_card c = card_entries c"
  by (simp add: format_card_def card_entries_def)

lemma identity_labels_distinct: "distinct (map fst identity_fields)"
  by (simp add: identity_fields_def)

lemma format_identity_refines: "format_identity obj = identity_entries obj"
  using set_fields_append [OF identity_labels_distinct, of "[]" obj]
  by (simp add: format_identity_def identity_entries_def)

lemma identity_entries_keys:
  "identity_entries obj = Inr e \<Longrightarrow> map fst e = map fst identity_fields"
  using py_map_Inr_keys [of "field_entry obj" fst]
  by (auto simp: identity_entries_def field_entry_def sbind_Inr_iff)

lemma login_entries_keys:
  assumes "login_entries l = Inr e"
  shows "distinct (map fst e) \<and> (\<forall>k \<in> set (map fst e). typed_label k)"
proof -
  from assms obtain u p t urls where e: "e = [(''Username'', u), (''Password'', p), (''TOTP'', t)] @ urls"
    and urls: "(\<exists>v. urls = [(''URL'', v)]) \<or> (\<exists>us. url_entries us = Inr urls)"
    by (auto simp: login_entries_def sbind_Inr_iff split: if_splits; blast)
  from urls show ?thesis
  proof
    assume "\<exists>v. urls = [(''URL'', v)]"
    with e show ?thesis by (auto simp: typed_label_def)
  next
    assume "\<exists>us. url_entries us = Inr urls"
    then obtain us where us: "url_entries us = Inr urls" ..
    from url_entries_keys [OF us]
    have "set (map fst urls) = (\<lambda>i. url_key (Suc i)) ` {0..<length us}"
      by (metis set_map set_upt)
    then have "\<forall>k \<in> set (map fst urls). \<exists>n. k = url_key n" by auto
    with e url_entries_distinct [OF us] show ?thesis
      by (auto simp: typed_label_def url_key_def)
  qed
qed


lemma card_entries_keys:
  "card_entries c = Inr t \<Longrightarrow>
     map fst t = [''Card Holder Name'', ''Card Brand'', ''Card Number'', ''Card Expire MM/YYYY'',
                  ''Card Security Code'']"
  by (auto simp: card_entries_def sbind_def split: sum.splits)

lemma typed_entries_keys:
  assumes "typed_entries ty item = Inr t"
  shows "distinct (map fst t) \<and> (\<forall>k \<in> set (map fst t). typed_label k)"
proof (cases "ty = ''login''")
  case True
  with assms obtain l where "login_entries l = Inr t"
    by (auto simp: typed_entries_def sbind_Inr_iff)
  then show ?thesis by (rule login_entries_keys)
next
  case not_login: False
  show ?thesis
  proof (cases "ty = ''card''")
    case True
    with assms not_login obtain c where "card_entries c = Inr t"
      by (auto simp: typed_entries_def sbind_Inr_iff)
    then have "map fst t = [''Card Holder Name'', ''Card Brand'', ''Card Number'',
                            ''Card Expire MM/YYYY'', ''Card Security Code'']"
      by (rule card_entries_keys)
    then show ?thesis by (simp add: typed_label_def)
  next
    case not_card: False
    show ?thesis
    proof (cases "ty = ''identity''")
      case True
      with assms not_login not_card obtain obj where "identity_entries obj = Inr t"
        by (auto simp: typed_entries_def sbind_Inr_iff)
      then have "map fst t = map fst identity_fields" by (rule identity_entries_keys)
      then show ?thesis by (simp add: identity_fields_def typed_label_def)
    next
      case False
      with assms not_login not_card show ?thesis by (simp add: typed_entries_def)
    qed
  qed
qed

lemma pydict_update_name:
  "distinct (map fst t) \<and> (\<forall>k \<in> set (map fst t). typed_label k) \<Longrightarrow>
     pydict_update [(''Name'', name)] t = (''Name'', name) # t"
  by (subst pydict_update_fresh) (force simp: typed_label_def)+

lemma format_typed_refines:
  "format_typed ty item [(''Name'', name)] =
     sbind (typed_entries ty item) (\<lambda>t. Inr ((''Name'', name) # t))"
proof -
  have login: "sbind (format_login l) (\<lambda>e. Inr (pydict_update [(''Name'', name)] e)) =
                 sbind (login_entries l) (\<lambda>t. Inr ((''Name'', name) # t))" for l
    unfolding format_login_refines
    by (rule sbind_cong) (simp add: pydict_update_name login_entries_keys)
  have card: "sbind (format_card c) (\<lambda>e. Inr (pydict_update [(''Name'', name)] e)) =
                 sbind (card_entries c) (\<lambda>t. Inr ((''Name'', name) # t))" for c
    unfolding format_card_refines
    by (rule sbind_cong) (simp add: pydict_update_name card_entries_keys typed_label_def)
  have ident: "sbind (format_identity obj) (\<lambda>e. Inr (pydict_update [(''Name'', name)] e)) =
                 sbind (identity_entries obj) (\<lambda>t. Inr ((''Name'', name) # t))" for obj
    unfolding format_identity_refines
    by (rule sbind_cong)
      (simp add: pydict_update_name identity_entries_keys identity_fields_def typed_label_def)
  show ?thesis
    by (simp add: format_typed_def typed_entries_def login card ident)
qed

lemma custom_entries_keys:
  "custom_entries fs = Inr cs \<Longrightarrow> \<forall>kv \<in> set cs. \<exists>m s. fst kv = custom_key m s"
  unfolding custom_entries_def
  by (erule py_map_Inr_all) (auto simp: custom_entry_def sbind_Inr_iff; blast)

lemma attachment_entries_keys:
  "attachment_entries atts = Inr gs \<Longrightarrow> \<forall>kv \<in> set gs. \<exists>m s. fst kv = attachment_key m s"
proof -
  assume "attachment_entries atts = Inr gs"
  then obtain groups where g: "py_map attachment_group (enumerate 0 atts) = Inr groups"
    and gs: "gs = concat groups"
    by (auto simp: attachment_entries_def sbind_Inr_iff)
  from g have "\<forall>grp \<in> set groups. \<forall>kv \<in> set grp. \<exists>m s. fst kv = attachment_key m s"
    by (rule py_map_Inr_all) (auto simp: attachment_group_def sbind_Inr_iff; blast)
  with gs show ?thesis by auto
qed

lemma key_classes [simp]:
  "custom_key m s \<noteq> attachment_key n x"
  "custom_key m s \<noteq> ''Name''" "custom_key m s \<noteq> ''Notes''"
  "attachment_key n x \<noteq> ''Name''" "attachment_key n x \<noteq> ''Notes''"
  "''Name'' \<noteq> custom_key m s" "''Notes'' \<noteq> custom_key m s"
  "''Name'' \<noteq> attachment_key n x" "''Notes'' \<noteq> attachment_key n x"
  "typed_label k \<Longrightarrow> k \<noteq> custom_key m s"
  "typed_label k \<Longrightarrow> k \<noteq> attachment_key n x"
  "typed_label k \<Longrightarrow> k \<noteq> ''Notes''"
  by (auto simp: custom_key_def attachment_key_def typed_label_def)

lemma format_dict_refines: "format_dict item = format_entries item"
proof -
  have C: "add_custom_fields ((''Name'', n) # t) 0 fs =
             sbind (custom_entries fs) (\<lambda>cs. Inr ((''Name'', n) # t @ cs))"
    if "typed_entries ty item = Inr t" for ty n t fs
    using typed_entries_keys [OF that]
    by (subst add_custom_fields_append) (auto simp: custom_entries_def)
  have A: "add_attachments ((''Name'', n) # t @ cs) 0 atts =
             sbind (attachment_entries atts) (\<lambda>gs. Inr ((''Name'', n) # t @ cs @ gs))"
    if "typed_entries ty item = Inr t" "custom_entries fs = Inr cs" for ty n t fs cs atts
  proof -
    have "\<forall>k \<in> set (map fst ((''Name'', n) # t @ cs)). \<forall>m s. k = attachment_key m s \<longrightarrow> m < 0"
    proof (intro ballI allI impI)
      fix k m s
      assume k: "k \<in> set (map fst ((''Name'', n) # t @ cs))" and eq: "k = attachment_key m s"
      from k consider "k = ''Name''" | "k \<in> set (map fst t)" | "k \<in> set (map fst cs)"
        by auto
      then show "m < 0"
      proof cases
        case 1
        with eq show ?thesis by simp
      next
        case 2
        with typed_entries_keys [OF that(1)] have "typed_label k" by blast
        with eq show ?thesis by simp
      next
        case 3
        with custom_entries_keys [OF that(2)] obtain m' s' where "k = custom_key m' s'"
          by auto
        with eq show ?thesis by simp
      qed
    qed
    then show ?thesis by (simp add: add_attachments_append attachment_entries_def)
  qed
  have N: "pydict_set ((''Name'', n) # t @ cs @ gs) ''Notes'' v =
             (''Name'', n) # t @ cs @ gs @ [(''Notes'', v)]"
    if "typed_entries ty item = Inr t" "custom_entries fs = Inr cs"
       "attachment_entries atts = Inr gs" for ty n t fs cs atts gs v
  proof -
    have "\<not> typed_label ''Notes''" by (simp add: typed_label_def)
    with typed_entries_keys [OF that(1)] have "''Notes'' \<notin> set (map fst t)" by blast
    with custom_entries_keys [OF that(2)] attachment_entries_keys [OF that(3)] show ?thesis
      by (subst pydict_set_fresh) auto
  qed
  show ?thesis
    unfolding format_dict_def format_entries_def
    by (auto simp: format_typed_refines C A N intro!: sbind_cong)
qed

lemma py_map_nth:
  "py_map f xs = Inr ys \<Longrightarrow> length ys = length xs \<and> (\<forall>i < length xs. f (xs ! i) = Inr (ys ! i))"
proof (induction xs arbitrary: ys)
  case Nil
  then show ?case by simp
next
  case (Cons x xs)
  then obtain y ys' where "f x = Inr y" "py_map f xs = Inr ys'" "ys = y # ys'"
    by (auto simp: sbind_Inr_iff)
  with Cons.IH show ?case by (auto simp: nth_Cons split: nat.splits)
qed

lemma url_entries_values:
  "py_map url_entry (enumerate n us) =
     sbind (py_map (\<lambda>u. getkey u ''uri'') us)
       (\<lambda>vs. Inr (zip (map (\<lambda>i. url_key (Suc i)) [n..<n + length us]) vs))"
proof (induction us arbitrary: n)
  case Nil
  then show ?case by simp
next
  case (Cons u us)
  have e: "url_entry (n, u) = sbind (getkey u ''uri'') (\<lambda>v. Inr (url_key (Suc n), v))"
    by (simp add: url_entry_def)
  show ?case
    by (cases "getkey u ''uri''") (simp_all add: e Cons.IH upt_conv_Cons del: upt_Suc)
qed

text \<open>C1: the text \<open>format\<close> returns is the reference list of fields with the
  fields of value \<open>None\<close> left out, one \<open>label: value\<close> line each, in order, and a
  final newline; an item the reference rejects raises the same exception.\<close>

theorem format_body_spec:
  "format item =
     sbind (format_entries item)
       (\<lambda>es. Inr (py_join newline (map render_line (filter (\<lambda>kv. snd kv \<noteq> JNull) es)) @ newline))"
  by (simp add: format_def body_lines_def format_dict_refines)

text \<open>C13: a login with exactly one URI gets one field labelled \<open>URL\<close>; with any
  other number of URIs they are labelled \<open>URL 1\<close>, \<open>URL 2\<close>, \dots in input order;
  before them come the user name, the password and the one-time code.\<close>

theorem login_url_labels:
  assumes "format_login l = Inr d" and "py_get l ''uris'' (JList []) = Inr (JList us)"
    and "py_map (\<lambda>u. getkey u ''uri'') us = Inr vs"
  shows "map fst (take 3 d) = [''Username'', ''Password'', ''TOTP'']
         \<and> drop 3 d = zip (if length us = 1 then [''URL'']
                           else map (\<lambda>i. ''URL '' @ nat_str (Suc i)) [0..<length us]) vs"
proof -
  from assms(1) have le: "login_entries l = Inr d" by (simp add: format_login_refines)
  then obtain u p t urls where d: "d = [(''Username'', u), (''Password'', p), (''TOTP'', t)] @ urls"
    and urls: "(if length us = 1 then
                 sbind (py_getitem (JList us) (JInt 0)) (\<lambda>x. sbind (getkey x ''uri'') (\<lambda>v. Inr [(''URL'', v)]))
               else sbind (py_iter (JList us)) url_entries) = Inr urls"
    using assms(2) by (auto simp: login_entries_def sbind_Inr_iff)
  show ?thesis
  proof (cases "length us = 1")
    case True
    then obtain x where us: "us = [x]" by (cases us) auto
    with assms(3) obtain v where "getkey x ''uri'' = Inr v" "vs = [v]"
      by (auto simp: sbind_Inr_iff)
    with urls True us d show ?thesis by (auto simp: sbind_Inr_iff py_seq_index_def)
  next
    case False
    with urls have "url_entries us = Inr urls" by simp
    with assms(3) have "urls = zip (map (\<lambda>i. url_key (Suc i)) [0..<length us]) vs"
      by (simp add: url_entries_def url_entries_values)
    with False d show ?thesis by (simp add: url_key_def)
  qed
qed

theorem login_url_labels_witness:
  "format_login (JObj [(''username'', JStr ''me''), (''password'', JNull), (''totp'', JNull),
       (''uris'', JList [JObj [(''uri'', JStr ''a'')], JObj [(''uri'', JStr ''b'')]])]) =
     Inr [(''Username'', JStr ''me''), (''Password'', JNull), (''TOTP'', JNull),
          (''URL 1'', JStr ''a''), (''URL 2'', JStr ''b'')]
   \<and> map fst (take 3 [(''Username'', JStr ''me''), (''Password'', JNull), (''TOTP'', JNull),
          (''URL 1'', JStr ''a''), (''URL 2'', JStr ''b'')]) = [''Username'', ''Password'', ''TOTP'']
   \<and> drop 3 [(''Username'', JStr ''me''), (''Password'', JNull), (''TOTP'', JNull),
          (''URL 1'', JStr ''a''), (''URL 2'', JStr ''b'')] =
       zip (if length [JObj [(''uri'', JStr ''a'')], JObj [(''uri'', JStr ''b'')]] = 1 then [''URL'']
            else map (\<lambda>i. ''URL '' @ nat_str (Suc i))
                   [0..<length [JObj [(''uri'', JStr ''a'')], JObj [(''uri'', JStr ''b'')]]])
         [JStr ''a'', JStr ''b'']"
proof -
  have h: "format_login (JObj [(''username'', JStr ''me''), (''password'', JNull), (''totp'', JNull),
       (''uris'', JList [JObj [(''uri'', JStr ''a'')], JObj [(''uri'', JStr ''b'')]])]) =
     Inr [(''Username'', JStr ''me''), (''Password'', JNull), (''TOTP'', JNull),
          (''URL 1'', JStr ''a''), (''URL 2'', JStr ''b'')]" by code_simp
  show ?thesis
    by (rule conjI [OF h], rule login_url_labels [OF h]) simp_all
qed


text \<open>C26: a card whose expiry month and year are both \<open>None\<close> still gets an expiry
  line, \<open>None/None\<close>: the formatter joins the two values into one string before the
  \<open>None\<close> filter sees them.\<close>

theorem card_expiry_none:
  assumes "format_card c = Inr d"
    and "getkey c ''expMonth'' = Inr JNull" "getkey c ''expYear'' = Inr JNull"
  shows "''Card Expire MM/YYYY: None/None'' \<in> set (body_lines d)"
proof -
  from assms obtain a b n k where d: "d = [(''Card Holder Name'', a), (''Card Brand'', b),
      (''Card Number'', n), (''Card Expire MM/YYYY'', JStr ''None/None''), (''Card Security Code'', k)]"
    by (auto simp: format_card_refines card_entries_def sbind_Inr_iff)
  have m: "(''Card Expire MM/YYYY'', JStr ''None/None'') \<in> set (filter (\<lambda>kv. snd kv \<noteq> JNull) d)"
    by (simp add: d)
  have r: "render_line (''Card Expire MM/YYYY'', JStr ''None/None'') = ''Card Expire MM/YYYY: None/None''"
    by (simp add: render_line_def)
  show ?thesis unfolding body_lines_def set_map by (rule image_eqI [where f = render_line, OF r [symmetric] m])
qed

theorem card_expiry_none_witness:
  "format_card (JObj [(''cardholderName'', JNull), (''brand'', JNull), (''number'', JNull),
                      (''expMonth'', JNull), (''expYear'', JNull), (''code'', JNull)]) =
     Inr [(''Card Holder Name'', JNull), (''Card Brand'', JNull), (''Card Number'', JNull),
          (''Card Expire MM/YYYY'', JStr ''None/None''), (''Card Security Code'', JNull)]
   \<and> ''Card Expire MM/YYYY: None/None'' \<in>
       set (body_lines [(''Card Holder Name'', JNull), (''Card Brand'', JNull), (''Card Number'', JNull),
          (''Card Expire MM/YYYY'', JStr ''None/None''), (''Card Security Code'', JNull)])"
proof -
  have h: "format_card (JObj [(''cardholderName'', JNull), (''brand'', JNull), (''number'', JNull),
                      (''expMonth'', JNull), (''expYear'', JNull), (''code'', JNull)]) =
     Inr [(''Card Holder Name'', JNull), (''Card Brand'', JNull), (''Card Number'', JNull),
          (''Card Expire MM/YYYY'', JStr ''None/None''), (''Card Security Code'', JNull)]"
    by (simp add: format_card_def)
  show ?thesis by (rule conjI [OF h], rule card_expiry_none [OF h]) simp_all
qed

lemma attachment_group_first:
  "attachment_group ia = Inr g \<Longrightarrow> g \<noteq> [] \<and> fst (hd g) = attachment_key (fst ia) ''File Name''"
  by (auto simp: attachment_group_def sbind_Inr_iff)

lemma concat_nth_groups:
  "\<forall>g \<in> set gs. length g = 3 \<Longrightarrow> j < length gs \<Longrightarrow> concat gs ! (3 * j) = gs ! j ! 0"
proof (induction gs arbitrary: j)
  case Nil
  then show ?case by simp
next
  case (Cons g gs)
  then show ?case by (cases j) (auto simp: nth_append)
qed

text \<open>C27: the \<open>i\<close>-th custom field (from 0) is labelled with number \<open>i + 1\<close>,
  the \<open>j\<close>-th attachment with number \<open>j\<close>: custom fields count from 1, attachments
  from 0.\<close>

theorem field_numbering:
  assumes "add_custom_fields [] 0 fs = Inr cd" "i < length fs"
    and "add_attachments [] 0 atts = Inr ad" "j < length atts"
  shows "(\<exists>name. fst (cd ! i) = ''[Custom Field '' @ nat_str (Suc i) @ ''] '' @ name)
         \<and> fst (ad ! (3 * j)) = ''Attachment '' @ nat_str j @ '' File Name''"
proof
  from assms(1) have "py_map custom_entry (enumerate 0 fs) = Inr cd"
    by (simp add: add_custom_fields_append)
  from py_map_nth [OF this] assms(2) have "custom_entry (i, fs ! i) = Inr (cd ! i)"
    by (simp add: nth_enumerate_eq)
  then show "\<exists>name. fst (cd ! i) = ''[Custom Field '' @ nat_str (Suc i) @ ''] '' @ name"
    by (auto simp: custom_entry_def custom_key_def sbind_Inr_iff) (metis fst_conv)
next
  from assms(3) obtain gs where gs: "py_map attachment_group (enumerate 0 atts) = Inr gs"
    and ad: "ad = concat gs"
    by (auto simp: add_attachments_append sbind_Inr_iff)
  have len: "\<forall>g \<in> set gs. length g = 3"
    by (rule py_map_Inr_all [OF gs]) (auto simp: attachment_group_def sbind_Inr_iff)
  from py_map_nth [OF gs] assms(4) have g: "attachment_group (j, atts ! j) = Inr (gs ! j)"
      and j: "j < length gs"
    by (simp_all add: nth_enumerate_eq)
  from attachment_group_first [OF g] have "fst (gs ! j ! 0) = attachment_key j ''File Name''"
    by (auto simp: hd_conv_nth)
  then show "fst (ad ! (3 * j)) = ''Attachment '' @ nat_str j @ '' File Name''"
    using concat_nth_groups [OF len j] ad by (simp add: attachment_key_def)
qed

theorem field_numbering_witness:
  "add_custom_fields [] 0 [JObj [(''name'', JStr ''pin''), (''value'', JStr ''1'')]] =
     Inr [(''[Custom Field 1] pin'', JStr ''1'')]
   \<and> add_attachments [] 0 [JObj [(''fileName'', JStr ''f''), (''sizeName'', JStr ''1 KB''), (''url'', JStr ''u'')]] =
     Inr [(''Attachment 0 File Name'', JStr ''f''), (''Attachment 0 File Size'', JStr ''1 KB''),
          (''Attachment 0 URL'', JStr ''u'')]
   \<and> (\<exists>name. fst ([(''[Custom Field 1] pin'', JStr ''1'')] ! 0) = ''[Custom Field '' @ nat_str (Suc 0) @ ''] '' @ name)
   \<and> fst ([(''Attachment 0 File Name'', JStr ''f''), (''Attachment 0 File Size'', JStr ''1 KB''),
          (''Attachment 0 URL'', JStr ''u'')] ! (3 * 0)) = ''Attachment '' @ nat_str 0 @ '' File Name''"
proof -
  have h1: "add_custom_fields [] 0 [JObj [(''name'', JStr ''pin''), (''value'', JStr ''1'')]] =
     Inr [(''[Custom Field 1] pin'', JStr ''1'')]" by code_simp
  have h2: "add_attachments [] 0 [JObj [(''fileName'', JStr ''f''), (''sizeName'', JStr ''1 KB''), (''url'', JStr ''u'')]] =
     Inr [(''Attachment 0 File Name'', JStr ''f''), (''Attachment 0 File Size'', JStr ''1 KB''),
          (''Attachment 0 URL'', JStr ''u'')]" by code_simp
  show ?thesis
    using h1 h2 field_numbering [OF h1 _ h2, of 0 0] by simp
qed

lemma py_map_field_entry:
  "py_map (field_entry (JObj kvs)) lks =
     (case find (\<lambda>lk. map_of kvs (snd lk) = None) lks of
        None \<Rightarrow> Inr (map (\<lambda>lk. (fst lk, the (map_of kvs (snd lk)))) lks)
      | Some lk \<Rightarrow> Inl (KeyError (JStr (snd lk))))"
  by (induction lks) (auto simp: field_entry_def split: option.splits)

text \<open>C23: \<open>format_identity\<close> of a dict gives the eighteen identity fields of
  lines 40--57, each label with the value of its key in the order of the source, or
  raises \<open>KeyError\<close> for the first key of that order the dict lacks. The table of
  labels and keys is written out in the statement.\<close>

theorem identity_first_missing:
  "format_identity (JObj kvs) =
     (case find (\<lambda>lk. map_of kvs (snd lk) = None)
         [(''ID Title'', ''title''), (''ID FirstName'', ''firstName''),
          (''ID MiddleName'', ''middleName''), (''ID LastName'', ''lastName''),
          (''ID Address1'', ''address1''), (''ID Address2'', ''address2''),
          (''ID Address3'', ''address3''), (''ID City'', ''city''), (''ID State'', ''state''),
          (''ID PostalCode'', ''postalCode''), (''ID Country'', ''country''),
          (''ID Company'', ''company''), (''ID Email'', ''email''), (''ID Phone'', ''phone''),
          (''ID SSN'', ''ssn''), (''ID Username'', ''username''),
          (''ID Passport Number'', ''passportNumber''), (''ID License Number'', ''licenseNumber'')] of
        None \<Rightarrow> Inr (map (\<lambda>lk. (fst lk, the (map_of kvs (snd lk))))
         [(''ID Title'', ''title''), (''ID FirstName'', ''firstName''),
          (''ID MiddleName'', ''middleName''), (''ID LastName'', ''lastName''),
          (''ID Address1'', ''address1''), (''ID Address2'', ''address2''),
          (''ID Address3'', ''address3''), (''ID City'', ''city''), (''ID State'', ''state''),
          (''ID PostalCode'', ''postalCode''), (''ID Country'', ''country''),
          (''ID Company'', ''company''), (''ID Email'', ''email''), (''ID Phone'', ''phone''),
          (''ID SSN'', ''ssn''), (''ID Username'', ''username''),
          (''ID Passport Number'', ''passportNumber''), (''ID License Number'', ''licenseNumber'')])
      | Some lk \<Rightarrow> Inl (KeyError (JStr (snd lk))))"
  by (simp only: format_identity_refines identity_entries_def py_map_field_entry identity_fields_def)

end
