(* ===== verification/ItemSchema.thy ===== *)
theory ItemSchema
  imports EntryBody
begin

text \<open>
  The shape of a Bitwarden item the program can convert: the keys and value types
  \<open>BWItem.passname\<close> and \<open>BWItem.format\<close> read, as the specification describes the
  output of \<open>bw list items\<close> (section 2). The schema is a bool-valued predicate on
  the parsed JSON value, \<open>item_ok\<close>; its lemmas show that on an item of that shape no
  subscript, \<open>len\<close>, iteration or \<open>split\<close> of the code raises, so that both methods
  return a value.
\<close>

section \<open>Schema\<close>

fun is_jstr :: "json \<Rightarrow> bool" where
  "is_jstr (JStr _) = True"
| "is_jstr _ = False"

text \<open>\<open>v[k]\<close> exists and satisfies \<open>P\<close>.\<close>

definition key_is :: "(json \<Rightarrow> bool) \<Rightarrow> json \<Rightarrow> string \<Rightarrow> bool" where
  "key_is P v k = (case getkey v k of Inr x \<Rightarrow> P x | Inl _ \<Rightarrow> False)"

definition has_keys :: "string list \<Rightarrow> json \<Rightarrow> bool" where
  "has_keys ks v = list_all (key_is (\<lambda>_. True) v) ks"

text \<open>\<open>v.get(k, [])\<close> is a list whose elements satisfy \<open>P\<close> (an absent key reads as
  the empty list).\<close>

definition opt_list_of :: "(json \<Rightarrow> bool) \<Rightarrow> json \<Rightarrow> string \<Rightarrow> bool" where
  "opt_list_of P v k =
     (case py_get v k (JList []) of Inr (JList xs) \<Rightarrow> list_all P xs | _ \<Rightarrow> False)"

definition card_keys :: "string list" where
  "card_keys = [''cardholderName'', ''brand'', ''number'', ''expMonth'', ''expYear'', ''code'']"

definition login_ok :: "json \<Rightarrow> bool" where
  "login_ok l \<longleftrightarrow> has_keys [''username'', ''password'', ''totp''] l
                  \<and> opt_list_of (has_keys [''uri'']) l ''uris''"

text \<open>The type code is one of the four the code knows, and the payload of that type
  is present.\<close>

definition payload_ok :: "json \<Rightarrow> bool" where
  "payload_ok item =
     (case getkey item ''type'' of
        Inr (JInt t) \<Rightarrow>
          (if t = 1 then key_is login_ok item ''login''
           else if t = 2 then True
           else if t = 3 then key_is (has_keys card_keys) item ''card''
           else if t = 4 then key_is (has_keys (map snd identity_fields)) item ''identity''
           else False)
      | _ \<Rightarrow> False)"

definition item_ok :: "json \<Rightarrow> bool" where
  "item_ok item \<longleftrightarrow>
     key_is is_jstr item ''id'' \<and> key_is is_jstr item ''name'' \<and> payload_ok item
     \<and> opt_list_of (has_keys [''name'', ''value'']) item ''fields''
     \<and> opt_list_of (has_keys [''fileName'', ''sizeName'', ''url'']) item ''attachments''
     \<and> has_keys [''notes''] item"

section \<open>Lemmas\<close>

lemma key_isE:
  assumes "key_is P v k"
  obtains x where "getkey v k = Inr x" "P x"
  using assms by (auto simp: key_is_def split: sum.splits)

lemma key_is_any: "key_is (\<lambda>_. True) v k \<longleftrightarrow> (\<exists>x. getkey v k = Inr x)"
  by (cases "getkey v k") (simp_all add: key_is_def)

lemma has_keys_iff: "has_keys ks v \<longleftrightarrow> (\<forall>k \<in> set ks. \<exists>x. getkey v k = Inr x)"
  by (simp add: has_keys_def list_all_iff key_is_any)

lemma has_keysE:
  assumes "has_keys ks v" "k \<in> set ks"
  obtains x where "getkey v k = Inr x"
  using assms by (auto simp: has_keys_iff)

lemma opt_list_ofE:
  assumes "opt_list_of P v k"
  obtains xs where "py_get v k (JList []) = Inr (JList xs)"
    "\<And>x. x \<in> set xs \<Longrightarrow> P x"
  using assms by (auto simp: opt_list_of_def list_all_iff split: sum.splits json.splits)

lemma py_map_total:
  "(\<And>x. x \<in> set xs \<Longrightarrow> \<exists>y. f x = Inr y) \<Longrightarrow> \<exists>ys. py_map f xs = Inr ys"
  by (induction xs) fastforce+

lemma in_set_enumerate: "p \<in> set (enumerate n xs) \<Longrightarrow> snd p \<in> set xs"
  by (cases p) (auto simp: enumerate_eq_zip dest: set_zip_rightD)

lemma py_map_enumerate_total:
  "(\<And>x. x \<in> set xs \<Longrightarrow> P x) \<Longrightarrow> (\<And>i x. P x \<Longrightarrow> \<exists>y. f (i, x) = Inr y)
     \<Longrightarrow> \<exists>ys. py_map f (enumerate n xs) = Inr ys"
  by (rule py_map_total) (metis in_set_enumerate prod.collapse)

lemma url_entries_total:
  "(\<And>x. x \<in> set xs \<Longrightarrow> has_keys [''uri''] x) \<Longrightarrow> \<exists>e. url_entries xs = Inr e"
  unfolding url_entries_def
  by (rule py_map_enumerate_total [where P = "has_keys [''uri'']"])
     (auto simp: url_entry_def elim: has_keysE)

lemma login_entries_total:
  assumes "login_ok l"
  shows "\<exists>e. login_entries l = Inr e"
proof -
  from assms have keys: "has_keys [''username'', ''password'', ''totp''] l"
    and uris: "opt_list_of (has_keys [''uri'']) l ''uris''" by (simp_all add: login_ok_def)
  obtain u p t where u: "getkey l ''username'' = Inr u" and p: "getkey l ''password'' = Inr p"
    and t: "getkey l ''totp'' = Inr t"
    using keys by (metis has_keysE list.set_intros)
  obtain xs where xs: "py_get l ''uris'' (JList []) = Inr (JList xs)"
    and each: "\<And>x. x \<in> set xs \<Longrightarrow> has_keys [''uri''] x"
    using uris by (rule opt_list_ofE) blast
  have "\<exists>e. (if length xs = 1 then
              sbind (py_getitem (JList xs) (JInt 0)) (\<lambda>u. sbind (getkey u ''uri'') (\<lambda>v. Inr [(''URL'', v)]))
            else sbind (py_iter (JList xs)) url_entries) = Inr e"
  proof (cases "length xs = 1")
    case True
    then obtain x where "xs = [x]" by (cases xs) auto
    moreover with each obtain v where "getkey x ''uri'' = Inr v" by (auto elim: has_keysE)
    ultimately show ?thesis by (simp add: py_seq_index_def)
  next
    case False
    with url_entries_total [OF each] show ?thesis by simp
  qed
  then obtain urls where urls: "(if length xs = 1 then
              sbind (py_getitem (JList xs) (JInt 0)) (\<lambda>u. sbind (getkey u ''uri'') (\<lambda>v. Inr [(''URL'', v)]))
            else sbind (py_iter (JList xs)) url_entries) = Inr urls" ..
  show ?thesis
    by (simp only: login_entries_def u p t xs py_len.simps sbind_simps urls) blast
qed

lemma card_entries_total: "has_keys card_keys c \<Longrightarrow> \<exists>e. card_entries c = Inr e"
  by (auto simp: card_entries_def card_keys_def has_keys_def key_is_def split: sum.splits)

lemma identity_entries_total:
  "has_keys (map snd identity_fields) obj \<Longrightarrow> \<exists>e. identity_entries obj = Inr e"
  unfolding identity_entries_def
  by (rule py_map_total) (force simp: field_entry_def has_keys_iff)

lemma typed_entries_total:
  assumes "payload_ok item"
  obtains ty e where "item_type item = Inr ty" "typed_entries ty item = Inr e"
proof -
  obtain t where t: "getkey item ''type'' = Inr (JInt t)"
    using assms by (auto simp: payload_ok_def split: sum.splits json.splits)
  have "\<exists>ty e. item_type item = Inr ty \<and> typed_entries ty item = Inr e"
  proof -
    consider "t = 1" | "t = 2" | "t = 3" | "t = 4" | "t \<notin> {1, 2, 3, 4}" by blast
    then show ?thesis
    proof cases
      case 1
      with assms t obtain l where "getkey item ''login'' = Inr l" "login_ok l"
        by (auto simp: payload_ok_def elim: key_isE)
      with 1 t login_entries_total show ?thesis by (auto simp: item_type_def typed_entries_def)
    next
      case 2
      with t show ?thesis by (simp add: item_type_def typed_entries_def)
    next
      case 3
      with assms t obtain c where "getkey item ''card'' = Inr c" "has_keys card_keys c"
        by (auto simp: payload_ok_def elim: key_isE)
      with 3 t card_entries_total show ?thesis by (auto simp: item_type_def typed_entries_def)
    next
      case 4
      with assms t obtain i where "getkey item ''identity'' = Inr i"
          "has_keys (map snd identity_fields) i"
        by (auto simp: payload_ok_def elim: key_isE)
      with 4 t identity_entries_total show ?thesis
        by (auto simp: item_type_def typed_entries_def)
    next
      case 5
      with assms t show ?thesis by (simp add: payload_ok_def)
    qed
  qed
  with that show ?thesis by blast
qed

lemma custom_entries_total:
  "(\<And>x. x \<in> set xs \<Longrightarrow> has_keys [''name'', ''value''] x) \<Longrightarrow> \<exists>e. custom_entries xs = Inr e"
  unfolding custom_entries_def
  by (rule py_map_enumerate_total [where P = "has_keys [''name'', ''value'']"])
     (auto simp: custom_entry_def has_keys_iff)

lemma attachment_entries_total:
  "(\<And>x. x \<in> set xs \<Longrightarrow> has_keys [''fileName'', ''sizeName'', ''url''] x)
     \<Longrightarrow> \<exists>e. attachment_entries xs = Inr e"
proof -
  assume "\<And>x. x \<in> set xs \<Longrightarrow> has_keys [''fileName'', ''sizeName'', ''url''] x"
  then have "\<exists>gs. py_map attachment_group (enumerate 0 xs) = Inr gs"
    by (rule py_map_enumerate_total) (auto simp: attachment_group_def has_keys_iff)
  then show ?thesis by (auto simp: attachment_entries_def)
qed

lemma format_entries_total:
  assumes "item_ok item"
  shows "\<exists>e. format_entries item = Inr e"
proof -
  from assms have ok: "payload_ok item" "key_is is_jstr item ''name''"
    "opt_list_of (has_keys [''name'', ''value'']) item ''fields''"
    "opt_list_of (has_keys [''fileName'', ''sizeName'', ''url'']) item ''attachments''"
    "has_keys [''notes''] item"
    by (simp_all add: item_ok_def)
  obtain ty typed where ty: "item_type item = Inr ty" "typed_entries ty item = Inr typed"
    using ok(1) by (rule typed_entries_total)
  obtain name where name: "getkey item ''name'' = Inr name" using ok(2) by (rule key_isE)
  obtain fs where fs: "py_get item ''fields'' (JList []) = Inr (JList fs)"
    and fs_ok: "\<And>x. x \<in> set fs \<Longrightarrow> has_keys [''name'', ''value''] x"
    using ok(3) by (rule opt_list_ofE) blast
  obtain atts where atts: "py_get item ''attachments'' (JList []) = Inr (JList atts)"
    and atts_ok: "\<And>x. x \<in> set atts \<Longrightarrow> has_keys [''fileName'', ''sizeName'', ''url''] x"
    using ok(4) by (rule opt_list_ofE) blast
  obtain nts where nts: "getkey item ''notes'' = Inr nts"
    using ok(5) by (rule has_keysE) simp
  obtain cs where cs: "custom_entries fs = Inr cs" using custom_entries_total [OF fs_ok] by blast
  obtain ats where ats: "attachment_entries atts = Inr ats"
    using attachment_entries_total [OF atts_ok] by blast
  show ?thesis by (simp add: format_entries_def ty name fs atts nts cs ats)
qed

lemma key_is_strE:
  assumes "key_is is_jstr v k"
  obtains s where "getkey v k = Inr (JStr s)"
  using assms by (rule key_isE) (metis is_jstr.elims(2))

lemma passname_total:
  assumes "item_ok item"
  shows "\<exists>n. passname item = Inr n"
proof -
  from assms have ok: "key_is is_jstr item ''id''" "key_is is_jstr item ''name''" "payload_ok item"
    by (simp_all add: item_ok_def)
  obtain i where i: "getkey item ''id'' = Inr (JStr i)" using ok(1) by (rule key_is_strE)
  obtain n where n: "getkey item ''name'' = Inr (JStr n)" using ok(2) by (rule key_is_strE)
  obtain ty e where ty: "item_type item = Inr ty" "typed_entries ty item = Inr e"
    using ok(3) by (rule typed_entries_total)
  show ?thesis by (simp add: passname_def i n ty)
qed

lemma format_total:
  assumes "item_ok item"
  shows "\<exists>body. format item = Inr body"
proof -
  obtain e where "format_entries item = Inr e" using format_entries_total [OF assms] ..
  then show ?thesis by (simp add: format_def format_dict_refines)
qed

text \<open>C7: an item of the schema's shape converts without an exception: \<open>passname\<close>
  and \<open>format\<close> both return a value, whatever the type, the number of URIs, custom
  fields and attachments.\<close>

theorem item_schema_converts:
  assumes "item_ok item"
  shows "\<exists>name body. passname item = Inr name \<and> format item = Inr body"
  using passname_total [OF assms] format_total [OF assms] by blast

theorem item_schema_converts_witness:
  "\<exists>name body. passname (JObj [(''id'', JStr ''0f1e-77''), (''name'', JStr ''Mail''), (''type'', JInt 1),
        (''login'', JObj [(''username'', JStr ''me''), (''password'', JNull), (''totp'', JNull),
                         (''uris'', JList [JObj [(''uri'', JStr ''imap://m'')]])]),
        (''fields'', JList [JObj [(''name'', JStr ''pin''), (''value'', JInt 7)]]),
        (''attachments'', JList [JObj [(''fileName'', JStr ''k.pem''), (''sizeName'', JStr ''1 KB''),
                                      (''url'', JStr ''u'')]]),
        (''notes'', JNull)]) = Inr name
     \<and> format (JObj [(''id'', JStr ''0f1e-77''), (''name'', JStr ''Mail''), (''type'', JInt 1),
        (''login'', JObj [(''username'', JStr ''me''), (''password'', JNull), (''totp'', JNull),
                         (''uris'', JList [JObj [(''uri'', JStr ''imap://m'')]])]),
        (''fields'', JList [JObj [(''name'', JStr ''pin''), (''value'', JInt 7)]]),
        (''attachments'', JList [JObj [(''fileName'', JStr ''k.pem''), (''sizeName'', JStr ''1 KB''),
                                      (''url'', JStr ''u'')]]),
        (''notes'', JNull)]) = Inr body"
proof -
  have "item_ok (JObj [(''id'', JStr ''0f1e-77''), (''name'', JStr ''Mail''), (''type'', JInt 1),
        (''login'', JObj [(''username'', JStr ''me''), (''password'', JNull), (''totp'', JNull),
                         (''uris'', JList [JObj [(''uri'', JStr ''imap://m'')]])]),
        (''fields'', JList [JObj [(''name'', JStr ''pin''), (''value'', JInt 7)]]),
        (''attachments'', JList [JObj [(''fileName'', JStr ''k.pem''), (''sizeName'', JStr ''1 KB''),
                                      (''url'', JStr ''u'')]]),
        (''notes'', JNull)])"
    by code_simp
  then show ?thesis by (rule item_schema_converts)
qed

text \<open>C24: \<open>format_card\<close> of a dict reads the six card keys in the order of the source:
  it raises \<open>KeyError\<close> for the first of them the dict lacks, and otherwise gives the
  five card fields, the expiry as the string \<open>month/year\<close>.\<close>

theorem card_first_missing:
  "format_card (JObj kvs) =
     (case find (\<lambda>k. map_of kvs k = None) card_keys of
        Some k \<Rightarrow> Inl (KeyError (JStr k))
      | None \<Rightarrow> Inr [(''Card Holder Name'', the (map_of kvs ''cardholderName'')),
                   (''Card Brand'', the (map_of kvs ''brand'')),
                   (''Card Number'', the (map_of kvs ''number'')),
                   (''Card Expire MM/YYYY'', JStr (py_str (the (map_of kvs ''expMonth'')) @ ''/''
                                                  @ py_str (the (map_of kvs ''expYear'')))),
                   (''Card Security Code'', the (map_of kvs ''code''))])"
  by (simp add: format_card_refines card_entries_def card_keys_def split: option.splits)

end
