(* ===== verification/Run.thy ===== *)
theory Run
  imports Orchestrator ItemSchema
begin

text \<open>
  Properties of a whole run of the script, \<open>main\<close> of \<open>src/bitwarden-to-pass.py\<close>:
  what it does to the files of the store, what it prints, when it returns, and that it
  keeps the file tree well formed. The concrete items and world below are the
  specification's end-to-end example (a login "My Bank" with one URI and a note
  "Wifi"), used by the witnesses.
\<close>

definition bank_item :: json where
  "bank_item =
     JObj [(''id'', JStr ''abc12345-6789''), (''name'', JStr ''My Bank''), (''type'', JInt 1),
           (''login'', JObj [(''username'', JStr ''me''), (''password'', JStr ''pw''), (''totp'', JNull),
                            (''uris'', JList [JObj [(''uri'', JStr ''https://bank.example'')]])]),
           (''notes'', JNull)]"

definition wifi_item :: json where
  "wifi_item =
     JObj [(''id'', JStr ''def67890-1234''), (''name'', JStr ''Wifi''), (''type'', JInt 2),
           (''notes'', JStr ''key: hunter2'')]"

definition example_world :: "(path \<times> string) list \<Rightarrow> json list \<Rightarrow> world" where
  "example_world fs items =
     \<lparr>files = fs, dirs = [[''home'', ''u'', ''.password-store'']], stdout = [], environ = (\<lambda>_. None), home_dir = ''/home/u'',
      bw_unlock_out = (\<lambda>n. if n = 0 then [] else ''TOKEN''), bw_unlock_calls = 0,
      bw_items = JList items\<rparr>"

definition escape_item :: json where
  "escape_item =
     JObj [(''id'', JStr ''abcd1234-5678''), (''name'', JStr ''/etc/x''), (''type'', JInt 1),
           (''login'', JObj [(''username'', JStr ''me''), (''password'', JStr ''pw''), (''totp'', JNull)]),
           (''notes'', JNull)]"

definition sneaky_item :: json where
  "sneaky_item =
     JObj [(''id'', JStr ''abcd1234-5678''), (''name'', JStr ''a/../b''), (''type'', JInt 2),
           (''notes'', JStr ''n'')]"

section \<open>Properties of a run\<close>

text \<open>C3: a run changes no file but the entries of its items' names: a path that is
  the entry file of no item name, for items whose names are not absolute, holds after the
  run (finished, failed or stopped at any item) what it held before; in particular the
  orphaned entries are never deleted.\<close>

theorem run_frame:
  assumes "main w = Some (r, w')"
    and "\<forall>items. py_iter (bw_items w) = Inr items \<longrightarrow>
           (\<forall>it \<in> set items. item_safe_for (pass_cli_init (environ w) (home_dir w)) p it)"
  shows "map_of (files w') p = map_of (files w) p"
proof -
  obtain session w3 where a: "after_unlock (pass_cli_init (environ w) (home_dir w)) session w3 = (r, w')"
    and w3: "files w3 = files w" "bw_items w3 = bw_items w"
    using main_Some_cases [OF assms(1)] by metis
  from after_unlock_frame [of w3 "pass_cli_init (environ w) (home_dir w)" p session] assms(2) a w3
  show ?thesis by simp
qed

theorem run_frame_witness:
  "\<exists>r w'. main (example_world [([''home'', ''u'', ''.password-store'', ''old-login-0000.gpg''], ''x'')]
                                [bank_item, wifi_item]) = Some (r, w')
     \<and> map_of (files w') [''home'', ''u'', ''.password-store'', ''old-login-0000.gpg''] = Some ''x''"
proof -
  let ?w = "example_world [([''home'', ''u'', ''.password-store'', ''old-login-0000.gpg''], ''x'')]
                                [bank_item, wifi_item]"
  let ?p = "[''home'', ''u'', ''.password-store'', ''old-login-0000.gpg'']"
  have some: "main ?w \<noteq> None" by code_simp
  have safe: "item_safe_for (pass_cli_init (\<lambda>_. None) ''/home/u'') ?p bank_item"
     "item_safe_for (pass_cli_init (\<lambda>_. None) ''/home/u'') ?p wifi_item"
    by code_simp+
  from some obtain r w' where m: "main ?w = Some (r, w')" by auto
  have "map_of (files w') ?p = map_of (files ?w) ?p"
    by (rule run_frame [OF m]) (simp add: example_world_def safe)
  also have "\<dots> = Some ''x''" by (simp add: example_world_def)
  finally show ?thesis using m by blast
qed

text \<open>C5: the run ends exactly when some run of \<open>bw unlock\<close> from now on prints a
  token: \<open>main\<close> is \<open>None\<close> (runs forever) if and only if every answer is empty.\<close>

theorem main_none_iff:
  "main w = None \<longleftrightarrow> (\<forall>n \<ge> bw_unlock_calls w. bw_unlock_out w n = [])"
proof -
  let ?w2 = "w\<lparr>stdout := stdout w @ banner @ [''Unlocking bitwarden'']\<rparr>"
  have "unlock ?w2 = None \<longleftrightarrow> (\<forall>n \<ge> bw_unlock_calls w. bw_unlock_out w n = [])"
  proof
    assume "unlock ?w2 = None"
    then show "\<forall>n \<ge> bw_unlock_calls w. bw_unlock_out w n = []"
      using unlock_terminates [of ?w2] by auto
  next
    assume "\<forall>n \<ge> bw_unlock_calls w. bw_unlock_out w n = []"
    then show "unlock ?w2 = None"
      using unlock_Some_answer [of ?w2] by (cases "unlock ?w2") auto
  qed
  moreover have "main w = None \<longleftrightarrow> unlock ?w2 = None"
    by (cases "unlock ?w2") (auto simp: main_eq)
  ultimately show ?thesis by simp
qed

theorem main_none_iff_witness:
  "main ((example_world [] [])\<lparr>bw_unlock_out := (\<lambda>_. [])\<rparr>) = None
   \<and> main (example_world [] []) \<noteq> None"
proof -
  have "bw_unlock_out (example_world [] []) 1 \<noteq> []" by (simp add: example_world_def)
  then have "main (example_world [] []) \<noteq> None"
    using main_none_iff [of "example_world [] []"] by (auto simp: example_world_def)
  moreover have "main ((example_world [] [])\<lparr>bw_unlock_out := (\<lambda>_. [])\<rparr>) = None"
    using main_none_iff [of "(example_world [] [])\<lparr>bw_unlock_out := (\<lambda>_. [])\<rparr>"] by simp
  ultimately show ?thesis by simp
qed

text \<open>C17: the session token reaches the log: after any run that unlocked, the
  standard output holds the line \<open>> bw --session TOKEN sync\<close> with the token
  \<open>bw unlock\<close> printed.\<close>

theorem session_token_logged:
  assumes "main w = Some (r, w')"
  shows "\<exists>n \<ge> bw_unlock_calls w. bw_unlock_out w n \<noteq> []
           \<and> ''> bw --session '' @ bw_unlock_out w n @ '' sync'' \<in> set (stdout w')"
proof -
  let ?w2 = "w\<lparr>stdout := stdout w @ banner @ [''Unlocking bitwarden'']\<rparr>"
  from assms obtain session w3 where u: "unlock ?w2 = Some (session, w3)"
    and a: "after_unlock (pass_cli_init (environ w) (home_dir w)) session w3 = (r, w')"
    by (auto simp: main_eq split: option.splits)
  from unlock_Some_answer [OF u] obtain n where n: "n \<ge> bw_unlock_calls w"
    "bw_unlock_out w n \<noteq> []" "session = bw_unlock_out w n"
    by auto
  from after_unlock_stdout [of w3 session "pass_cli_init (environ w) (home_dir w)"] a
  have "prefix (stdout w3 @ sync_lines session) (stdout w')" by simp
  then have "set (sync_lines session) \<subseteq> set (stdout w')"
    by (auto simp: prefix_def)
  with n show ?thesis by (auto simp: sync_lines_def)
qed

theorem session_token_logged_witness:
  "main (example_world [] []) \<noteq> None \<and>
   (\<exists>n \<ge> bw_unlock_calls (example_world [] []). bw_unlock_out (example_world [] []) n \<noteq> []
      \<and> ''> bw --session '' @ bw_unlock_out (example_world [] []) n @ '' sync''
          \<in> set (stdout (snd (the (main (example_world [] []))))))"
proof -
  have some: "main (example_world [] []) \<noteq> None" by code_simp
  then obtain r w' where m: "main (example_world [] []) = Some (r, w')" by auto
  from session_token_logged [OF m] m show ?thesis by simp
qed

text \<open>C4: after a run that finishes, the standard output ends with the orphan
  warning: the header line and one tab-indented line per name of the snapshot taken
  before the loop that no item produced, in snapshot order, or nothing when there is
  no such name.\<close>

theorem orphan_report:
  assumes "main w = Some (Inr (), w')"
    and "fst (list_pass_names (pass_cli_init (environ w) (home_dir w)) w) = Inr existing"
    and "py_iter (bw_items w) = Inr items"
    and "py_map passname items = Inr synced"
  shows "\<exists>pre. stdout w' = pre @ warning_lines (filter (\<lambda>e. e \<notin> set synced) existing)"
proof -
  let ?pc = "pass_cli_init (environ w) (home_dir w)"
  obtain session w3 where a: "after_unlock ?pc session w3 = (Inr (), w')"
    and f: "files w3 = files w" and d: "dirs w3 = dirs w" and b: "bw_items w3 = bw_items w"
    using main_Some_cases [OF assms(1)] by metis
  let ?w4 = "w3\<lparr>stdout := stdout w3 @ sync_lines session\<rparr>"
  have l: "list_pass_names ?pc ?w4 = (Inr existing, ?w4)"
    using list_pass_names_files [of ?w4 w ?pc] f d assms(2) by simp
  from a l b assms(3,4) obtain s5 where
    "warn_ignored (ignored_entries existing synced) s5 = (Inr (), w')"
    by (auto simp: after_unlock_eq ebind_Inr ebind_simps)
  then have "stdout w' = stdout s5 @ warning_lines (ignored_entries existing synced)"
    by (auto simp: warn_ignored_eq)
  then show ?thesis by (auto simp: ignored_entries_def)
qed

theorem orphan_report_witness:
  "\<exists>w'. main (example_world [([''home'', ''u'', ''.password-store'', ''old-login-0000.gpg''], ''x'')]
                           [bank_item, wifi_item]) = Some (Inr (), w')
     \<and> (\<exists>pre. stdout w' = pre @
          [''WARNING: Ignored the following password entries. Possibly deleted from bitwarden?'',
           CHR 0x09 # ''old-login-0000''])"
proof -
  let ?w = "example_world [([''home'', ''u'', ''.password-store'', ''old-login-0000.gpg''], ''x'')]
                           [bank_item, wifi_item]"
  have run: "case main ?w of Some (r, w') \<Rightarrow> r = Inr () | None \<Rightarrow> False" by code_simp
  then obtain w' where m: "main ?w = Some (Inr (), w')"
    by (auto split: option.splits)
  have ex: "fst (list_pass_names (pass_cli_init (environ ?w) (home_dir ?w)) ?w) = Inr [''old-login-0000'']"
    by code_simp
  have it: "py_iter (bw_items ?w) = Inr [bank_item, wifi_item]"
    by (simp add: example_world_def)
  have ns: "py_map passname [bank_item, wifi_item] = Inr [''my-bank-login-abc1'', ''wifi-note-def6'']"
    by code_simp
  from orphan_report [OF m ex it ns] m show ?thesis
    by (simp add: warning_lines_def)
qed

text \<open>C2: a finished run leaves the store the old one updated, in item order, with the
  entry of each item's name set to the item's body, when the tree was well formed and no
  name has a slash; a later item of the same name wins.\<close>

theorem run_files:
  assumes "main w = Some (Inr (), w')" and "fs_wf w"
    and "py_iter (bw_items w) = Inr items"
    and "py_map passname items = Inr names" and "py_map format items = Inr bodies"
    and "\<forall>n \<in> set names. CHR ''/'' \<notin> set n"
  shows "map_of (files w') =
           fold (\<lambda>(n, c) m. m(entry_path (pass_cli_init (environ w) (home_dir w)) n \<mapsto> c))
             (zip names bodies) (map_of (files w))"
proof -
  obtain session w3 where a: "after_unlock (pass_cli_init (environ w) (home_dir w)) session w3 = (Inr (), w')"
    and "files w3 = files w" "dirs w3 = dirs w" "bw_items w3 = bw_items w"
    using main_Some_cases [OF assms(1)] by metis
  with assms(2-6) after_unlock_store [OF a] show ?thesis by (simp add: fs_wf_def is_dir_def)
qed

theorem run_files_witness:
  "\<exists>w' bodies. main (example_world [] [bank_item, wifi_item]) = Some (Inr (), w')
     \<and> py_map format [bank_item, wifi_item] = Inr bodies
     \<and> map_of (files w') =
         fold (\<lambda>(n, c) m. m(entry_path (pass_cli_init (\<lambda>_. None) ''/home/u'') n \<mapsto> c))
           (zip [''my-bank-login-abc1'', ''wifi-note-def6''] bodies) Map.empty"
proof -
  let ?w = "example_world [] [bank_item, wifi_item]"
  have run: "case main ?w of Some (r, w') \<Rightarrow> r = Inr () | None \<Rightarrow> False" by code_simp
  then obtain w' where m: "main ?w = Some (Inr (), w')" by (auto split: option.splits)
  have "case py_map format [bank_item, wifi_item] of Inr bs \<Rightarrow> True | Inl e \<Rightarrow> False" by code_simp
  then obtain bodies where bd: "py_map format [bank_item, wifi_item] = Inr bodies"
    by (auto split: sum.splits)
  have ns: "py_map passname [bank_item, wifi_item] = Inr [''my-bank-login-abc1'', ''wifi-note-def6'']"
    by code_simp
  have it: "py_iter (bw_items ?w) = Inr [bank_item, wifi_item]" by (simp add: example_world_def)
  have wf: "fs_wf ?w" by (simp add: example_world_def fs_wf_def is_dir_def)
  from run_files [OF m wf it ns bd] m bd show ?thesis by (auto simp: example_world_def)
qed

text \<open>C6: a rerun is idempotent: running again, after a finished run, on the store it
  left and the same item list gives the same files; the bodies are replaced, not
  merged.\<close>

theorem rerun_idempotent:
  assumes m1: "main w = Some (Inr (), w1)" and m2: "main v = Some (Inr (), w2)"
    and same: "files v = files w1" "dirs v = dirs w1" "bw_items v = bw_items w"
      "environ v = environ w" "home_dir v = home_dir w"
    and wf: "fs_wf w" and it: "py_iter (bw_items w) = Inr items"
    and ns: "py_map passname items = Inr names" and bs: "py_map format items = Inr bodies"
    and flat: "\<forall>n \<in> set names. CHR ''/'' \<notin> set n"
  shows "map_of (files w2) = map_of (files w1)"
proof -
  let ?pc = "pass_cli_init (environ w) (home_dir w)"
  let ?F = "fold (\<lambda>(n, c) m. m(entry_path ?pc n \<mapsto> c)) (zip names bodies)"
  obtain s1 u1 where a1: "after_unlock ?pc s1 u1 = (Inr (), w1)"
    and u1: "files u1 = files w" "dirs u1 = dirs w" "bw_items u1 = bw_items w"
    using main_Some_cases [OF m1] by metis
  have wfu1: "fs_wf u1" using wf u1 by (simp add: fs_wf_def is_dir_def)
  have st1: "map_of (files w1) = ?F (map_of (files w))"
    using after_unlock_store [OF a1 wfu1] u1 it ns bs flat by simp
  have wf1: "fs_wf w1" using after_unlock_wf [OF wfu1, of ?pc s1] a1 by simp
  obtain s2 u2 where a2: "after_unlock (pass_cli_init (environ v) (home_dir v)) s2 u2 = (Inr (), w2)"
    and u2: "files u2 = files v" "dirs u2 = dirs v" "bw_items u2 = bw_items v"
    using main_Some_cases [OF m2] by metis
  have wfu2: "fs_wf u2" using wf1 u2 same by (simp add: fs_wf_def is_dir_def)
  have "map_of (files w2) = ?F (map_of (files w1))"
    using after_unlock_store [OF a2 wfu2] u2 same it ns bs flat by simp
  also have "\<dots> = map_of (files w1)" by (simp only: st1 fold_map_upd_twice)
  finally show ?thesis .
qed

theorem rerun_idempotent_witness:
  "\<exists>w1 w2. main (example_world [] [bank_item, wifi_item]) = Some (Inr (), w1)
     \<and> main w1 = Some (Inr (), w2) \<and> map_of (files w2) = map_of (files w1)"
proof -
  let ?w = "example_world [] [bank_item, wifi_item]"
  have "case main ?w of
          Some (r, w1) \<Rightarrow> r = Inr () \<and> (case main w1 of Some (r', w2) \<Rightarrow> r' = Inr () | None \<Rightarrow> False)
        | None \<Rightarrow> False" by code_simp
  then obtain w1 w2 where m1: "main ?w = Some (Inr (), w1)" and m2: "main w1 = Some (Inr (), w2)"
    by (auto split: option.splits)
  have "case py_map format [bank_item, wifi_item] of Inr bs \<Rightarrow> True | Inl e \<Rightarrow> False" by code_simp
  then obtain bodies where bd: "py_map format [bank_item, wifi_item] = Inr bodies"
    by (auto split: sum.splits)
  have ns: "py_map passname [bank_item, wifi_item] = Inr [''my-bank-login-abc1'', ''wifi-note-def6'']"
    by code_simp
  obtain s1 u1 where a1: "after_unlock (pass_cli_init (environ ?w) (home_dir ?w)) s1 u1 = (Inr (), w1)"
    and u1: "bw_items u1 = bw_items ?w" "environ u1 = environ ?w" "home_dir u1 = home_dir ?w"
    using main_Some_cases [OF m1] by metis
  have "os_state.more w1 = os_state.more u1"
    using after_unlock_more [of "pass_cli_init (environ ?w) (home_dir ?w)" s1 u1] a1 by simp
  from more_world [OF this] u1
  have same: "bw_items w1 = bw_items ?w" "environ w1 = environ ?w" "home_dir w1 = home_dir ?w"
    by simp_all
  have it: "py_iter (bw_items ?w) = Inr [bank_item, wifi_item]" by (simp add: example_world_def)
  have wf: "fs_wf ?w" by (simp add: example_world_def fs_wf_def is_dir_def)
  from rerun_idempotent [OF m1 m2 refl refl same wf it ns bd] m1 m2 show ?thesis by auto
qed

text \<open>C16: an item whose entry name starts with a slash makes the run delete a file
  outside the store: \<open>os.path.join\<close> of the store and an absolute name is the name
  itself, so \<open>pass_exists\<close> and \<open>remove_force\<close> address \<open>NAME.gpg\<close> from the root,
  and a regular file there is removed; \<open>pass insert\<close> writes the entry inside the
  store, so the file stays deleted, and both lines are logged.\<close>

theorem absolute_name_escapes:
  assumes pn: "passname it = Inr n" and fm: "format it = Inr c"
    and abs: "n \<noteq> []" "hd n = CHR ''/''"
    and fl: "is_file st (parse_path (n @ ''.gpg''))"
    and na: "\<not> has_file_above st (parse_path (n @ ''.gpg''))"
    and other: "parse_path (n @ ''.gpg'') \<noteq> pass_tool_path (pass_directory pc) n"
  shows "\<exists>st'. sync_item pc it st = (Inr (), st') \<and> map_of (files st') (parse_path (n @ ''.gpg'')) = None
           \<and> stdout st' = stdout st @ [''Removed existing pass entry '' @ n, inserted_line (n, c)]"
proof -
  let ?p = "parse_path (n @ ''.gpg'')"
  have g: "get_file_path pc n = n @ ''.gpg''" using abs by (simp add: get_file_path_def os_path_join_def)
  then have ex: "pass_exists pc n st" using fl abs by (simp add: pass_exists_def os_path_exists_def)
  let ?s1 = "st\<lparr>files := fs_delete ?p (files st), dirs := List.insert (butlast ?p) (dirs st)\<rparr>"
  have rm: "remove_force pc n st = (Inr (), ?s1)"
    using g fl na abs by (simp add: remove_force_def os_remove_def Let_def)
  let ?s2 = "st\<lparr>files := fs_delete ?p (files st), dirs := List.insert (butlast ?p) (dirs st),
              stdout := stdout st @ [''Removed existing pass entry '' @ n]\<rparr>"
  obtain r s3 where ins: "pass_insert pc n c ?s2 = (Inr r, s3)"
    using pass_insert_returns [of pc n c ?s2] by (cases "pass_insert pc n c ?s2") auto
  have f3: "map_of (files s3) ?p = None"
    using pass_insert_frame [OF other, of c ?s2] ins by simp
  have o3: "stdout s3 = stdout ?s2"
    using arg_cong [OF ins, of "\<lambda>x. stdout (snd x)"] by simp
  have "sync_item pc it st = (Inr (), s3\<lparr>stdout := stdout s3 @ [inserted_line (n, c)]\<rparr>)"
    using ex rm ins by (simp add: sync_item_def pn fm ebind_simps ebind_def print_line_def inserted_line_def)
  with f3 o3 show ?thesis by simp
qed

theorem absolute_name_escapes_witness:
  "\<exists>st' c. format escape_item = Inr c
     \<and> sync_item \<lparr>pass_directory = ''/s''\<rparr> escape_item
            \<lparr>files = [([''etc'', ''x-login-abcd.gpg''], ''precious'')], dirs = [[''s'']], stdout = []\<rparr> = (Inr (), st')
     \<and> map_of (files st') (parse_path (''/etc/x-login-abcd'' @ ''.gpg'')) = None
     \<and> stdout st' = [''Removed existing pass entry /etc/x-login-abcd'', inserted_line (''/etc/x-login-abcd'', c)]"
proof -
  let ?st = "\<lparr>files = [([''etc'', ''x-login-abcd.gpg''], ''precious'')], dirs = [[''s'']], stdout = []\<rparr>"
  have pn: "passname escape_item = Inr ''/etc/x-login-abcd''" by code_simp
  have "case format escape_item of Inr b \<Rightarrow> True | Inl e \<Rightarrow> False" by code_simp
  then obtain c where fm: "format escape_item = Inr c" by (auto split: sum.splits)
  have h: "''/etc/x-login-abcd'' \<noteq> []" "hd ''/etc/x-login-abcd'' = CHR ''/''" by simp_all
  have fl: "is_file ?st (parse_path (''/etc/x-login-abcd'' @ ''.gpg''))" by code_simp
  have na: "\<not> has_file_above ?st (parse_path (''/etc/x-login-abcd'' @ ''.gpg''))" by code_simp
  have ot: "parse_path (''/etc/x-login-abcd'' @ ''.gpg'') \<noteq>
              pass_tool_path (pass_directory \<lparr>pass_directory = ''/s''\<rparr>) ''/etc/x-login-abcd''" by code_simp
  from absolute_name_escapes [OF pn fm h fl na ot] fm show ?thesis by auto
qed

text \<open>C20: a directory at an item's entry path stops the run with
  \<open>IsADirectoryError\<close>: \<open>os.path.exists\<close> is true for it and \<open>os.remove\<close> refuses it;
  the loop ends at that item with the state unchanged, so the items before it stay
  written and the ones after it are not run: the mixed state the specification
  describes for a fatal error.\<close>

theorem directory_entry_aborts:
  assumes pn: "passname it = Inr n" and fm: "format it = Inr c"
    and d: "is_dir st (parse_path (get_file_path pc n))"
    and nf: "\<not> is_file st (parse_path (get_file_path pc n))"
    and na: "\<not> has_file_above st (parse_path (get_file_path pc n))"
  shows "eforeach (sync_item pc) (it # items) st = (Inl (IsADirectoryError (get_file_path pc n)), st)"
proof -
  have "pass_exists pc n st" using d by (simp add: pass_exists_def os_path_exists_def)
  moreover have "remove_force pc n st = (Inl (IsADirectoryError (get_file_path pc n)), st)"
    using d nf na by (simp add: remove_force_def os_remove_def Let_def)
  ultimately show ?thesis by (simp add: sync_item_def pn fm ebind_simps ebind_def)
qed

theorem directory_entry_aborts_witness:
  "eforeach (sync_item \<lparr>pass_directory = ''/s''\<rparr>) [wifi_item, bank_item]
      \<lparr>files = [], dirs = [[''s'', ''wifi-note-def6.gpg'']], stdout = []\<rparr>
   = (Inl (IsADirectoryError ''/s/wifi-note-def6.gpg''),
      \<lparr>files = [], dirs = [[''s'', ''wifi-note-def6.gpg'']], stdout = []\<rparr>)"
proof -
  let ?st = "\<lparr>files = [], dirs = [[''s'', ''wifi-note-def6.gpg'']], stdout = []\<rparr>"
  let ?pc = "\<lparr>pass_directory = ''/s''\<rparr>"
  have pn: "passname wifi_item = Inr ''wifi-note-def6''" by code_simp
  have "case format wifi_item of Inr b \<Rightarrow> True | Inl e \<Rightarrow> False" by code_simp
  then obtain c where fm: "format wifi_item = Inr c" by (auto split: sum.splits)
  have d: "is_dir ?st (parse_path (get_file_path ?pc ''wifi-note-def6''))" by code_simp
  have nf: "\<not> is_file ?st (parse_path (get_file_path ?pc ''wifi-note-def6''))" by code_simp
  have na: "\<not> has_file_above ?st (parse_path (get_file_path ?pc ''wifi-note-def6''))" by code_simp
  have "get_file_path ?pc ''wifi-note-def6'' = ''/s/wifi-note-def6.gpg''"
    by (simp add: get_file_path_def os_path_join_def)
  with directory_entry_aborts [OF pn fm d nf na, of "[bank_item]"] show ?thesis by simp
qed



text \<open>C8: the output of a finished run comes in the order of the code: the banner,
  \<open>Unlocking bitwarden\<close> and one \<open>bw unlock\<close> line per attempt, the sync and list
  lines, the item loop, then the orphan warning; the loop's report lines
  \<open>Inserted N bytes into NAME\<close> are one per item, in item order, with the UTF-8
  size of that item's body.\<close>

theorem run_transcript:
  assumes "main w = Some (Inr (), w')"
    and "py_iter (bw_items w) = Inr items"
    and "py_map passname items = Inr names" and "py_map format items = Inr bodies"
  shows "\<exists>session d out orphans.
           stdout w' = stdout w @ banner @ [''Unlocking bitwarden''] @ replicate (Suc d) unlock_line
                       @ sync_lines session @ out @ warning_lines orphans
         \<and> filter is_report out = map inserted_line (zip names bodies)"
proof -
  let ?pc = "pass_cli_init (environ w) (home_dir w)"
  obtain session w3 where u: "unlock (w\<lparr>stdout := stdout w @ banner @ [''Unlocking bitwarden'']\<rparr>) = Some (session, w3)"
    and a: "after_unlock ?pc session w3 = (Inr (), w')" and b: "bw_items w3 = bw_items w"
    using main_Some_cases [OF assms(1)] by metis
  from unlock_stdout [OF u] obtain d where
    d: "stdout w3 = stdout w @ banner @ [''Unlocking bitwarden''] @ replicate (Suc d) unlock_line" by auto
  let ?w4 = "w3\<lparr>stdout := stdout w3 @ sync_lines session\<rparr>"
  from a b assms(2,3) obtain existing s5 where
    loop: "eforeach (sync_item ?pc) items ?w4 = (Inr (), s5)"
    and warn: "warn_ignored (ignored_entries existing names) s5 = (Inr (), w')"
    by (auto simp: after_unlock_eq ebind_Inr ebind_simps dest: list_pass_names_state)
  from sync_loop_log [OF loop assms(3,4)] obtain out where
    "stdout s5 = stdout ?w4 @ out" "filter is_report out = map inserted_line (zip names bodies)" by auto
  moreover from warn have "stdout w' = stdout s5 @ warning_lines (ignored_entries existing names)"
    by (auto simp: warn_ignored_eq)
  ultimately show ?thesis using d by auto
qed

theorem run_transcript_witness:
  "\<exists>w' bodies. main (example_world [] [bank_item, wifi_item]) = Some (Inr (), w')
     \<and> py_map format [bank_item, wifi_item] = Inr bodies
     \<and> (\<exists>session d out orphans.
           stdout w' = stdout (example_world [] [bank_item, wifi_item]) @ banner @ [''Unlocking bitwarden'']
             @ replicate (Suc d) unlock_line @ sync_lines session @ out @ warning_lines orphans
         \<and> filter is_report out = map inserted_line (zip [''my-bank-login-abc1'', ''wifi-note-def6''] bodies))"
proof -
  let ?w = "example_world [] [bank_item, wifi_item]"
  have run: "case main ?w of Some (r, w') \<Rightarrow> r = Inr () | None \<Rightarrow> False" by code_simp
  then obtain w' where m: "main ?w = Some (Inr (), w')" by (auto split: option.splits)
  have "case py_map format [bank_item, wifi_item] of Inr b \<Rightarrow> True | Inl e \<Rightarrow> False" by code_simp
  then obtain bodies where bs: "py_map format [bank_item, wifi_item] = Inr bodies"
    by (auto split: sum.splits)
  have it: "py_iter (bw_items ?w) = Inr [bank_item, wifi_item]" by (simp add: example_world_def)
  have ns: "py_map passname [bank_item, wifi_item] = Inr [''my-bank-login-abc1'', ''wifi-note-def6'']"
    by code_simp
  from run_transcript [OF m it ns bs] m bs show ?thesis by blast
qed



text \<open>C9: with distinct item names without a slash, the output of a finished run is
  determined line by line: the banner, one \<open>bw unlock\<close> line per attempt, the sync
  and list lines, then for each item in order a removal line exactly when its entry
  was in the store before the run and its report line, then the orphan warning for the
  snapshot names no item produced.\<close>

theorem run_output_exact:
  assumes "main w = Some (Inr (), w')"
    and "py_iter (bw_items w) = Inr items"
    and "py_map passname items = Inr names" and "py_map format items = Inr bodies"
    and "distinct names" and "\<forall>n \<in> set names. CHR ''/'' \<notin> set n"
    and "fst (list_pass_names (pass_cli_init (environ w) (home_dir w)) w) = Inr existing"
  shows "\<exists>session d.
           stdout w' = stdout w @ banner @ [''Unlocking bitwarden''] @ replicate (Suc d) unlock_line
             @ sync_lines session
             @ concat (map (item_log (pass_cli_init (environ w) (home_dir w)) w) (zip names bodies))
             @ warning_lines (ignored_entries existing names)"
proof -
  let ?pc = "pass_cli_init (environ w) (home_dir w)"
  obtain session w3 where u: "unlock (w\<lparr>stdout := stdout w @ banner @ [''Unlocking bitwarden'']\<rparr>) = Some (session, w3)"
    and a: "after_unlock ?pc session w3 = (Inr (), w')" and b: "bw_items w3 = bw_items w"
    and f: "files w3 = files w" and d: "dirs w3 = dirs w"
    using main_Some_cases [OF assms(1)] by metis
  from unlock_stdout [OF u] obtain k where
    k: "stdout w3 = stdout w @ banner @ [''Unlocking bitwarden''] @ replicate (Suc k) unlock_line" by auto
  let ?w4 = "w3\<lparr>stdout := stdout w3 @ sync_lines session\<rparr>"
  have l: "list_pass_names ?pc ?w4 = (Inr existing, ?w4)"
    using list_pass_names_files [of ?w4 w ?pc] f d assms(7) by simp
  from a l b assms(2,3) obtain s5 where
    loop: "eforeach (sync_item ?pc) items ?w4 = (Inr (), s5)"
    and warn: "warn_ignored (ignored_entries existing names) s5 = (Inr (), w')"
    by (auto simp: after_unlock_eq ebind_Inr ebind_simps)
  from sync_loop_out [OF loop assms(3-6)]
  have "stdout s5 = stdout ?w4 @ concat (map (item_log ?pc ?w4) (zip names bodies))" .
  moreover have "item_log ?pc ?w4 = item_log ?pc w"
    using f by (simp add: fun_eq_iff item_log_def is_file_def)
  moreover from warn have "stdout w' = stdout s5 @ warning_lines (ignored_entries existing names)"
    by (auto simp: warn_ignored_eq)
  ultimately show ?thesis using k by auto
qed

theorem run_output_exact_witness:
  "\<exists>w' bodies. main (example_world [([''home'', ''u'', ''.password-store'', ''my-bank-login-abc1.gpg''], ''old'')]
                                      [bank_item, wifi_item]) = Some (Inr (), w')
     \<and> py_map format [bank_item, wifi_item] = Inr bodies
     \<and> (\<exists>session d.
           stdout w' = banner @ [''Unlocking bitwarden''] @ replicate (Suc d) unlock_line @ sync_lines session
             @ [''Removed existing pass entry my-bank-login-abc1'',
                inserted_line (''my-bank-login-abc1'', bodies ! 0),
                inserted_line (''wifi-note-def6'', bodies ! 1)])"
proof -
  let ?w = "example_world [([''home'', ''u'', ''.password-store'', ''my-bank-login-abc1.gpg''], ''old'')]
                          [bank_item, wifi_item]"
  have run: "case main ?w of Some (r, w') \<Rightarrow> r = Inr () | None \<Rightarrow> False" by code_simp
  then obtain w' where m: "main ?w = Some (Inr (), w')" by (auto split: option.splits)
  have "case py_map format [bank_item, wifi_item] of Inr b \<Rightarrow> length b = 2 | Inl e \<Rightarrow> False" by code_simp
  then obtain bodies where bs: "py_map format [bank_item, wifi_item] = Inr bodies" and len: "length bodies = 2"
    by (auto split: sum.splits)
  then obtain b0 b1 where b: "bodies = [b0, b1]"
    by (cases bodies rule: list.exhaust; cases "tl bodies" rule: list.exhaust) auto
  have it: "py_iter (bw_items ?w) = Inr [bank_item, wifi_item]" by (simp add: example_world_def)
  have ns: "py_map passname [bank_item, wifi_item] = Inr [''my-bank-login-abc1'', ''wifi-note-def6'']"
    by code_simp
  have ex: "fst (list_pass_names (pass_cli_init (environ ?w) (home_dir ?w)) ?w) = Inr [''my-bank-login-abc1'']"
    by code_simp
  have logs: "concat (map (item_log (pass_cli_init (environ ?w) (home_dir ?w)) ?w)
                (zip [''my-bank-login-abc1'', ''wifi-note-def6''] [b0, b1]))
              = [''Removed existing pass entry my-bank-login-abc1'',
                 inserted_line (''my-bank-login-abc1'', b0), inserted_line (''wifi-note-def6'', b1)]"
    by (simp add: item_log_def example_world_def pass_cli_init_def entry_path_def is_file_def
        parse_path_def path_step_def os_path_join_def)
  have st0: "stdout ?w = []" by (simp add: example_world_def)
  from run_output_exact [OF m it ns bs[unfolded b] _ _ ex] m bs b logs st0
  show ?thesis by (simp add: ignored_entries_def warning_lines_def)
qed

end
